theory Spec2Isabelle
  imports Complex_Main
begin

section \<open>JavaScript strings\<close>

text \<open>
  A string is the list of the bytes of its UTF-8 form, so a character outside ASCII is
  two to four bytes. The white space that \<open>trim\<close> strips is the \<open>WhiteSpace\<close> and
  \<open>LineTerminator\<close> of ECMAScript, each in its UTF-8 form: tab, line feed, vertical
  tab, form feed, carriage return, space, U+00A0, U+1680, U+2000 to U+200A, U+2028,
  U+2029, U+202F, U+205F, U+3000 and U+FEFF. Letter case is changed on the ASCII
  letters only: the code compares lower-cased strings with ASCII words and lower-cases
  sanitized ASCII tokens, and no character outside ASCII has an ASCII letter of those
  words as its lower case.
\<close>

definition white_space :: "string list" where
  "white_space =
     [[CHR 0x09], [CHR 0x0A], [CHR 0x0B], [CHR 0x0C], [CHR 0x0D], [CHR 0x20],
      [CHR 0xC2, CHR 0xA0],
      [CHR 0xE1, CHR 0x9A, CHR 0x80],
      [CHR 0xE2, CHR 0x80, CHR 0x80], [CHR 0xE2, CHR 0x80, CHR 0x81],
      [CHR 0xE2, CHR 0x80, CHR 0x82], [CHR 0xE2, CHR 0x80, CHR 0x83],
      [CHR 0xE2, CHR 0x80, CHR 0x84], [CHR 0xE2, CHR 0x80, CHR 0x85],
      [CHR 0xE2, CHR 0x80, CHR 0x86], [CHR 0xE2, CHR 0x80, CHR 0x87],
      [CHR 0xE2, CHR 0x80, CHR 0x88], [CHR 0xE2, CHR 0x80, CHR 0x89],
      [CHR 0xE2, CHR 0x80, CHR 0x8A],
      [CHR 0xE2, CHR 0x80, CHR 0xA8], [CHR 0xE2, CHR 0x80, CHR 0xA9],
      [CHR 0xE2, CHR 0x80, CHR 0xAF],
      [CHR 0xE2, CHR 0x81, CHR 0x9F],
      [CHR 0xE3, CHR 0x80, CHR 0x80],
      [CHR 0xEF, CHR 0xBB, CHR 0xBF]]"

text \<open>The length of the first of the given byte sequences that the string starts with,
  0 when it starts with none.\<close>

definition ws_length :: "string list \<Rightarrow> string \<Rightarrow> nat" where
  "ws_length ws s =
     (case find (\<lambda>w. w \<noteq> [] \<and> take (length w) s = w) ws of
        Some w \<Rightarrow> length w
      | None \<Rightarrow> 0)"

lemma ws_length_le: "ws_length ws s \<le> length s"
proof (cases "find (\<lambda>w. w \<noteq> [] \<and> take (length w) s = w) ws")
  case None
  then show ?thesis by (simp add: ws_length_def)
next
  case (Some w)
  then have "take (length w) s = w"
    by (auto simp: find_Some_iff)
  then have "length (take (length w) s) = length w"
    by simp
  then have "length w \<le> length s"
    by simp
  with Some show ?thesis by (simp add: ws_length_def)
qed

function strip :: "string list \<Rightarrow> string \<Rightarrow> string" where
  "strip ws s = (if ws_length ws s = 0 then s else strip ws (drop (ws_length ws s) s))"
  by pat_completeness auto
termination
proof (relation "measure (\<lambda>(ws, s). length s)")
  show "wf (measure (\<lambda>(ws, s). length s))" by simp
next
  fix ws :: "string list" and s :: string
  assume "ws_length ws s \<noteq> 0"
  moreover have "ws_length ws s \<le> length s" by (rule ws_length_le)
  ultimately show "((ws, drop (ws_length ws s) s), (ws, s)) \<in> measure (\<lambda>(ws, s). length s)"
    by simp
qed

declare strip.simps [simp del]

definition trimStart :: "string \<Rightarrow> string" where
  "trimStart s = strip white_space s"

definition trimEnd :: "string \<Rightarrow> string" where
  "trimEnd s = rev (strip (map rev white_space) (rev s))"

definition trim :: "string \<Rightarrow> string" where
  "trim s = trimEnd (trimStart s)"

definition upper_letters :: string where
  "upper_letters = ''ABCDEFGHIJKLMNOPQRSTUVWXYZ''"

definition lower_letters :: string where
  "lower_letters = ''abcdefghijklmnopqrstuvwxyz''"

definition digit_chars :: string where
  "digit_chars = ''0123456789''"

definition toLowerChar :: "char \<Rightarrow> char" where
  "toLowerChar c = (case map_of (zip upper_letters lower_letters) c of Some d \<Rightarrow> d | None \<Rightarrow> c)"

definition toLowerCase :: "string \<Rightarrow> string" where
  "toLowerCase s = map toLowerChar s"

definition startsWith :: "string \<Rightarrow> string \<Rightarrow> bool" where
  "startsWith s p = (take (length p) s = p)"

section \<open>The credential: the Authorization header\<close>

text \<open>
  The expression of \<open>KeycrmApi.authenticate\<close>:
  \<^verbatim>\<open>$credentials.apiToken && $credentials.apiToken.trim().toLowerCase().startsWith("bearer ")
     ? $credentials.apiToken.trim() : "Bearer " + $credentials.apiToken.trim()\<close>
  A string is truthy when it is not empty.
\<close>

definition authenticate_Authorization :: "string \<Rightarrow> string" where
  "authenticate_Authorization apiToken =
     (if apiToken \<noteq> [] \<and> startsWith (toLowerCase (trim apiToken)) ''bearer ''
      then trim apiToken
      else ''Bearer '' @ trim apiToken)"

lemma toLowerCase_append: "toLowerCase (a @ b) = toLowerCase a @ toLowerCase b"
  by (simp add: toLowerCase_def)

lemma toLowerCase_Bearer: "toLowerCase ''Bearer '' = ''bearer ''"
  by (simp add: toLowerCase_def toLowerChar_def upper_letters_def lower_letters_def)

lemma startsWith_append: "startsWith (p @ s) p"
  by (simp add: startsWith_def)

lemma strip_Nil: "strip ws [] = []"
proof -
  have "ws_length ws [] = 0"
    using ws_length_le [of ws "[]"] by simp
  then show ?thesis by (subst strip.simps) simp
qed

lemma trim_Nil: "trim [] = []"
  by (simp add: trim_def trimStart_def trimEnd_def strip_Nil)

text \<open>A no-break space, a byte order mark and a line separator are stripped like a
  space; the Cyrillic letter U+0420, whose last byte is that of the no-break space, is
  kept.\<close>

lemma trim_examples:
  "trim ([CHR 0xC2, CHR 0xA0] @ ''a b'' @ [CHR 0xE2, CHR 0x80, CHR 0xA8, CHR 0x0A]) = ''a b''"
  "trim [CHR 0xEF, CHR 0xBB, CHR 0xBF, CHR 0x20, CHR 0xC2, CHR 0xA0] = []"
  "trim [CHR 0x20, CHR 0xD0, CHR 0xA0] = [CHR 0xD0, CHR 0xA0]"
  "authenticate_Authorization ([CHR 0xC2, CHR 0xA0] @ ''Bearer abc'' @ [CHR 0xC2, CHR 0xA0])
     = ''Bearer abc''"
  by code_simp+

text \<open>
  C8, as stated, fails: a token entered as \<open>bearer abc\<close> is passed through unchanged, so
  the header starts with \<open>bearer \<close>, not with the exact prefix \<open>Bearer \<close>.
\<close>

theorem authorization_exact_prefix_counterexample:
  "authenticate_Authorization ''bearer abc'' = ''bearer abc'' \<and>
   \<not> startsWith (authenticate_Authorization ''bearer abc'') ''Bearer ''"
  by code_simp

text \<open>
  C8 (amended): for every stored token the header starts with the bearer scheme up to
  letter case (its lower-cased form starts with \<open>bearer \<close>). It is the trimmed token
  itself when that already starts with \<open>bearer \<close> in any letter case, and \<open>Bearer \<close>
  followed by the trimmed token otherwise.
\<close>

theorem authorization_bearer_prefix:
  "startsWith (toLowerCase (authenticate_Authorization t)) ''bearer '' \<and>
   authenticate_Authorization t =
     (if startsWith (toLowerCase (trim t)) ''bearer '' then trim t else ''Bearer '' @ trim t)"
proof (cases "startsWith (toLowerCase (trim t)) ''bearer ''")
  case True
  then have "trim t \<noteq> []"
    by (auto simp: startsWith_def toLowerCase_def)
  then have "t \<noteq> []"
    using trim_Nil by auto
  with True show ?thesis
    by (simp add: authenticate_Authorization_def)
next
  case False
  have "startsWith (toLowerCase (''Bearer '' @ trim t)) ''bearer ''"
    unfolding toLowerCase_append toLowerCase_Bearer by (rule startsWith_append)
  with False show ?thesis
    by (simp add: authenticate_Authorization_def)
qed

section \<open>JavaScript values\<close>

text \<open>
  A Number is NaN, an infinity or a finite value. Finite values are rationals: the code
  only compares numbers, truncates them and adds one to a page counter, all of which are
  exact on the doubles they are applied to. \<open>-0\<close> and \<open>+0\<close> are one value, as \<open>===\<close>
  sees them.
\<close>

datatype jsnum = NaN | PosInf | NegInf | Fin rat

text \<open>
  The values the host and the API hand to the node. An object is the list of its own
  properties in insertion order.
\<close>

datatype jsval =
    JUndefined
  | JNull
  | JBool bool
  | JNum jsnum
  | JStr string
  | JArr "jsval list"
  | JObj "(string \<times> jsval) list"

text \<open>A Date: invalid (its time value is NaN), or the UTC fields of its time value.\<close>

datatype jsdate =
    InvalidDate
  | ValidDate (getUTCFullYear: int) (getUTCMonth: nat) (getUTCDate: nat)
      (getUTCHours: nat) (getUTCMinutes: nat) (getUTCSeconds: nat)

text \<open>
  What the JavaScript runtime computes and the repository does not define is a
  parameter of the model: the number a string denotes (\<open>StringToNumber\<close>), the decimal
  form of a number that is not an integer below \<open>10^21\<close> in magnitude
  (\<open>NumberToString\<close>), and the Date a string denotes when it is not a calendar date in
  the form \<open>YYYY-MM-DD\<close> (\<open>DateParseLegacy\<close>).
\<close>

record runtime =
  StringToNumber :: "string \<Rightarrow> jsnum"
  NumberToString :: "rat \<Rightarrow> string"
  DateParseLegacy :: "string \<Rightarrow> jsdate"

definition num_lt :: "jsnum \<Rightarrow> jsnum \<Rightarrow> bool" where
  "num_lt a b =
     (case (a, b) of
        (Fin x, Fin y) \<Rightarrow> x < y
      | (Fin x, PosInf) \<Rightarrow> True
      | (NegInf, Fin y) \<Rightarrow> True
      | (NegInf, PosInf) \<Rightarrow> True
      | _ \<Rightarrow> False)"

definition num_gt :: "jsnum \<Rightarrow> jsnum \<Rightarrow> bool" where
  "num_gt a b = num_lt b a"

definition num_ge :: "jsnum \<Rightarrow> jsnum \<Rightarrow> bool" where
  "num_ge a b = (a \<noteq> NaN \<and> b \<noteq> NaN \<and> \<not> num_lt a b)"

definition trunc_rat :: "rat \<Rightarrow> rat" where
  "trunc_rat x = (if 0 \<le> x then of_int \<lfloor>x\<rfloor> else of_int \<lceil>x\<rceil>)"

definition Math_trunc :: "jsnum \<Rightarrow> jsnum" where
  "Math_trunc n = (case n of Fin x \<Rightarrow> Fin (trunc_rat x) | _ \<Rightarrow> n)"

fun show_nat :: "nat \<Rightarrow> string" where
  "show_nat n =
     (if n < 10 then [digit_chars ! n] else show_nat (n div 10) @ [digit_chars ! (n mod 10)])"

declare show_nat.simps [simp del]

definition show_int :: "int \<Rightarrow> string" where
  "show_int i = (if i < 0 then CHR ''-'' # show_nat (nat (- i)) else show_nat (nat i))"

definition number_toString :: "runtime \<Rightarrow> jsnum \<Rightarrow> string" where
  "number_toString rt n =
     (case n of
        NaN \<Rightarrow> ''NaN''
      | PosInf \<Rightarrow> ''Infinity''
      | NegInf \<Rightarrow> ''-Infinity''
      | Fin x \<Rightarrow>
          if x = of_int \<lfloor>x\<rfloor> \<and> \<bar>x\<bar> < 10 ^ 21 then show_int \<lfloor>x\<rfloor> else NumberToString rt x)"

text \<open>\<open>String(value)\<close>; an array joins its elements with commas, null and undefined as
  the empty string.\<close>

fun js_String :: "runtime \<Rightarrow> jsval \<Rightarrow> string"
  and js_join :: "runtime \<Rightarrow> jsval list \<Rightarrow> string" where
  "js_String rt JUndefined = ''undefined''"
| "js_String rt JNull = ''null''"
| "js_String rt (JBool b) = (if b then ''true'' else ''false'')"
| "js_String rt (JNum n) = number_toString rt n"
| "js_String rt (JStr s) = s"
| "js_String rt (JArr xs) = js_join rt xs"
| "js_String rt (JObj kvs) = ''[object Object]''"
| "js_join rt [] = []"
| "js_join rt (x # xs) =
     (if x = JUndefined \<or> x = JNull then [] else js_String rt x)
     @ (if xs = [] then [] else '','' @ js_join rt xs)"

text \<open>\<open>Number(value)\<close>.\<close>

definition js_Number :: "runtime \<Rightarrow> jsval \<Rightarrow> jsnum" where
  "js_Number rt v =
     (case v of
        JUndefined \<Rightarrow> NaN
      | JNull \<Rightarrow> Fin 0
      | JBool b \<Rightarrow> Fin (if b then 1 else 0)
      | JNum n \<Rightarrow> n
      | JStr s \<Rightarrow> StringToNumber rt s
      | _ \<Rightarrow> StringToNumber rt (js_String rt v))"

text \<open>\<open>Boolean(value)\<close>, the truthiness of a value.\<close>

definition js_Boolean :: "jsval \<Rightarrow> bool" where
  "js_Boolean v =
     (case v of
        JUndefined \<Rightarrow> False
      | JNull \<Rightarrow> False
      | JBool b \<Rightarrow> b
      | JNum n \<Rightarrow> n \<noteq> NaN \<and> n \<noteq> Fin 0
      | JStr s \<Rightarrow> s \<noteq> []
      | _ \<Rightarrow> True)"

text \<open>Property access on an object: \<open>key in obj\<close>, \<open>obj[key]\<close>, \<open>obj[key] = v\<close>.\<close>

definition has_key :: "(string \<times> jsval) list \<Rightarrow> string \<Rightarrow> bool" where
  "has_key kvs k = (map_of kvs k \<noteq> None)"

definition get_prop :: "(string \<times> jsval) list \<Rightarrow> string \<Rightarrow> jsval" where
  "get_prop kvs k = (case map_of kvs k of Some v \<Rightarrow> v | None \<Rightarrow> JUndefined)"

fun set_prop :: "(string \<times> jsval) list \<Rightarrow> string \<Rightarrow> jsval \<Rightarrow> (string \<times> jsval) list" where
  "set_prop [] k v = [(k, v)]"
| "set_prop ((k', v') # kvs) k v =
     (if k' = k then (k, v) # kvs else (k', v') # set_prop kvs k v)"

definition isObject :: "jsval \<Rightarrow> bool" where
  "isObject v = (case v of JObj kvs \<Rightarrow> True | _ \<Rightarrow> False)"

text \<open>The properties of a value that is read as an object: \<open>isObject(v) ? v : {}\<close>.\<close>

definition props_of :: "jsval \<Rightarrow> (string \<times> jsval) list" where
  "props_of v = (case v of JObj kvs \<Rightarrow> kvs | _ \<Rightarrow> [])"

fun isEmptyValue :: "jsval \<Rightarrow> bool" where
  "isEmptyValue JUndefined = True"
| "isEmptyValue JNull = True"
| "isEmptyValue (JStr s) = (trim s = [])"
| "isEmptyValue (JArr xs) = (xs = [])"
| "isEmptyValue (JObj kvs) = (kvs = [])"
| "isEmptyValue v = False"

text \<open>A string of Unicode white space only is empty: here a no-break space and an
  ideographic space.\<close>

lemma isEmptyValue_white_space:
  "isEmptyValue (JStr [CHR 0xC2, CHR 0xA0, CHR 0xE3, CHR 0x80, CHR 0x80])"
  "\<not> isEmptyValue (JStr [CHR 0xC2, CHR 0xA0, CHR ''0''])"
  by code_simp+

section \<open>Metadata model\<close>

text \<open>
  The interfaces of the source, with the members the run-time code reads (labels,
  descriptions, formats and enumerations only feed the generated UI). Members of the body
  field interfaces carry the prefix \<open>body_\<close> where a path or query field has a member of
  the same name; \<open>default\<close> is \<open>default_value\<close>, and the \<open>name\<close> of a filter field is
  \<open>filter_name\<close>.
\<close>

datatype PrimitiveSchemaType = TString | TNumber | TInteger | TBoolean

datatype QueryFilterFieldType = FString | FNumber | FInteger | FBoolean | FBetweenDateTime

record IPathUiField =
  name :: string
  apiPath :: string
  required :: bool

record IQuerySimpleField = IPathUiField +
  schemaType :: PrimitiveSchemaType
  maximum :: "jsnum option"
  default_value :: jsval
  example :: jsval

record IQueryFilterField =
  filter_name :: string
  fieldType :: QueryFilterFieldType

record IQueryUi =
  simple :: "IQuerySimpleField list"
  include_options :: "string list option"
  sort_options :: "string list option"
  filters :: "IQueryFilterField list"

record IBodyCommon =
  apiKey :: string
  body_apiPath :: string
  body_required :: bool
  nullable :: bool

record IBodyPrimitiveField = IBodyCommon +
  body_schemaType :: PrimitiveSchemaType

datatype IBodyField =
    Primitive IBodyPrimitiveField
  | Object IBodyCommon "IBodyField list"
  | Array IBodyCommon IBodyField

record IBodyUi =
  contentType :: string
  binaryProperty :: "string option"
  requiredFields :: "IBodyField list"
  optionalFields :: "IBodyField list"

record IOperationMeta =
  operationValue :: string
  operationId :: string
  http_method :: string
  path :: string
  pathUi :: "IPathUiField list"
  queryUi :: IQueryUi
  bodyUi :: "IBodyUi option"

record IResourceMeta =
  resourceValue :: string
  operations :: "IOperationMeta list"

text \<open>The members every variant of \<open>IBodyField\<close> has.\<close>

fun common :: "IBodyField \<Rightarrow> IBodyCommon" where
  "common (Primitive f) =
     \<lparr>apiKey = apiKey f, body_apiPath = body_apiPath f, body_required = body_required f,
      nullable = nullable f\<rparr>"
| "common (Object c children) = c"
| "common (Array c itemField) = c"

section \<open>Naming engine\<close>

definition is_alnum :: "char \<Rightarrow> bool" where
  "is_alnum c = (c \<in> set (lower_letters @ upper_letters @ digit_chars))"

text \<open>\<open>value.replace(/[^a-zA-Z0-9]+/g, '__')\<close>: every maximal run of characters that are
  not alphanumeric becomes two underscores.\<close>

function replaceNonAlnumRuns :: "string \<Rightarrow> string" where
  "replaceNonAlnumRuns [] = []"
| "replaceNonAlnumRuns (c # cs) =
     (if is_alnum c then c # replaceNonAlnumRuns cs
      else ''__'' @ replaceNonAlnumRuns (dropWhile (\<lambda>d. \<not> is_alnum d) cs))"
  by pat_completeness auto
termination
  by (relation "measure length") (auto simp: length_dropWhile_le le_imp_less_Suc)

text \<open>\<open>.replace(/^_+|_+$/g, '')\<close>: the leading and the trailing underscores go.\<close>

definition trimUnderscores :: "string \<Rightarrow> string" where
  "trimUnderscores s =
     rev (dropWhile (\<lambda>c. c = CHR ''_'') (rev (dropWhile (\<lambda>c. c = CHR ''_'') s)))"

definition sanitizeParamToken :: "string \<Rightarrow> string" where
  "sanitizeParamToken v =
     (let sanitized = toLowerCase (trimUnderscores (replaceNonAlnumRuns v))
      in if sanitized = [] then ''value'' else sanitized)"

definition operationToken :: "IOperationMeta \<Rightarrow> string" where
  "operationToken operation = sanitizeParamToken (operationId operation)"

text \<open>\<open>a || b\<close> on strings: \<open>a\<close> unless it is empty.\<close>

definition or_else :: "string \<Rightarrow> string \<Rightarrow> string" where
  "or_else a b = (if a \<noteq> [] then a else b)"

definition pathParamName :: "IOperationMeta \<Rightarrow> 'a IPathUiField_scheme \<Rightarrow> string" where
  "pathParamName operation field =
     ''path__'' @ operationToken operation @ ''__''
       @ sanitizeParamToken (or_else (apiPath field) (name field))"

definition querySimpleParamName :: "IOperationMeta \<Rightarrow> IQuerySimpleField \<Rightarrow> string" where
  "querySimpleParamName operation field =
     ''query__'' @ operationToken operation @ ''__''
       @ sanitizeParamToken (or_else (apiPath field) (name field))"

definition queryIncludeParamName :: "IOperationMeta \<Rightarrow> string" where
  "queryIncludeParamName operation = ''query__'' @ operationToken operation @ ''__include''"

definition querySortParamName :: "IOperationMeta \<Rightarrow> string" where
  "querySortParamName operation = ''query__'' @ operationToken operation @ ''__sort''"

definition queryGetAllParamName :: "IOperationMeta \<Rightarrow> string" where
  "queryGetAllParamName operation = ''query__'' @ operationToken operation @ ''__get_all''"

definition queryOptionsCollectionParamName :: "IOperationMeta \<Rightarrow> string" where
  "queryOptionsCollectionParamName operation =
     ''query__'' @ operationToken operation @ ''__options''"

definition queryPageOptionParamName :: "IOperationMeta \<Rightarrow> string" where
  "queryPageOptionParamName operation =
     ''query__'' @ operationToken operation @ ''__options__page''"

definition queryCustomFieldsFilterParamName :: "IOperationMeta \<Rightarrow> string" where
  "queryCustomFieldsFilterParamName operation =
     ''query__'' @ operationToken operation @ ''__filter__custom_fields''"

definition queryFilterCollectionParamName :: "IOperationMeta \<Rightarrow> string" where
  "queryFilterCollectionParamName operation =
     ''query__'' @ operationToken operation @ ''__filter''"

definition queryFilterFieldParamName :: "IOperationMeta \<Rightarrow> IQueryFilterField \<Rightarrow> string" where
  "queryFilterFieldParamName operation field =
     ''query__'' @ operationToken operation @ ''__filter__''
       @ sanitizeParamToken (filter_name field)"

definition queryFilterFromParamName :: "IOperationMeta \<Rightarrow> IQueryFilterField \<Rightarrow> string" where
  "queryFilterFromParamName operation field =
     queryFilterFieldParamName operation field @ ''__from''"

definition queryFilterToParamName :: "IOperationMeta \<Rightarrow> IQueryFilterField \<Rightarrow> string" where
  "queryFilterToParamName operation field =
     queryFilterFieldParamName operation field @ ''__to''"

definition bodyFieldParamName :: "IOperationMeta \<Rightarrow> IBodyField \<Rightarrow> string" where
  "bodyFieldParamName operation field =
     ''body__'' @ operationToken operation @ ''__''
       @ sanitizeParamToken (or_else (body_apiPath (common field)) (apiKey (common field)))"

definition bodyOptionalCollectionParamName :: "IOperationMeta \<Rightarrow> string" where
  "bodyOptionalCollectionParamName operation =
     ''body__'' @ operationToken operation @ ''__optional''"

definition bodyBinaryPropertyParamName :: "IOperationMeta \<Rightarrow> string" where
  "bodyBinaryPropertyParamName operation =
     ''body__'' @ operationToken operation @ ''__binary_property''"

section \<open>Value normalizer\<close>

definition numeric :: "PrimitiveSchemaType \<Rightarrow> bool" where
  "numeric t = (t = TNumber \<or> t = TInteger)"

definition normalizePrimitiveValue :: "runtime \<Rightarrow> IBodyPrimitiveField \<Rightarrow> jsval \<Rightarrow> jsval" where
  "normalizePrimitiveValue rt field v =
     (if numeric (body_schemaType field) then
        (if isEmptyValue v then JUndefined
         else let parsed = js_Number rt v in
           if parsed = NaN then JUndefined
           else if body_schemaType field = TInteger then JNum (Math_trunc parsed)
           else JNum parsed)
      else if body_schemaType field = TBoolean then
        (case v of
           JBool b \<Rightarrow> JBool b
         | JStr s \<Rightarrow>
             (let lowered = toLowerCase (trim s) in
                if lowered = ''true'' then JBool True
                else if lowered = ''false'' then JBool False
                else JUndefined)
         | _ \<Rightarrow> JUndefined)
      else if v = JNull \<or> v = JUndefined then JUndefined
      else let stringValue = js_String rt v in
        if \<not> nullable field \<and> trim stringValue = [] then JUndefined
        else JStr stringValue)"

definition normalizeSimpleQueryValue :: "runtime \<Rightarrow> IQuerySimpleField \<Rightarrow> jsval \<Rightarrow> jsval" where
  "normalizeSimpleQueryValue rt field v =
     (if numeric (schemaType field) then
        (let parsed = js_Number rt v in
           if parsed = NaN then JUndefined
           else if schemaType field = TInteger then JNum (Math_trunc parsed) else JNum parsed)
      else if schemaType field = TBoolean then JBool (js_Boolean v)
      else JStr (js_String rt v))"

definition shouldIncludeSimpleQueryValue :: "runtime \<Rightarrow> IQuerySimpleField \<Rightarrow> jsval \<Rightarrow> bool" where
  "shouldIncludeSimpleQueryValue rt field v =
     (if required field then True
      else if isEmptyValue v then False
      else if numeric (schemaType field) \<and> js_Number rt v = Fin 0
        then default_value field \<noteq> JUndefined
      else if schemaType field = TBoolean \<and> v = JBool False
        then default_value field \<noteq> JUndefined
      else True)"

text \<open>\<open>Number(candidate)\<close> for the declared maximum, which is a number or absent.\<close>

definition maximum_value :: "IQuerySimpleField \<Rightarrow> jsval" where
  "maximum_value field = (case maximum field of None \<Rightarrow> JUndefined | Some n \<Rightarrow> JNum n)"

fun firstPositive :: "runtime \<Rightarrow> jsval list \<Rightarrow> jsnum" where
  "firstPositive rt [] = Fin 50"
| "firstPositive rt (candidate # candidates) =
     (let parsed = js_Number rt candidate in
        if parsed \<noteq> NaN \<and> num_gt parsed (Fin 0) then Math_trunc parsed
        else firstPositive rt candidates)"

definition resolvePageSize :: "runtime \<Rightarrow> IQuerySimpleField \<Rightarrow> jsnum" where
  "resolvePageSize rt limitField =
     firstPositive rt [maximum_value limitField, default_value limitField, example limitField]"

section \<open>An instance of the runtime\<close>

text \<open>
  For evaluating the model on concrete inputs: a string of decimal digits denotes its
  value, a blank string zero and every other string NaN; no string beyond the calendar
  dates is a valid Date.
\<close>

definition parseDecimal :: "string \<Rightarrow> jsnum" where
  "parseDecimal s =
     (let t = trim s in
        if t = [] then Fin 0
        else if list_all (\<lambda>c. c \<in> set digit_chars) t then
          Fin (of_nat (foldl
            (\<lambda>n c. 10 * n + (case map_of (zip digit_chars [0..<10]) c of Some d \<Rightarrow> d | None \<Rightarrow> 0))
            0 t))
        else NaN)"

definition example_runtime :: runtime where
  "example_runtime =
     \<lparr>StringToNumber = parseDecimal, NumberToString = (\<lambda>x. ''NaN''),
      DateParseLegacy = (\<lambda>s. InvalidDate)\<rparr>"

section \<open>Page size\<close>

definition example_limit :: IQuerySimpleField where
  "example_limit =
     \<lparr>name = ''limit'', apiPath = ''limit'', required = False, schemaType = TInteger,
      maximum = None, default_value = JUndefined, example = JNum (Fin 25)\<rparr>"

text \<open>A candidate counts when it parses to a positive number:
  \<open>!Number.isNaN(parsed) && parsed > 0\<close>.\<close>

definition positive :: "jsnum \<Rightarrow> bool" where
  "positive n = (n \<noteq> NaN \<and> num_gt n (Fin 0))"

text \<open>A number that is not strictly between 0 and 1 and is not \<open>Infinity\<close>.\<close>

definition whole_or_nonpositive :: "jsnum \<Rightarrow> bool" where
  "whole_or_nonpositive n =
     (case n of Fin x \<Rightarrow> x \<le> 0 \<or> 1 \<le> x | PosInf \<Rightarrow> False | _ \<Rightarrow> True)"

lemma trunc_rat_ge_1: "1 \<le> x \<Longrightarrow> \<exists>k. trunc_rat x = of_int k \<and> 1 \<le> k"
  by (auto simp: trunc_rat_def intro!: exI[of _ "\<lfloor>x\<rfloor>"])

lemma Math_trunc_positive:
  "positive n \<Longrightarrow> whole_or_nonpositive n \<Longrightarrow> \<exists>k. Math_trunc n = Fin (of_int k) \<and> 1 \<le> k"
  using trunc_rat_ge_1
  by (cases n) (auto simp: positive_def whole_or_nonpositive_def num_gt_def num_lt_def Math_trunc_def)

lemma firstPositive_whole:
  "list_all (\<lambda>c. whole_or_nonpositive (js_Number rt c)) cs \<Longrightarrow>
   \<exists>k. firstPositive rt cs = Fin (of_int k) \<and> 1 \<le> k"
proof (induction cs)
  case Nil
  show ?case by (auto intro!: exI[of _ 50])
next
  case (Cons c cs)
  then show ?case
    using Math_trunc_positive [of "js_Number rt c"] by (auto simp: Let_def positive_def)
qed

text \<open>
  C9, as stated, fails: the chain has a third candidate, the field's \<open>example\<close>. A limit
  field with no maximum, no default and the example 25 gets the page size 25, not the
  fallback constant 50.
\<close>

theorem resolvePageSize_counterexample:
  "maximum example_limit = None \<and> default_value example_limit = JUndefined \<and>
   resolvePageSize example_runtime example_limit = Fin 25 \<and>
   resolvePageSize example_runtime example_limit \<noteq> Fin 50"
  by code_simp

text \<open>
  C9 (amended): the effective page size is the truncation of the first of the field's
  declared maximum, default and example that parses to a positive number, and the
  fallback constant 50 when none does. It is a positive integer whenever no candidate
  parses to a number strictly between 0 and 1 or to \<open>Infinity\<close>.
\<close>

theorem resolvePageSize_chain:
  "resolvePageSize rt f =
     (if positive (js_Number rt (maximum_value f))
        then Math_trunc (js_Number rt (maximum_value f))
      else if positive (js_Number rt (default_value f))
        then Math_trunc (js_Number rt (default_value f))
      else if positive (js_Number rt (example f))
        then Math_trunc (js_Number rt (example f))
      else Fin 50) \<and>
   (list_all (\<lambda>c. whole_or_nonpositive (js_Number rt c))
      [maximum_value f, default_value f, example f] \<longrightarrow>
    (\<exists>k. resolvePageSize rt f = Fin (of_int k) \<and> 1 \<le> k))"
proof
  show "resolvePageSize rt f =
     (if positive (js_Number rt (maximum_value f))
        then Math_trunc (js_Number rt (maximum_value f))
      else if positive (js_Number rt (default_value f))
        then Math_trunc (js_Number rt (default_value f))
      else if positive (js_Number rt (example f))
        then Math_trunc (js_Number rt (example f))
      else Fin 50)"
    by (simp add: resolvePageSize_def positive_def Let_def)
  show "list_all (\<lambda>c. whole_or_nonpositive (js_Number rt c))
      [maximum_value f, default_value f, example f] \<longrightarrow>
    (\<exists>k. resolvePageSize rt f = Fin (of_int k) \<and> 1 \<le> k)"
    unfolding resolvePageSize_def using firstPositive_whole by blast
qed

theorem resolvePageSize_chain_witness:
  "list_all (\<lambda>c. whole_or_nonpositive (js_Number example_runtime c))
      [maximum_value example_limit, default_value example_limit, example example_limit] \<and>
   (\<exists>k. resolvePageSize example_runtime example_limit = Fin (of_int k) \<and> 1 \<le> k) \<and>
   resolvePageSize example_runtime example_limit = Fin 25"
proof -
  have h: "list_all (\<lambda>c. whole_or_nonpositive (js_Number example_runtime c))
      [maximum_value example_limit, default_value example_limit, example example_limit]"
    by (simp add: example_limit_def maximum_value_def js_Number_def whole_or_nonpositive_def)
  have v: "resolvePageSize example_runtime example_limit = Fin 25"
    by code_simp
  from h v resolvePageSize_chain [of example_runtime example_limit] show ?thesis
    by blast
qed

text \<open>The test \<open>parsed > 0\<close> comes before the truncation: a declared maximum of one half
  gives the page size 0.\<close>

lemma resolvePageSize_half:
  "resolvePageSize example_runtime (example_limit\<lparr>maximum := Some (Fin (1 / 2))\<rparr>) = Fin 0"
  by code_simp

section \<open>Inclusion of a simple query value\<close>

definition string_field :: IQuerySimpleField where
  "string_field =
     \<lparr>name = ''q'', apiPath = ''q'', required = False, schemaType = TString,
      maximum = None, default_value = JUndefined, example = JUndefined\<rparr>"

definition zero_default_field :: IQuerySimpleField where
  "zero_default_field =
     \<lparr>name = ''offset'', apiPath = ''offset'', required = False, schemaType = TInteger,
      maximum = None, default_value = JNum (Fin 0), example = JUndefined\<rparr>"

lemma trim_blank: "trim '' '' = []"
  by code_simp

lemma js_Number_zero: "js_Number rt (JNum (Fin 0)) = Fin 0"
  by (simp add: js_Number_def)

lemma js_Number_false: "js_Number rt (JBool False) = Fin 0"
  by (simp add: js_Number_def)

text \<open>
  C6, as stated for all schema types, fails: the zero and false tests are guarded by the
  schema type, so a string field that is not required and declares no default includes a
  supplied numeric zero, and a supplied boolean false.
\<close>

theorem shouldInclude_counterexample:
  "\<not> required string_field \<and> default_value string_field = JUndefined \<and>
   shouldIncludeSimpleQueryValue example_runtime string_field (JNum (Fin 0)) \<and>
   shouldIncludeSimpleQueryValue example_runtime string_field (JBool False)"
  by (simp add: string_field_def shouldIncludeSimpleQueryValue_def numeric_def)

text \<open>
  C6 (amended): a required field is always included; otherwise an empty value is
  excluded; a numeric zero supplied to a number or integer field, and a boolean false
  supplied to a boolean, number or integer field, is excluded exactly when the field
  declares no default, while a zero supplied to a string or boolean field and a false
  supplied to a string field are included. A field is excluded only when it is not
  required and its value is empty, or converts to the number zero or is false with no
  default declared.
\<close>

theorem shouldInclude_law:
  "(required f \<longrightarrow> shouldIncludeSimpleQueryValue rt f v) \<and>
   (\<not> required f \<and> isEmptyValue v \<longrightarrow> \<not> shouldIncludeSimpleQueryValue rt f v) \<and>
   (\<not> required f \<and> numeric (schemaType f) \<longrightarrow>
      (shouldIncludeSimpleQueryValue rt f (JNum (Fin 0)) \<longleftrightarrow> default_value f \<noteq> JUndefined)) \<and>
   (\<not> required f \<and> schemaType f \<noteq> TString \<longrightarrow>
      (shouldIncludeSimpleQueryValue rt f (JBool False) \<longleftrightarrow> default_value f \<noteq> JUndefined)) \<and>
   (\<not> numeric (schemaType f) \<longrightarrow> shouldIncludeSimpleQueryValue rt f (JNum (Fin 0))) \<and>
   (schemaType f = TString \<longrightarrow> shouldIncludeSimpleQueryValue rt f (JBool False)) \<and>
   (\<not> shouldIncludeSimpleQueryValue rt f v \<longrightarrow>
      \<not> required f \<and>
      (isEmptyValue v \<or>
       default_value f = JUndefined \<and> (js_Number rt v = Fin 0 \<or> v = JBool False)))"
  by (cases "schemaType f")
    (auto simp: shouldIncludeSimpleQueryValue_def numeric_def js_Number_zero js_Number_false)

text \<open>The boundary case: an integer field with the declared default 0 and the supplied
  value 0 is included.\<close>

theorem shouldInclude_law_witness:
  "\<not> required zero_default_field \<and> numeric (schemaType zero_default_field) \<and>
   default_value zero_default_field = JNum (Fin 0) \<and>
   shouldIncludeSimpleQueryValue example_runtime zero_default_field (JNum (Fin 0)) \<and>
   \<not> shouldIncludeSimpleQueryValue example_runtime
       (zero_default_field\<lparr>default_value := JUndefined\<rparr>) (JNum (Fin 0)) \<and>
   shouldIncludeSimpleQueryValue example_runtime (zero_default_field\<lparr>required := True\<rparr>) JNull \<and>
   \<not> shouldIncludeSimpleQueryValue example_runtime zero_default_field (JStr '' '')"
  using shouldInclude_law [of zero_default_field example_runtime "JNum (Fin 0)"]
    shouldInclude_law [of "zero_default_field\<lparr>default_value := JUndefined\<rparr>" example_runtime
      "JNum (Fin 0)"]
    shouldInclude_law [of "zero_default_field\<lparr>required := True\<rparr>" example_runtime JNull]
    shouldInclude_law [of zero_default_field example_runtime "JStr '' ''"]
    trim_blank
  by (simp add: zero_default_field_def numeric_def)

section \<open>The two normalizers\<close>

definition flag_field :: IQuerySimpleField where
  "flag_field =
     \<lparr>name = ''active'', apiPath = ''active'', required = True, schemaType = TBoolean,
      maximum = None, default_value = JUndefined, example = JUndefined\<rparr>"

definition body_flag_field :: IBodyPrimitiveField where
  "body_flag_field =
     \<lparr>apiKey = ''active'', body_apiPath = ''active'', body_required = True, nullable = False,
      body_schemaType = TBoolean\<rparr>"

definition body_count_field :: IBodyPrimitiveField where
  "body_count_field =
     \<lparr>apiKey = ''count'', body_apiPath = ''count'', body_required = True, nullable = False,
      body_schemaType = TInteger\<rparr>"

text \<open>
  C4, as stated, fails twice: on an integer field a value that does not parse
  (\<open>"abc"\<close>) gives undefined, and on a boolean field the string \<open>"false"\<close> gives true
  (its truthiness), where the primitive normalizer parses it to false.
\<close>

theorem normalizeSimpleQueryValue_counterexample:
  "normalizeSimpleQueryValue example_runtime example_limit (JStr ''abc'') = JUndefined \<and>
   normalizeSimpleQueryValue example_runtime flag_field (JStr ''false'') = JBool True \<and>
   normalizePrimitiveValue example_runtime body_flag_field (JStr ''false'') = JBool False"
  by code_simp

text \<open>
  C4 (amended): normalizeSimpleQueryValue returns undefined exactly when the field is a
  number or integer field and the value parses to NaN. On number, integer and string
  fields it returns what the primitive normalizer returns wherever that is defined
  (parse, truncation for integers, stringification). On a boolean field it returns the
  truthiness of the value, which is the primitive normalizer's result on boolean inputs.
\<close>

theorem normalizeSimpleQueryValue_rules:
  "(normalizeSimpleQueryValue rt q v = JUndefined \<longleftrightarrow>
      numeric (schemaType q) \<and> js_Number rt v = NaN) \<and>
   (schemaType q = body_schemaType b \<and> schemaType q \<noteq> TBoolean \<and>
      normalizePrimitiveValue rt b v \<noteq> JUndefined \<longrightarrow>
      normalizeSimpleQueryValue rt q v = normalizePrimitiveValue rt b v) \<and>
   (schemaType q = TBoolean \<longrightarrow> normalizeSimpleQueryValue rt q v = JBool (js_Boolean v)) \<and>
   (schemaType q = TBoolean \<and> body_schemaType b = TBoolean \<longrightarrow>
      normalizeSimpleQueryValue rt q (JBool x) = normalizePrimitiveValue rt b (JBool x))"
  by (cases "schemaType q")
    (auto simp: normalizeSimpleQueryValue_def normalizePrimitiveValue_def numeric_def Let_def
      js_Boolean_def split: if_splits)

theorem normalizeSimpleQueryValue_rules_witness:
  "schemaType example_limit = body_schemaType body_count_field \<and>
   schemaType example_limit \<noteq> TBoolean \<and>
   normalizePrimitiveValue example_runtime body_count_field (JStr ''42'') \<noteq> JUndefined \<and>
   normalizeSimpleQueryValue example_runtime example_limit (JStr ''42'') = JNum (Fin 42) \<and>
   normalizePrimitiveValue example_runtime body_count_field (JStr ''42'') = JNum (Fin 42) \<and>
   schemaType flag_field = TBoolean \<and> body_schemaType body_flag_field = TBoolean \<and>
   normalizeSimpleQueryValue example_runtime flag_field (JBool False) = JBool False \<and>
   normalizePrimitiveValue example_runtime body_flag_field (JBool False) = JBool False"
proof -
  have a: "normalizePrimitiveValue example_runtime body_count_field (JStr ''42'') = JNum (Fin 42)"
    by code_simp
  have b: "schemaType example_limit = body_schemaType body_count_field"
    "schemaType example_limit \<noteq> TBoolean"
    "schemaType flag_field = TBoolean" "body_schemaType body_flag_field = TBoolean"
    by (simp_all add: example_limit_def body_count_field_def flag_field_def body_flag_field_def)
  have c: "normalizePrimitiveValue example_runtime body_flag_field (JBool False) = JBool False"
    by code_simp
  from a b c
    normalizeSimpleQueryValue_rules [of example_runtime example_limit "JStr ''42''" body_count_field]
    normalizeSimpleQueryValue_rules [of example_runtime flag_field "JBool False" body_flag_field False]
  show ?thesis by (simp add: js_Boolean_def)
qed

section \<open>Uniqueness of the generated identifiers\<close>

definition id_field :: IPathUiField where
  "id_field = \<lparr>name = ''id'', apiPath = ''id'', required = True\<rparr>"

definition empty_query :: IQueryUi where
  "empty_query = \<lparr>simple = [], include_options = None, sort_options = None, filters = []\<rparr>"

definition get_user_dash :: IOperationMeta where
  "get_user_dash =
     \<lparr>operationValue = ''get-user'', operationId = ''get-user'', http_method = ''GET'',
      path = ''/users/{id}'', pathUi = [id_field], queryUi = empty_query, bodyUi = None\<rparr>"

definition get_user_underscore :: IOperationMeta where
  "get_user_underscore =
     get_user_dash\<lparr>operationValue := ''get_user'', operationId := ''get_user''\<rparr>"

definition getUser :: IOperationMeta where
  "getUser = get_user_dash\<lparr>operationValue := ''getUser'', operationId := ''getUser''\<rparr>"

definition listOrders :: IOperationMeta where
  "listOrders =
     get_user_dash\<lparr>operationValue := ''listOrders'', operationId := ''listOrders'',
       path := ''/order''\<rparr>"

text \<open>The token of a field: its sanitized API path, or key when the path is empty.\<close>

definition path_key :: "'a IPathUiField_scheme \<Rightarrow> string" where
  "path_key f = sanitizeParamToken (or_else (apiPath f) (name f))"

definition body_key :: "IBodyField \<Rightarrow> string" where
  "body_key f = sanitizeParamToken (or_else (body_apiPath (common f)) (apiKey (common f)))"

lemma sanitizeParamToken_examples:
  "sanitizeParamToken ''!!!'' = ''value''"
  "sanitizeParamToken ''data.Name[]'' = ''data__name''"
  "pathParamName get_user_dash id_field = ''path__get__user__id''"
  by code_simp+

lemma split_at_underscore:
  assumes "a @ ''__'' @ r = b @ ''__'' @ s" "CHR ''_'' \<notin> set a" "CHR ''_'' \<notin> set b"
  shows "a = b \<and> r = s"
proof -
  have "takeWhile (\<lambda>c. c \<noteq> CHR ''_'') (a @ ''__'' @ r) = a"
    using assms(2) by (auto simp: takeWhile_tail)
  moreover have "takeWhile (\<lambda>c. c \<noteq> CHR ''_'') (b @ ''__'' @ s) = b"
    using assms(3) by (auto simp: takeWhile_tail)
  ultimately have "a = b" using assms(1) by simp
  with assms(1) show ?thesis by simp
qed

lemma split_iff:
  "CHR ''_'' \<notin> set a \<Longrightarrow> CHR ''_'' \<notin> set b \<Longrightarrow>
   (pre @ a @ ''__'' @ r = pre @ b @ ''__'' @ s) = (a = b \<and> r = s)"
  using split_at_underscore [of a r b s] by auto

lemma kinds_differ:
  "pathParamName o1 p \<noteq> querySimpleParamName o2 q"
  "pathParamName o1 p \<noteq> bodyFieldParamName o2 b"
  "querySimpleParamName o1 q \<noteq> bodyFieldParamName o2 b"
  by (simp_all add: pathParamName_def querySimpleParamName_def bodyFieldParamName_def)

lemma same_operation:
  "(pathParamName o1 p = pathParamName o1 p') = (path_key p = path_key p')"
  "(querySimpleParamName o1 q = querySimpleParamName o1 q') = (path_key q = path_key q')"
  "(bodyFieldParamName o1 b = bodyFieldParamName o1 b') = (body_key b = body_key b')"
  by (simp_all add: pathParamName_def querySimpleParamName_def bodyFieldParamName_def
      path_key_def body_key_def)

lemma two_operations:
  assumes "CHR ''_'' \<notin> set (operationToken o1)" "CHR ''_'' \<notin> set (operationToken o2)"
  shows "(pathParamName o1 p = pathParamName o2 p') =
           (operationToken o1 = operationToken o2 \<and> path_key p = path_key p')"
    "(querySimpleParamName o1 q = querySimpleParamName o2 q') =
           (operationToken o1 = operationToken o2 \<and> path_key q = path_key q')"
    "(bodyFieldParamName o1 b = bodyFieldParamName o2 b') =
           (operationToken o1 = operationToken o2 \<and> body_key b = body_key b')"
  unfolding pathParamName_def querySimpleParamName_def bodyFieldParamName_def
    path_key_def body_key_def
  using split_iff [OF assms] by blast+

text \<open>An operation identifier made of letters and digits only (as \<open>getUser\<close>) has a
  token without underscores.\<close>

lemma replaceNonAlnumRuns_alnum: "list_all is_alnum s \<Longrightarrow> replaceNonAlnumRuns s = s"
  by (induction s) auto

lemma is_alnum_not_underscore: "is_alnum c \<Longrightarrow> c \<noteq> CHR ''_''"
  by (auto simp: is_alnum_def lower_letters_def upper_letters_def digit_chars_def)

lemma dropWhile_underscore_alnum:
  "list_all is_alnum s \<Longrightarrow> dropWhile (\<lambda>c. c = CHR ''_'') s = s"
  by (cases s) (auto dest: is_alnum_not_underscore)

lemma trimUnderscores_alnum: "list_all is_alnum s \<Longrightarrow> trimUnderscores s = s"
proof -
  assume a: "list_all is_alnum s"
  then have "list_all is_alnum (rev s)" by (simp add: list_all_iff)
  with a show ?thesis
    by (simp add: trimUnderscores_def dropWhile_underscore_alnum)
qed

lemma toLowerChar_underscore: "toLowerChar c = CHR ''_'' \<Longrightarrow> c = CHR ''_''"
  by (simp add: toLowerChar_def upper_letters_def lower_letters_def split: if_splits)

lemma operationToken_alnum:
  assumes "list_all is_alnum (operationId operation)"
  shows "CHR ''_'' \<notin> set (operationToken operation)"
proof -
  have "CHR ''_'' \<notin> set (toLowerCase (operationId operation))"
  proof
    assume "CHR ''_'' \<in> set (toLowerCase (operationId operation))"
    then obtain c where c: "c \<in> set (operationId operation)" "toLowerChar c = CHR ''_''"
      by (auto simp: toLowerCase_def)
    then have "c = CHR ''_''" by (simp add: toLowerChar_underscore)
    moreover have "is_alnum c" using assms c(1) by (simp add: list_all_iff)
    ultimately show False using is_alnum_not_underscore by blast
  qed
  then show ?thesis
    using assms
    by (simp add: operationToken_def sanitizeParamToken_def replaceNonAlnumRuns_alnum
        trimUnderscores_alnum Let_def)
qed

text \<open>
  C2, as stated, fails: sanitizing is not injective. The distinct operations \<open>get-user\<close>
  and \<open>get_user\<close> have the same token, so their path fields \<open>id\<close> receive the same
  identifier; and within one operation the distinct API paths \<open>a.b\<close> and \<open>a_b\<close> receive
  the same identifier.
\<close>

theorem field_id_counterexample:
  "operationId get_user_dash \<noteq> operationId get_user_underscore \<and>
   operationValue get_user_dash \<noteq> operationValue get_user_underscore \<and>
   pathParamName get_user_dash id_field = pathParamName get_user_underscore id_field \<and>
   apiPath (id_field\<lparr>apiPath := ''a.b''\<rparr>) \<noteq> apiPath (id_field\<lparr>apiPath := ''a_b''\<rparr>) \<and>
   pathParamName getUser (id_field\<lparr>apiPath := ''a.b''\<rparr>)
     = pathParamName getUser (id_field\<lparr>apiPath := ''a_b''\<rparr>)"
  by code_simp

text \<open>
  C2 (amended): identifiers of different kinds (path, query, body) never coincide.
  Within one operation two fields of one kind receive the same identifier exactly when
  their API paths (or keys) sanitize to the same token. For two operations whose tokens
  contain no underscore, two fields of one kind receive the same identifier exactly
  when the operation tokens are equal and the field tokens are equal.
\<close>

theorem field_id_distinct:
  "pathParamName o1 p \<noteq> querySimpleParamName o2 q \<and>
   pathParamName o1 p \<noteq> bodyFieldParamName o2 b \<and>
   querySimpleParamName o1 q \<noteq> bodyFieldParamName o2 b \<and>
   (pathParamName o1 p = pathParamName o1 p' \<longleftrightarrow> path_key p = path_key p') \<and>
   (querySimpleParamName o1 q = querySimpleParamName o1 q' \<longleftrightarrow> path_key q = path_key q') \<and>
   (bodyFieldParamName o1 b = bodyFieldParamName o1 b' \<longleftrightarrow> body_key b = body_key b') \<and>
   (CHR ''_'' \<notin> set (operationToken o1) \<and> CHR ''_'' \<notin> set (operationToken o2) \<longrightarrow>
      (pathParamName o1 p = pathParamName o2 p' \<longleftrightarrow>
         operationToken o1 = operationToken o2 \<and> path_key p = path_key p') \<and>
      (querySimpleParamName o1 q = querySimpleParamName o2 q' \<longleftrightarrow>
         operationToken o1 = operationToken o2 \<and> path_key q = path_key q') \<and>
      (bodyFieldParamName o1 b = bodyFieldParamName o2 b' \<longleftrightarrow>
         operationToken o1 = operationToken o2 \<and> body_key b = body_key b'))"
  by (simp add: kinds_differ same_operation two_operations)

theorem field_id_distinct_witness:
  "CHR ''_'' \<notin> set (operationToken getUser) \<and> CHR ''_'' \<notin> set (operationToken listOrders) \<and>
   operationToken getUser \<noteq> operationToken listOrders \<and>
   pathParamName getUser id_field \<noteq> pathParamName listOrders id_field"
proof -
  have a: "operationToken getUser = ''getuser''" by code_simp
  have b: "operationToken listOrders = ''listorders''" by code_simp
  show ?thesis
    using field_id_distinct [where ?o1.0 = getUser and ?o2.0 = listOrders and p = id_field
        and p' = id_field]
    by (simp add: a b)
qed

section \<open>Errors, the host and the request\<close>

text \<open>
  What the code throws: its own \<open>NodeOperationError\<close> and \<open>ApplicationError\<close>, the
  \<open>TypeError\<close> of the runtime (a property read on null or undefined, \<open>in\<close> on a
  primitive, a call of something that is not a function), and whatever the host throws
  (a parameter it has no value for, a missing binary attachment, a failed request).
\<close>

datatype error =
    NodeOperationError string
  | ApplicationError string
  | TypeError string
  | HostError string

fun message :: "error \<Rightarrow> string" where
  "message (NodeOperationError m) = m"
| "message (ApplicationError m) = m"
| "message (TypeError m) = m"
| "message (HostError m) = m"

record IBinaryData =
  data :: string
  mimeType :: string
  fileName :: "string option"

record form_part =
  part_name :: string
  blob_data :: string
  blob_type :: string
  part_fileName :: string

datatype request_body = JsonBody "(string \<times> jsval) list" | FormDataBody "form_part list"

record IHttpRequestOptions =
  url :: string
  request_method :: string
  qs :: "(string \<times> jsval) list"
  body :: "request_body option"
  headers :: "(string \<times> string) list option"

text \<open>
  The host: the value it holds for a node parameter of an item (if any), the binary
  attachments of an item, the authenticated HTTP transport, and the continue-on-fail
  setting. The response may depend on the item and on the request; the requests of one
  item all differ (in their page number), so every sequence of responses is such a
  function.
\<close>

record host =
  nodeParameter :: "string \<Rightarrow> nat \<Rightarrow> jsval option"
  assertBinaryData :: "nat \<Rightarrow> string \<Rightarrow> error + IBinaryData"
  httpRequestWithAuthentication :: "nat \<Rightarrow> IHttpRequestOptions \<Rightarrow> error + jsval"
  continueOnFail :: bool

text \<open>\<open>getNodeParameter(name, itemIndex)\<close> throws when the host has no value;
  \<open>getNodeParameter(name, itemIndex, fallback)\<close> returns the fallback then.\<close>

definition getNodeParameter :: "host \<Rightarrow> string \<Rightarrow> nat \<Rightarrow> error + jsval" where
  "getNodeParameter h parameterName itemIndex =
     (case nodeParameter h parameterName itemIndex of
        Some v \<Rightarrow> Inr v
      | None \<Rightarrow> Inl (HostError (''Could not get parameter '' @ parameterName)))"

definition getNodeParameterOr :: "host \<Rightarrow> string \<Rightarrow> nat \<Rightarrow> jsval \<Rightarrow> jsval" where
  "getNodeParameterOr h parameterName itemIndex fallback =
     (case nodeParameter h parameterName itemIndex of Some v \<Rightarrow> v | None \<Rightarrow> fallback)"

text \<open>A name between double quotes, as the messages show it.\<close>

definition quoted :: "string \<Rightarrow> string" where
  "quoted s = [CHR 0x22] @ s @ [CHR 0x22]"

section \<open>Path substitution\<close>

definition uri_unreserved :: "char \<Rightarrow> bool" where
  "uri_unreserved c =
     (is_alnum c \<or> c \<in> set (''-_.!~*()'' @ [CHR 0x27]))"

definition hex_digits :: string where
  "hex_digits = ''0123456789ABCDEF''"

text \<open>\<open>encodeURIComponent\<close> on the bytes of the string: every byte that is not
  unreserved becomes \<open>%XX\<close>.\<close>

definition percent :: "char \<Rightarrow> string" where
  "percent c =
     [CHR ''%'', hex_digits ! (of_char c div 16), hex_digits ! (of_char c mod 16)]"

definition encodeURIComponent :: "string \<Rightarrow> string" where
  "encodeURIComponent s = concat (map (\<lambda>c. if uri_unreserved c then [c] else percent c) s)"

text \<open>\<open>s.replace(pat, rep)\<close> with a string pattern replaces its first occurrence. The
  replacement is taken literally: the code passes the result of \<open>encodeURIComponent\<close>,
  which has no dollar sign.\<close>

fun replace_first :: "string \<Rightarrow> string \<Rightarrow> string \<Rightarrow> string" where
  "replace_first [] pat rep = (if pat = [] then rep else [])"
| "replace_first (c # cs) pat rep =
     (if take (length pat) (c # cs) = pat then rep @ drop (length pat) (c # cs)
      else c # replace_first cs pat rep)"

definition placeholder :: "'a IPathUiField_scheme \<Rightarrow> string" where
  "placeholder pathField = ''{'' @ name pathField @ ''}''"

text \<open>The body of the loop over \<open>operationMeta.pathUi\<close>, for one path field.\<close>

definition substitutePathField ::
  "runtime \<Rightarrow> host \<Rightarrow> nat \<Rightarrow> IOperationMeta \<Rightarrow> string \<Rightarrow> IPathUiField \<Rightarrow> error + string" where
  "substitutePathField rt h itemIndex operationMeta endpointPath pathField =
     (case getNodeParameter h (pathParamName operationMeta pathField) itemIndex of
        Inl e \<Rightarrow> Inl e
      | Inr v \<Rightarrow>
          if isEmptyValue v then
            (if required pathField
             then Inl (NodeOperationError (''Missing path parameter '' @ quoted (name pathField)))
             else Inr endpointPath)
          else Inr (replace_first endpointPath (placeholder pathField)
                      (encodeURIComponent (js_String rt v))))"

fun substitutePath ::
  "runtime \<Rightarrow> host \<Rightarrow> nat \<Rightarrow> IOperationMeta \<Rightarrow> IPathUiField list \<Rightarrow> string \<Rightarrow> error + string" where
  "substitutePath rt h itemIndex operationMeta [] endpointPath = Inr endpointPath"
| "substitutePath rt h itemIndex operationMeta (pathField # rest) endpointPath =
     (case substitutePathField rt h itemIndex operationMeta endpointPath pathField of
        Inl e \<Rightarrow> Inl e
      | Inr endpointPath' \<Rightarrow> substitutePath rt h itemIndex operationMeta rest endpointPath')"

definition KEYCRM_BASE_URL :: string where
  "KEYCRM_BASE_URL = ''https://openapi.keycrm.app/v1''"

definition buildKeycrmUrl :: "string \<Rightarrow> string" where
  "buildKeycrmUrl p = KEYCRM_BASE_URL @ (if startsWith p ''/'' then p else ''/'' @ p)"

text \<open>The pattern occurs in \<open>s\<close> at position \<open>k\<close>.\<close>

definition occurs_at :: "string \<Rightarrow> string \<Rightarrow> nat \<Rightarrow> bool" where
  "occurs_at pat s k = (take (length pat) (drop k s) = pat)"

definition first_occurrence :: "string \<Rightarrow> string \<Rightarrow> string \<Rightarrow> bool" where
  "first_occurrence pat pre post = (\<forall>k < length pre. \<not> occurs_at pat (pre @ pat @ post) k)"

lemma replace_first_prefix: "replace_first (pat @ post) pat rep = rep @ post"
proof (cases "pat @ post")
  case Nil
  then show ?thesis by simp
next
  case (Cons c cs)
  then show ?thesis
    by (metis append_eq_conv_conj replace_first.simps(2))
qed

lemma replace_first_at_first_occurrence:
  "first_occurrence pat pre post \<Longrightarrow> replace_first (pre @ pat @ post) pat rep = pre @ rep @ post"
proof (induction pre)
  case Nil
  then show ?case by (simp add: replace_first_prefix)
next
  case (Cons c pre)
  have "\<not> occurs_at pat ((c # pre) @ pat @ post) 0"
    using Cons.prems by (simp add: first_occurrence_def)
  then have head: "take (length pat) (c # pre @ pat @ post) \<noteq> pat"
    by (simp add: occurs_at_def)
  have "first_occurrence pat pre post"
    unfolding first_occurrence_def
  proof (intro allI impI)
    fix k assume "k < length pre"
    then have "\<not> occurs_at pat ((c # pre) @ pat @ post) (Suc k)"
      using Cons.prems by (simp add: first_occurrence_def)
    then show "\<not> occurs_at pat (pre @ pat @ post) k"
      by (simp add: occurs_at_def)
  qed
  with Cons.IH head show ?case by simp
qed

lemma replace_first_absent:
  "(\<forall>k \<le> length s. \<not> occurs_at pat s k) \<Longrightarrow> replace_first s pat rep = s"
proof (induction s)
  case Nil
  then show ?case by (auto simp: occurs_at_def)
next
  case (Cons c s)
  have "\<not> occurs_at pat (c # s) 0" using Cons.prems by blast
  then have head: "take (length pat) (c # s) \<noteq> pat" by (simp add: occurs_at_def)
  have "\<forall>k \<le> length s. \<not> occurs_at pat s k"
  proof (intro allI impI)
    fix k assume "k \<le> length s"
    then have "\<not> occurs_at pat (c # s) (Suc k)" using Cons.prems by simp
    then show "\<not> occurs_at pat s k" by (simp add: occurs_at_def)
  qed
  with Cons.IH head show ?case by simp
qed

lemma encodeURIComponent_no_dollar: "CHR ''$'' \<notin> set (encodeURIComponent s)"
proof -
  have "\<not> uri_unreserved (CHR ''$'')"
    by (simp add: uri_unreserved_def is_alnum_def lower_letters_def upper_letters_def
        digit_chars_def)
  moreover have "CHR ''$'' \<notin> set (percent c)" for c
  proof -
    have "CHR ''$'' \<notin> set hex_digits" by (simp add: hex_digits_def)
    moreover have "(of_char c :: nat) div 16 < length hex_digits"
      "(of_char c :: nat) mod 16 < length hex_digits"
      using nat_of_char_less_256 [of c] by (simp_all add: hex_digits_def less_mult_imp_div_less)
    ultimately show ?thesis
      using nth_mem by (fastforce simp: percent_def)
  qed
  ultimately show ?thesis
    by (auto simp: encodeURIComponent_def)
qed

definition optional_field :: IPathUiField where
  "optional_field = \<lparr>name = ''opt'', apiPath = ''opt'', required = False\<rparr>"

definition getOrderItem :: IOperationMeta where
  "getOrderItem =
     \<lparr>operationValue = ''getOrderItem'', operationId = ''getOrderItem'', http_method = ''GET'',
      path = ''/order/{id}/items/{id}/{opt}'', pathUi = [id_field, optional_field],
      queryUi = empty_query, bodyUi = None\<rparr>"

definition path_host :: host where
  "path_host =
     \<lparr>nodeParameter = (\<lambda>n i. map_of
        [(''path__getorderitem__id'', JStr ''a b''), (''path__getorderitem__opt'', JStr '' '')] n),
      assertBinaryData = (\<lambda>i n. Inl (HostError ''no binary data'')),
      httpRequestWithAuthentication = (\<lambda>i r. Inr (JArr [])),
      continueOnFail = False\<rparr>"

text \<open>\<open>s.includes(pat)\<close>.\<close>

fun js_includes :: "string \<Rightarrow> string \<Rightarrow> bool" where
  "js_includes [] pat = (pat = [])"
| "js_includes (c # cs) pat = (take (length pat) (c # cs) = pat \<or> js_includes cs pat)"

definition brace_free :: "string \<Rightarrow> bool" where
  "brace_free s = (CHR ''{'' \<notin> set s \<and> CHR ''}'' \<notin> set s)"

lemma js_includes_iff: "js_includes s pat \<longleftrightarrow> (\<exists>k \<le> length s. occurs_at pat s k)"
proof (induction s)
  case Nil
  show ?case by (auto simp: occurs_at_def)
next
  case (Cons c s)
  show ?case
  proof
    assume "js_includes (c # s) pat"
    then consider "take (length pat) (c # s) = pat" | "js_includes s pat"
      by auto
    then show "\<exists>k \<le> length (c # s). occurs_at pat (c # s) k"
    proof cases
      case 1
      then have "occurs_at pat (c # s) 0" by (simp add: occurs_at_def)
      then show ?thesis by blast
    next
      case 2
      with Cons.IH obtain k where "k \<le> length s" "occurs_at pat s k" by blast
      then have "Suc k \<le> length (c # s)" "occurs_at pat (c # s) (Suc k)"
        by (simp_all add: occurs_at_def)
      then show ?thesis by blast
    qed
  next
    assume "\<exists>k \<le> length (c # s). occurs_at pat (c # s) k"
    then obtain k where k: "k \<le> length (c # s)" "occurs_at pat (c # s) k" by blast
    show "js_includes (c # s) pat"
    proof (cases k)
      case 0
      with k(2) show ?thesis by (simp add: occurs_at_def)
    next
      case (Suc j)
      with k have "j \<le> length s" "occurs_at pat s j" by (simp_all add: occurs_at_def)
      with Cons.IH show ?thesis by auto
    qed
  qed
qed

lemma occurs_at_length: "occurs_at pat s k \<Longrightarrow> pat \<noteq> [] \<Longrightarrow> k + length pat \<le> length s"
proof -
  assume a: "occurs_at pat s k" and n: "pat \<noteq> []"
  then have "length (take (length pat) (drop k s)) = length pat"
    by (simp add: occurs_at_def)
  then have "min (length pat) (length s - k) = length pat"
    by simp
  with n show ?thesis
    by (cases "length pat") (auto simp: min_def split: if_splits)
qed

lemma occurs_at_nth:
  assumes "occurs_at pat s k" and "i < length pat"
  shows "s ! (k + i) = pat ! i"
proof -
  from assms(2) have n: "pat \<noteq> []" by auto
  have le: "k + length pat \<le> length s"
    using assms(1) n by (rule occurs_at_length)
  have "pat ! i = take (length pat) (drop k s) ! i"
    using assms(1) by (simp add: occurs_at_def)
  also have "\<dots> = drop k s ! i"
    using assms(2) by simp
  also have "\<dots> = s ! (k + i)"
    using le by simp
  finally show ?thesis by simp
qed

lemma occurs_at_split:
  assumes "occurs_at pat s k" and "k \<le> length s"
  shows "s = take k s @ pat @ drop (k + length pat) s"
proof -
  have "drop k s = take (length pat) (drop k s) @ drop (length pat) (drop k s)"
    by (simp only: append_take_drop_id)
  also have "\<dots> = pat @ drop (k + length pat) s"
    using assms(1) by (simp add: occurs_at_def add.commute)
  finally have "drop k s = pat @ drop (k + length pat) s" .
  then have "take k s @ drop k s = take k s @ pat @ drop (k + length pat) s"
    by simp
  then show ?thesis by simp
qed

lemma occurs_at_append_left:
  "occurs_at pat s k \<Longrightarrow> k + length pat \<le> length s \<Longrightarrow> occurs_at pat (s @ t) k"
  by (simp add: occurs_at_def)

lemma occurs_at_append_right: "occurs_at pat t k \<Longrightarrow> occurs_at pat (s @ t) (length s + k)"
  by (simp add: occurs_at_def)

lemma js_includes_append: "js_includes t pat \<Longrightarrow> js_includes (s @ t) pat"
proof -
  assume "js_includes t pat"
  then obtain k where "k \<le> length t" "occurs_at pat t k"
    by (auto simp: js_includes_iff)
  then have "length s + k \<le> length (s @ t)" "occurs_at pat (s @ t) (length s + k)"
    by (simp_all add: occurs_at_append_right)
  then show ?thesis
    unfolding js_includes_iff by blast
qed

lemma first_occurrence_exists:
  assumes "occurs_at pat s k" and "k \<le> length s"
  shows "\<exists>pre post. s = pre @ pat @ post \<and> first_occurrence pat pre post"
proof -
  define m where "m = (LEAST j. occurs_at pat s j)"
  have m: "occurs_at pat s m"
    unfolding m_def using assms(1) by (rule LeastI)
  have "m \<le> k"
    unfolding m_def using assms(1) by (rule Least_le)
  with assms(2) have le: "m \<le> length s" by simp
  have least: "\<not> occurs_at pat s j" if "j < m" for j
    using that not_less_Least unfolding m_def by blast
  have s: "s = take m s @ pat @ drop (m + length pat) s"
    using m le by (rule occurs_at_split)
  have "first_occurrence pat (take m s) (drop (m + length pat) s)"
    unfolding first_occurrence_def
  proof (intro allI impI)
    fix j assume "j < length (take m s)"
    then have "j < m" by simp
    then have "\<not> occurs_at pat s j" by (rule least)
    with s show "\<not> occurs_at pat (take m s @ pat @ drop (m + length pat) s) j"
      by simp
  qed
  with s show ?thesis by blast
qed

lemma placeholder_nth:
  "placeholder f ! 0 = CHR ''{''"
  "placeholder f ! (length (placeholder f) - 1) = CHR ''}''"
  "length (placeholder f) = length (name f) + 2"
  by (simp_all add: placeholder_def nth_append)

lemma placeholder_inner:
  assumes "brace_free (name f)"
  shows "0 < i \<Longrightarrow> i < length (placeholder f) \<Longrightarrow> placeholder f ! i \<noteq> CHR ''{''"
    and "i < length (placeholder f) - 1 \<Longrightarrow> placeholder f ! i \<noteq> CHR ''}''"
proof -
  show "placeholder f ! i \<noteq> CHR ''{''" if "0 < i" "i < length (placeholder f)"
  proof (cases "i - 1 < length (name f)")
    case True
    then have "placeholder f ! i = name f ! (i - 1)"
      using that by (cases i) (simp_all add: placeholder_def nth_append)
    moreover have "name f ! (i - 1) \<in> set (name f)"
      using True by simp
    ultimately show ?thesis
      using assms by (auto simp: brace_free_def)
  next
    case False
    then have "i = length (name f) + 1"
      using that by (simp add: placeholder_def)
    then show ?thesis
      by (simp add: placeholder_def nth_append)
  qed
  show "placeholder f ! i \<noteq> CHR ''}''" if "i < length (placeholder f) - 1"
  proof (cases i)
    case 0
    then show ?thesis by (simp add: placeholder_def)
  next
    case (Suc j)
    with that have j: "j < length (name f)"
      by (simp add: placeholder_def)
    then have "placeholder f ! i = name f ! j"
      using Suc by (simp add: placeholder_def nth_append)
    moreover have "name f ! j \<in> set (name f)"
      using j by simp
    ultimately show ?thesis
      using assms by (auto simp: brace_free_def)
  qed
qed

lemma placeholder_shorter:
  assumes le: "length (placeholder a) \<le> length (placeholder b)"
    and a: "occurs_at (placeholder a) s k" and b: "occurs_at (placeholder b) s k"
    and bf: "brace_free (name b)"
  shows "placeholder a = placeholder b"
proof -
  let ?i = "length (placeholder a) - 1"
  have i: "?i < length (placeholder a)"
    by (simp add: placeholder_nth(3))
  then have ib: "?i < length (placeholder b)"
    using le by simp
  have "placeholder b ! ?i = s ! (k + ?i)"
    using occurs_at_nth [OF b ib] by simp
  also have "\<dots> = placeholder a ! ?i"
    using occurs_at_nth [OF a i] by simp
  also have "\<dots> = CHR ''}''"
    by (rule placeholder_nth(2))
  finally have "placeholder b ! ?i = CHR ''}''" .
  then have "\<not> ?i < length (placeholder b) - 1"
    using placeholder_inner(2) [OF bf] by blast
  with le have len: "length (placeholder a) = length (placeholder b)"
    by (simp add: placeholder_nth(3))
  have "placeholder a = take (length (placeholder a)) (drop k s)"
    using a by (simp add: occurs_at_def)
  also have "\<dots> = placeholder b"
    using b len by (simp add: occurs_at_def)
  finally show ?thesis .
qed

lemma placeholder_same_start:
  assumes "occurs_at (placeholder f) s k" and "occurs_at (placeholder g) s k"
    and "brace_free (name f)" and "brace_free (name g)"
  shows "name f = name g"
proof -
  have "placeholder f = placeholder g"
  proof (cases "length (placeholder f) \<le> length (placeholder g)")
    case True
    then show ?thesis
      using assms(1,2,4) by (rule placeholder_shorter)
  next
    case False
    then have "length (placeholder g) \<le> length (placeholder f)" by simp
    then have "placeholder g = placeholder f"
      using assms(2,1,3) by (rule placeholder_shorter)
    then show ?thesis by simp
  qed
  then show ?thesis
    by (simp add: placeholder_def)
qed

lemma placeholder_no_overlap:
  assumes p: "occurs_at (placeholder f) s k" and q: "occurs_at (placeholder g) s j"
    and bf: "brace_free (name f)" and bg: "brace_free (name g)"
    and ne: "name f \<noteq> name g"
  shows "k + length (placeholder f) \<le> j \<or> j + length (placeholder g) \<le> k"
proof (rule ccontr)
  assume "\<not> (k + length (placeholder f) \<le> j \<or> j + length (placeholder g) \<le> k)"
  then have o: "j < k + length (placeholder f)" "k < j + length (placeholder g)"
    by simp_all
  consider "k = j" | "j < k" | "k < j"
    by linarith
  then show False
  proof cases
    case 1
    with p q bf bg ne show False
      using placeholder_same_start by blast
  next
    case 2
    let ?i = "k - j"
    have i: "0 < ?i" "?i < length (placeholder g)"
      using 2 o by simp_all
    have "placeholder g ! ?i = s ! (j + ?i)"
      using occurs_at_nth [OF q i(2)] by simp
    also have "\<dots> = s ! (k + 0)"
      using 2 by simp
    also have "\<dots> = placeholder f ! 0"
      by (rule occurs_at_nth [OF p]) (simp add: placeholder_nth(3))
    finally have "placeholder g ! ?i = CHR ''{''"
      by (simp add: placeholder_nth(1))
    with placeholder_inner(1) [OF bg i] show False by simp
  next
    case 3
    let ?i = "j - k"
    have i: "0 < ?i" "?i < length (placeholder f)"
      using 3 o by simp_all
    have "placeholder f ! ?i = s ! (k + ?i)"
      using occurs_at_nth [OF p i(2)] by simp
    also have "\<dots> = s ! (j + 0)"
      using 3 by simp
    also have "\<dots> = placeholder g ! 0"
      by (rule occurs_at_nth [OF q]) (simp add: placeholder_nth(3))
    finally have "placeholder f ! ?i = CHR ''{''"
      by (simp add: placeholder_nth(1))
    with placeholder_inner(1) [OF bf i] show False by simp
  qed
qed

lemma replace_first_keeps_placeholder:
  assumes inc: "js_includes s (placeholder f)"
    and bf: "brace_free (name f)" and bg: "brace_free (name g)"
    and ne: "name f \<noteq> name g"
  shows "js_includes (replace_first s (placeholder g) rep) (placeholder f)"
proof (cases "\<exists>j \<le> length s. occurs_at (placeholder g) s j")
  case False
  then have "replace_first s (placeholder g) rep = s"
    by (intro replace_first_absent) simp
  with inc show ?thesis by simp
next
  case True
  then obtain j where "occurs_at (placeholder g) s j" "j \<le> length s"
    by blast
  then obtain pre post where s: "s = pre @ placeholder g @ post"
    and first: "first_occurrence (placeholder g) pre post"
    using first_occurrence_exists by blast
  have r: "replace_first s (placeholder g) rep = pre @ rep @ post"
    unfolding s using first by (rule replace_first_at_first_occurrence)
  have q: "occurs_at (placeholder g) s (length pre)"
    unfolding s by (simp add: occurs_at_def)
  from inc obtain k where k: "occurs_at (placeholder f) s k"
    by (auto simp: js_includes_iff)
  have nf: "placeholder f \<noteq> []"
    by (simp add: placeholder_def)
  from placeholder_no_overlap [OF k q bf bg ne]
  consider "k + length (placeholder f) \<le> length pre"
    | "length pre + length (placeholder g) \<le> k"
    by blast
  then have "\<exists>k'. occurs_at (placeholder f) (pre @ rep @ post) k'"
  proof cases
    case 1
    have "take (length (placeholder f)) (drop k s) = take (length (placeholder f)) (drop k pre)"
      unfolding s using 1 by simp
    then have "occurs_at (placeholder f) pre k"
      using k by (simp add: occurs_at_def)
    then have "occurs_at (placeholder f) (pre @ rep @ post) k"
      using 1 by (rule occurs_at_append_left)
    then show ?thesis ..
  next
    case 2
    define d where "d = k - (length pre + length (placeholder g))"
    have kd: "k = length pre + length (placeholder g) + d"
      using 2 by (simp add: d_def)
    have "drop k s = drop d post"
      unfolding s kd by simp
    then have "occurs_at (placeholder f) post d"
      using k by (simp add: occurs_at_def)
    then have "occurs_at (placeholder f) ((pre @ rep) @ post) (length (pre @ rep) + d)"
      by (rule occurs_at_append_right)
    then show ?thesis by auto
  qed
  then obtain k' where k': "occurs_at (placeholder f) (pre @ rep @ post) k'"
    by blast
  then have "k' + length (placeholder f) \<le> length (pre @ rep @ post)"
    using nf by (rule occurs_at_length)
  then have "k' \<le> length (pre @ rep @ post)"
    by simp
  with k' show ?thesis
    unfolding r js_includes_iff by blast
qed

lemma substitutePath_example:
  "substitutePath example_runtime path_host 0 getOrderItem (pathUi getOrderItem)
     (path getOrderItem) = Inr ''/order/a%20b/items/{id}/{opt}''"
  by code_simp

section \<open>Dates\<close>

definition digit_value :: "char \<Rightarrow> nat" where
  "digit_value c = (case map_of (zip digit_chars [0..<10]) c of Some d \<Rightarrow> d | None \<Rightarrow> 0)"

definition decimal_value :: "string \<Rightarrow> nat" where
  "decimal_value s = foldl (\<lambda>n c. 10 * n + digit_value c) 0 s"

definition leap_year :: "nat \<Rightarrow> bool" where
  "leap_year y = (y mod 4 = 0 \<and> (y mod 100 \<noteq> 0 \<or> y mod 400 = 0))"

definition days_in_month :: "nat \<Rightarrow> nat \<Rightarrow> nat" where
  "days_in_month y m =
     (if m = 2 then (if leap_year y then 29 else 28)
      else if m \<in> set [4, 6, 9, 11] then 30 else 31)"

text \<open>
  A string in the date-only form \<open>YYYY-MM-DD\<close> of the ECMAScript date-time format that
  names a day of the calendar denotes the midnight at which it starts in UTC.
\<close>

definition parseCalendarDate :: "string \<Rightarrow> jsdate option" where
  "parseCalendarDate s =
     (if length s = 10 \<and> s ! 4 = CHR ''-'' \<and> s ! 7 = CHR ''-''
         \<and> list_all (\<lambda>c. c \<in> set digit_chars) (take 4 s @ take 2 (drop 5 s) @ drop 8 s)
      then
        (let y = decimal_value (take 4 s); m = decimal_value (take 2 (drop 5 s));
             d = decimal_value (drop 8 s)
         in if 1 \<le> m \<and> m \<le> 12 \<and> 1 \<le> d \<and> d \<le> days_in_month y m
            then Some (ValidDate (int y) (m - 1) d 0 0 0) else None)
      else None)"

text \<open>\<open>new Date(value)\<close> for a string.\<close>

definition new_Date :: "runtime \<Rightarrow> string \<Rightarrow> jsdate" where
  "new_Date rt v = (case parseCalendarDate v of Some d \<Rightarrow> d | None \<Rightarrow> DateParseLegacy rt v)"

definition padDatePart :: "nat \<Rightarrow> string" where
  "padDatePart v = (let s = show_nat v in replicate (2 - length s) (CHR ''0'') @ s)"

definition toKeycrmUtcDateTime :: "runtime \<Rightarrow> string \<Rightarrow> error + string" where
  "toKeycrmUtcDateTime rt v =
     (case new_Date rt v of
        InvalidDate \<Rightarrow> Inl (ApplicationError (''Invalid date value: '' @ v))
      | ValidDate year month day hours minutes seconds \<Rightarrow>
          Inr (show_int year @ ''-'' @ padDatePart (month + 1) @ ''-'' @ padDatePart day
               @ '' '' @ padDatePart hours @ '':'' @ padDatePart minutes
               @ '':'' @ padDatePart seconds))"

section \<open>Query assembler\<close>

text \<open>
  A loop over a list whose body may throw. \<open>source[key]\<close> throws on null and undefined,
  \<open>key in source\<close> on every primitive; the keys read this way are generated
  identifiers, which no string, number, boolean or array has as a property.
\<close>

fun forEach :: "('s \<Rightarrow> 'a \<Rightarrow> error + 's) \<Rightarrow> 'a list \<Rightarrow> 's \<Rightarrow> error + 's" where
  "forEach step [] s = Inr s"
| "forEach step (x # xs) s =
     (case step s x of Inl e \<Rightarrow> Inl e | Inr s' \<Rightarrow> forEach step xs s')"

definition js_get :: "jsval \<Rightarrow> string \<Rightarrow> error + jsval" where
  "js_get source k =
     (case source of
        JObj kvs \<Rightarrow> Inr (get_prop kvs k)
      | JUndefined \<Rightarrow> Inl (TypeError ''Cannot read properties of undefined'')
      | JNull \<Rightarrow> Inl (TypeError ''Cannot read properties of null'')
      | _ \<Rightarrow> Inr JUndefined)"

definition js_in :: "string \<Rightarrow> jsval \<Rightarrow> error + bool" where
  "js_in k source =
     (case source of
        JObj kvs \<Rightarrow> Inr (has_key kvs k)
      | JArr xs \<Rightarrow> Inr False
      | _ \<Rightarrow> Inl (TypeError ''Cannot use the in operator on a primitive''))"

definition simpleQueryStep ::
  "runtime \<Rightarrow> host \<Rightarrow> nat \<Rightarrow> IOperationMeta \<Rightarrow> (string \<times> jsval) list \<Rightarrow> IQuerySimpleField
   \<Rightarrow> error + (string \<times> jsval) list" where
  "simpleQueryStep rt h itemIndex operationMeta query simpleField =
     (case getNodeParameter h (querySimpleParamName operationMeta simpleField) itemIndex of
        Inl e \<Rightarrow> Inl e
      | Inr v \<Rightarrow>
          if \<not> shouldIncludeSimpleQueryValue rt simpleField v then Inr query
          else let normalized = normalizeSimpleQueryValue rt simpleField v in
            if normalized \<noteq> JUndefined then Inr (set_prop query (name simpleField) normalized)
            else Inr query)"

definition invalidValue :: "string \<Rightarrow> error" where
  "invalidValue n =
     NodeOperationError (''Invalid '' @ quoted n @ '' value. Expected a number greater than 0.'')"

definition applyLimit ::
  "runtime \<Rightarrow> host \<Rightarrow> nat \<Rightarrow> IOperationMeta \<Rightarrow> IQuerySimpleField \<Rightarrow> jsnum
   \<Rightarrow> (string \<times> jsval) list \<Rightarrow> error + (string \<times> jsval) list" where
  "applyLimit rt h itemIndex operationMeta limitField defaultLimit query =
     (let limitValue = getNodeParameterOr h (querySimpleParamName operationMeta limitField)
                         itemIndex (JNum defaultLimit)
      in if shouldIncludeSimpleQueryValue rt limitField limitValue then
           (let normalizedLimit = normalizeSimpleQueryValue rt limitField limitValue in
              if normalizedLimit \<noteq> JUndefined then
                (let parsedLimit = Math_trunc (js_Number rt normalizedLimit) in
                   if parsedLimit = NaN \<or> num_lt parsedLimit (Fin 1)
                   then Inl (invalidValue (name limitField))
                   else Inr (set_prop query (name limitField) (JNum parsedLimit)))
              else Inr query)
         else Inr query)"

definition applyPage ::
  "runtime \<Rightarrow> host \<Rightarrow> nat \<Rightarrow> IOperationMeta \<Rightarrow> IQuerySimpleField
   \<Rightarrow> (string \<times> jsval) list \<Rightarrow> error + (string \<times> jsval) list" where
  "applyPage rt h itemIndex operationMeta pageField query =
     (let optionsSource = getNodeParameterOr h (queryOptionsCollectionParamName operationMeta)
                            itemIndex (JObj [])
      in case js_get optionsSource (queryPageOptionParamName operationMeta) of
           Inl e \<Rightarrow> Inl e
         | Inr pageValue \<Rightarrow>
             if \<not> isEmptyValue pageValue then
               (let parsedPage = Math_trunc (js_Number rt pageValue) in
                  if parsedPage = NaN \<or> num_lt parsedPage (Fin 1)
                  then Inl (invalidValue (name pageField))
                  else Inr (set_prop query (name pageField) (JNum parsedPage)))
             else Inr query)"

definition findField :: "string \<Rightarrow> IQuerySimpleField list \<Rightarrow> IQuerySimpleField option" where
  "findField n simpleFields = find (\<lambda>field. name field = n) simpleFields"

definition regularSimpleFields :: "IQuerySimpleField list \<Rightarrow> IQuerySimpleField list" where
  "regularSimpleFields simpleFields =
     filter (\<lambda>field. name field \<noteq> ''page'' \<and> name field \<noteq> ''limit'') simpleFields"

text \<open>The page and limit part of the query; the second component is
  \<open>useGetAllWithPagination\<close>.\<close>

definition assemblePaging ::
  "runtime \<Rightarrow> host \<Rightarrow> nat \<Rightarrow> IOperationMeta \<Rightarrow> (string \<times> jsval) list
   \<Rightarrow> error + ((string \<times> jsval) list \<times> jsval)" where
  "assemblePaging rt h itemIndex operationMeta query =
     (let pageField = findField ''page'' (simple (queryUi operationMeta));
          limitField = findField ''limit'' (simple (queryUi operationMeta));
          defaultLimit = (case limitField of Some l \<Rightarrow> resolvePageSize rt l | None \<Rightarrow> Fin 50)
      in case (pageField, limitField) of
           (Some p, Some l) \<Rightarrow>
             (let getAll = getNodeParameterOr h (queryGetAllParamName operationMeta)
                             itemIndex (JBool True)
              in if \<not> js_Boolean getAll then
                   (case applyLimit rt h itemIndex operationMeta l defaultLimit query of
                      Inl e \<Rightarrow> Inl e
                    | Inr query1 \<Rightarrow>
                        (case applyPage rt h itemIndex operationMeta p query1 of
                           Inl e \<Rightarrow> Inl e
                         | Inr query2 \<Rightarrow> Inr (query2, getAll)))
                 else Inr (query, getAll))
         | _ \<Rightarrow>
             (case (case limitField of
                      Some l \<Rightarrow> applyLimit rt h itemIndex operationMeta l defaultLimit query
                    | None \<Rightarrow> Inr query) of
                Inl e \<Rightarrow> Inl e
              | Inr query1 \<Rightarrow>
                  (case (case pageField of
                           Some p \<Rightarrow> applyPage rt h itemIndex operationMeta p query1
                         | None \<Rightarrow> Inr query1) of
                     Inl e \<Rightarrow> Inl e
                   | Inr query2 \<Rightarrow> Inr (query2, JBool False))))"

definition applyInclude ::
  "runtime \<Rightarrow> host \<Rightarrow> nat \<Rightarrow> IOperationMeta \<Rightarrow> (string \<times> jsval) list
   \<Rightarrow> error + (string \<times> jsval) list" where
  "applyInclude rt h itemIndex operationMeta query =
     (case include_options (queryUi operationMeta) of
        None \<Rightarrow> Inr query
      | Some options \<Rightarrow>
          if options = [] then Inr query
          else
            (case getNodeParameterOr h (queryIncludeParamName operationMeta) itemIndex (JArr []) of
               JArr includeValues \<Rightarrow>
                 if includeValues \<noteq> []
                 then Inr (set_prop query ''include'' (JStr (js_join rt includeValues)))
                 else Inr query
             | JStr s \<Rightarrow>
                 if s \<noteq> [] then Inl (TypeError ''includeValues.join is not a function'')
                 else Inr query
             | JObj kvs \<Rightarrow>
                 if num_gt (js_Number rt (get_prop kvs ''length'')) (Fin 0)
                 then Inl (TypeError ''includeValues.join is not a function'')
                 else Inr query
             | JUndefined \<Rightarrow> Inl (TypeError ''Cannot read properties of undefined'')
             | JNull \<Rightarrow> Inl (TypeError ''Cannot read properties of null'')
             | _ \<Rightarrow> Inr query))"

definition applySort ::
  "host \<Rightarrow> nat \<Rightarrow> IOperationMeta \<Rightarrow> (string \<times> jsval) list \<Rightarrow> (string \<times> jsval) list" where
  "applySort h itemIndex operationMeta query =
     (case sort_options (queryUi operationMeta) of
        None \<Rightarrow> query
      | Some options \<Rightarrow>
          if options = [] then query
          else let sortValue = getNodeParameterOr h (querySortParamName operationMeta)
                                 itemIndex (JStr [])
               in if \<not> isEmptyValue sortValue then set_prop query ''sort'' sortValue
                  else query)"

text \<open>The body of the loop over \<open>operationMeta.queryUi.filters\<close>, for one filter
  field.\<close>

definition filterStep ::
  "runtime \<Rightarrow> IOperationMeta \<Rightarrow> jsval \<Rightarrow> (string \<times> jsval) list \<Rightarrow> IQueryFilterField
   \<Rightarrow> error + (string \<times> jsval) list" where
  "filterStep rt operationMeta filterSource filterPayload filterField =
     (if fieldType filterField = FBetweenDateTime then
        (case js_get filterSource (queryFilterFromParamName operationMeta filterField) of
           Inl e \<Rightarrow> Inl e
         | Inr fromValue \<Rightarrow>
        (case js_get filterSource (queryFilterToParamName operationMeta filterField) of
           Inl e \<Rightarrow> Inl e
         | Inr toValue \<Rightarrow>
             (let hasFrom = \<not> isEmptyValue fromValue; hasTo = \<not> isEmptyValue toValue in
                if hasFrom \<noteq> hasTo then
                  Inl (NodeOperationError (''Filter '' @ quoted (filter_name filterField)
                         @ '' expects both '' @ quoted ''from'' @ '' and '' @ quoted ''to''))
                else if hasFrom \<and> hasTo then
                  (case toKeycrmUtcDateTime rt (js_String rt fromValue) of
                     Inl e \<Rightarrow> Inl e
                   | Inr a \<Rightarrow>
                  (case toKeycrmUtcDateTime rt (js_String rt toValue) of
                     Inl e \<Rightarrow> Inl e
                   | Inr b \<Rightarrow>
                       Inr (set_prop filterPayload (filter_name filterField)
                              (JStr (a @ '', '' @ b)))))
                else Inr filterPayload)))
      else
        (let fieldKey = queryFilterFieldParamName operationMeta filterField in
           case js_in fieldKey filterSource of
             Inl e \<Rightarrow> Inl e
           | Inr present \<Rightarrow>
               if \<not> present then Inr filterPayload
               else
                 (let rawValue = get_prop (props_of filterSource) fieldKey in
                    if isEmptyValue rawValue then Inr filterPayload
                    else if fieldType filterField = FNumber \<or> fieldType filterField = FInteger then
                      (let parsed = js_Number rt rawValue in
                         if parsed \<noteq> NaN then
                           Inr (set_prop filterPayload (filter_name filterField)
                                  (JNum (if fieldType filterField = FInteger
                                         then Math_trunc parsed else parsed)))
                         else Inr filterPayload)
                    else if fieldType filterField = FBoolean then
                      Inr (set_prop filterPayload (filter_name filterField)
                             (JBool (js_Boolean rawValue)))
                    else Inr (set_prop filterPayload (filter_name filterField)
                                (JStr (js_String rt rawValue))))))"

definition customFieldStep ::
  "runtime \<Rightarrow> (string \<times> jsval) list \<Rightarrow> jsval \<Rightarrow> (string \<times> jsval) list" where
  "customFieldStep rt customFieldsPayload item =
     (if \<not> isObject item then customFieldsPayload
      else let uuid = get_prop (props_of item) ''uuid''; v = get_prop (props_of item) ''value'' in
        if isEmptyValue uuid \<or> isEmptyValue v then customFieldsPayload
        else set_prop customFieldsPayload (js_String rt uuid) (JStr (js_String rt v)))"

definition applyCustomFields ::
  "runtime \<Rightarrow> IOperationMeta \<Rightarrow> jsval \<Rightarrow> (string \<times> jsval) list
   \<Rightarrow> error + (string \<times> jsval) list" where
  "applyCustomFields rt operationMeta filterSource filterPayload =
     (case js_get filterSource (queryCustomFieldsFilterParamName operationMeta) of
        Inl e \<Rightarrow> Inl e
      | Inr customFieldsFilterRaw \<Rightarrow>
          (case get_prop (props_of customFieldsFilterRaw) ''items'' of
             JArr items \<Rightarrow>
               (let customFieldsPayload = foldl (customFieldStep rt) [] items in
                  if customFieldsPayload \<noteq> []
                  then Inr (set_prop filterPayload ''custom_fields'' (JObj customFieldsPayload))
                  else Inr filterPayload)
           | _ \<Rightarrow> Inr filterPayload))"

definition assembleFilters ::
  "runtime \<Rightarrow> host \<Rightarrow> nat \<Rightarrow> IOperationMeta \<Rightarrow> (string \<times> jsval) list
   \<Rightarrow> error + (string \<times> jsval) list" where
  "assembleFilters rt h itemIndex operationMeta query =
     (if filters (queryUi operationMeta) = [] then Inr query
      else
        (let filterSource = getNodeParameterOr h (queryFilterCollectionParamName operationMeta)
                              itemIndex (JObj [])
         in case forEach (filterStep rt operationMeta filterSource)
                   (filters (queryUi operationMeta)) [] of
              Inl e \<Rightarrow> Inl e
            | Inr filterPayload \<Rightarrow>
                (case applyCustomFields rt operationMeta filterSource filterPayload of
                   Inl e \<Rightarrow> Inl e
                 | Inr filterPayload' \<Rightarrow>
                     if filterPayload' \<noteq> []
                     then Inr (set_prop query ''filter'' (JObj filterPayload'))
                     else Inr query)))"

text \<open>The whole query object, and \<open>useGetAllWithPagination\<close>.\<close>

definition assembleQuery ::
  "runtime \<Rightarrow> host \<Rightarrow> nat \<Rightarrow> IOperationMeta \<Rightarrow> error + ((string \<times> jsval) list \<times> jsval)" where
  "assembleQuery rt h itemIndex operationMeta =
     (case forEach (simpleQueryStep rt h itemIndex operationMeta)
             (regularSimpleFields (simple (queryUi operationMeta))) [] of
        Inl e \<Rightarrow> Inl e
      | Inr query1 \<Rightarrow>
     (case assemblePaging rt h itemIndex operationMeta query1 of
        Inl e \<Rightarrow> Inl e
      | Inr (query2, useGetAllWithPagination) \<Rightarrow>
     (case applyInclude rt h itemIndex operationMeta query2 of
        Inl e \<Rightarrow> Inl e
      | Inr query3 \<Rightarrow>
     (case assembleFilters rt h itemIndex operationMeta
             (applySort h itemIndex operationMeta query3) of
        Inl e \<Rightarrow> Inl e
      | Inr query4 \<Rightarrow> Inr (query4, useGetAllWithPagination)))))"

section \<open>The date-range filter\<close>

definition created_between :: IQueryFilterField where
  "created_between = \<lparr>filter_name = ''created_between'', fieldType = FBetweenDateTime\<rparr>"

definition listOrdersFiltered :: IOperationMeta where
  "listOrdersFiltered = listOrders\<lparr>queryUi := empty_query\<lparr>filters := [created_between]\<rparr>\<rparr>"

definition january :: jsval where
  "january =
     JObj [(''query__listorders__filter__created__between__from'', JStr ''2024-01-01''),
           (''query__listorders__filter__created__between__to'', JStr ''2024-01-31'')]"








text \<open>In the whole query: the range appears under \<open>filter\<close>; with no endpoint the query
  has no \<open>filter\<close> key; an endpoint that is not a date is an error.\<close>

definition filter_host :: "jsval \<Rightarrow> host" where
  "filter_host filterSource =
     path_host\<lparr>nodeParameter := (\<lambda>n i. map_of [(''query__listorders__filter'', filterSource)] n)\<rparr>"

lemma assembleFilters_examples:
  "assembleFilters example_runtime (filter_host january) 0 listOrdersFiltered []
     = Inr [(''filter'',
         JObj [(''created_between'', JStr ''2024-01-01 00:00:00, 2024-01-31 00:00:00'')])]"
  "assembleFilters example_runtime (filter_host (JObj [])) 0 listOrdersFiltered [] = Inr []"
  "toKeycrmUtcDateTime example_runtime ''soon'' = Inl (ApplicationError ''Invalid date value: soon'')"
  by code_simp+

section \<open>Payload assembler\<close>

fun parseBodyFieldValue ::
    "runtime \<Rightarrow> IOperationMeta \<Rightarrow> IBodyField \<Rightarrow> jsval \<Rightarrow> error + jsval"
  and parseChildren ::
    "runtime \<Rightarrow> IOperationMeta \<Rightarrow> IBodyField list \<Rightarrow> (string \<times> jsval) list
     \<Rightarrow> (string \<times> jsval) list \<Rightarrow> error + (string \<times> jsval) list"
  and parseItems ::
    "runtime \<Rightarrow> IOperationMeta \<Rightarrow> IBodyField \<Rightarrow> jsval list \<Rightarrow> jsval list
     \<Rightarrow> error + jsval list" where
  "parseBodyFieldValue rt operation (Primitive field) rawValue =
     (let normalized = normalizePrimitiveValue rt field rawValue in
        if body_required field \<and> normalized = JUndefined
        then Inl (NodeOperationError (''Missing required field '' @ quoted (body_apiPath field)))
        else Inr normalized)"
| "parseBodyFieldValue rt operation (Object c children) rawValue =
     (case parseChildren rt operation children (props_of rawValue) [] of
        Inl e \<Rightarrow> Inl e
      | Inr output \<Rightarrow>
          if output = [] then
            (if body_required c
             then Inl (NodeOperationError (''Missing required object '' @ quoted (body_apiPath c)))
             else Inr JUndefined)
          else Inr (JObj output))"
| "parseBodyFieldValue rt operation (Array c itemField) rawValue =
     (let items = (case get_prop (props_of rawValue) ''items'' of JArr xs \<Rightarrow> xs | _ \<Rightarrow> []) in
        case parseItems rt operation itemField items [] of
          Inl e \<Rightarrow> Inl e
        | Inr parsedItems \<Rightarrow>
            if parsedItems = [] then
              (if body_required c
               then Inl (NodeOperationError (''Missing required array '' @ quoted (body_apiPath c)))
               else Inr JUndefined)
            else Inr (JArr parsedItems))"
| "parseChildren rt operation [] source output = Inr output"
| "parseChildren rt operation (child # rest) source output =
     (let childName = bodyFieldParamName operation child in
        if \<not> has_key source childName then
          (if body_required (common child)
           then Inl (NodeOperationError
                  (''Missing required field '' @ quoted (body_apiPath (common child))))
           else parseChildren rt operation rest source output)
        else
          (case parseBodyFieldValue rt operation child (get_prop source childName) of
             Inl e \<Rightarrow> Inl e
           | Inr parsedChild \<Rightarrow>
               parseChildren rt operation rest source
                 (if parsedChild \<noteq> JUndefined
                  then set_prop output (apiKey (common child)) parsedChild else output)))"
| "parseItems rt operation itemField [] parsedItems = Inr parsedItems"
| "parseItems rt operation itemField (itemEntry # rest) parsedItems =
     (case itemField of
        Primitive pf \<Rightarrow>
          if \<not> isObject itemEntry then parseItems rt operation itemField rest parsedItems
          else
            (case parseBodyFieldValue rt operation itemField
                    (get_prop (props_of itemEntry) (bodyFieldParamName operation itemField)) of
               Inl e \<Rightarrow> Inl e
             | Inr parsedItem \<Rightarrow>
                 parseItems rt operation itemField rest
                   (if parsedItem \<noteq> JUndefined then parsedItems @ [parsedItem] else parsedItems))
      | _ \<Rightarrow>
          (case parseBodyFieldValue rt operation itemField itemEntry of
             Inl e \<Rightarrow> Inl e
           | Inr parsedItem \<Rightarrow>
               parseItems rt operation itemField rest
                 (if parsedItem \<noteq> JUndefined then parsedItems @ [parsedItem] else parsedItems)))"

definition requiredFieldStep ::
  "runtime \<Rightarrow> host \<Rightarrow> nat \<Rightarrow> IOperationMeta \<Rightarrow> (string \<times> jsval) list \<Rightarrow> IBodyField
   \<Rightarrow> error + (string \<times> jsval) list" where
  "requiredFieldStep rt h itemIndex operationMeta bodyPayload requiredField =
     (case getNodeParameter h (bodyFieldParamName operationMeta requiredField) itemIndex of
        Inl e \<Rightarrow> Inl e
      | Inr rawRequiredValue \<Rightarrow>
          (case parseBodyFieldValue rt operationMeta requiredField rawRequiredValue of
             Inl e \<Rightarrow> Inl e
           | Inr parsed \<Rightarrow>
               if parsed = JUndefined then
                 Inl (NodeOperationError (''Missing required body field ''
                        @ quoted (body_apiPath (common requiredField))))
               else Inr (set_prop bodyPayload (apiKey (common requiredField)) parsed)))"

definition optionalFieldStep ::
  "runtime \<Rightarrow> IOperationMeta \<Rightarrow> jsval \<Rightarrow> (string \<times> jsval) list \<Rightarrow> IBodyField
   \<Rightarrow> error + (string \<times> jsval) list" where
  "optionalFieldStep rt operationMeta optionalSource bodyPayload optionalField =
     (let optionalKey = bodyFieldParamName operationMeta optionalField in
        case js_in optionalKey optionalSource of
          Inl e \<Rightarrow> Inl e
        | Inr present \<Rightarrow>
            if \<not> present then Inr bodyPayload
            else
              (case parseBodyFieldValue rt operationMeta optionalField
                      (get_prop (props_of optionalSource) optionalKey) of
                 Inl e \<Rightarrow> Inl e
               | Inr parsed \<Rightarrow>
                   Inr (if parsed \<noteq> JUndefined
                        then set_prop bodyPayload (apiKey (common optionalField)) parsed
                        else bodyPayload)))"

text \<open>\<open>contentType === 'multipart/form-data' && binaryProperty\<close>.\<close>

definition multipart :: "IBodyUi \<Rightarrow> bool" where
  "multipart ui =
     (contentType ui = ''multipart/form-data''
      \<and> (case binaryProperty ui of Some p \<Rightarrow> p \<noteq> [] | None \<Rightarrow> False))"

definition assembleBody ::
  "runtime \<Rightarrow> host \<Rightarrow> nat \<Rightarrow> IOperationMeta \<Rightarrow> IHttpRequestOptions
   \<Rightarrow> error + IHttpRequestOptions" where
  "assembleBody rt h itemIndex operationMeta requestOptions =
     (case bodyUi operationMeta of
        None \<Rightarrow> Inr requestOptions
      | Some ui \<Rightarrow>
          if multipart ui then
            (case getNodeParameter h (bodyBinaryPropertyParamName operationMeta) itemIndex of
               Inl e \<Rightarrow> Inl e
             | Inr binaryPropertyName \<Rightarrow>
                 (case assertBinaryData h itemIndex (js_String rt binaryPropertyName) of
                    Inl e \<Rightarrow> Inl e
                  | Inr binaryData \<Rightarrow>
                      Inr (requestOptions
                        \<lparr>body := Some (FormDataBody
                           [\<lparr>part_name = (case binaryProperty ui of Some p \<Rightarrow> p | None \<Rightarrow> []),
                             blob_data = data binaryData,
                             blob_type = or_else (mimeType binaryData) ''application/octet-stream'',
                             part_fileName =
                               or_else (case fileName binaryData of Some n \<Rightarrow> n | None \<Rightarrow> [])
                                 ''file''\<rparr>]),
                         headers := Some [(''Accept'', ''application/json'')]\<rparr>)))
          else
            (case forEach (requiredFieldStep rt h itemIndex operationMeta)
                    (requiredFields ui) [] of
               Inl e \<Rightarrow> Inl e
             | Inr bodyPayload1 \<Rightarrow>
                 (case (if optionalFields ui \<noteq> [] then
                          forEach (optionalFieldStep rt operationMeta
                              (getNodeParameterOr h
                                 (bodyOptionalCollectionParamName operationMeta) itemIndex (JObj [])))
                            (optionalFields ui) bodyPayload1
                        else Inr bodyPayload1) of
                    Inl e \<Rightarrow> Inl e
                  | Inr bodyPayload \<Rightarrow>
                      Inr (if bodyPayload \<noteq> []
                           then requestOptions\<lparr>body := Some (JsonBody bodyPayload)\<rparr>
                           else requestOptions))))"

section \<open>The end-to-end body scenario\<close>

text \<open>
  The body spec of the scenario: the object field \<open>data\<close> among the required fields,
  with the required string field \<open>name\<close> (API path \<open>data.name\<close>) and the optional
  integer field \<open>age\<close> (API path \<open>data.age\<close>) as its children. The nullability of
  \<open>name\<close> and the required flag of \<open>data\<close> are left open.
\<close>

definition name_field :: "bool \<Rightarrow> IBodyPrimitiveField" where
  "name_field nl =
     \<lparr>apiKey = ''name'', body_apiPath = ''data.name'', body_required = True, nullable = nl,
      body_schemaType = TString\<rparr>"

definition age_field :: IBodyPrimitiveField where
  "age_field =
     \<lparr>apiKey = ''age'', body_apiPath = ''data.age'', body_required = False, nullable = False,
      body_schemaType = TInteger\<rparr>"

definition data_field :: "bool \<Rightarrow> bool \<Rightarrow> IBodyField" where
  "data_field rq nl =
     Object \<lparr>apiKey = ''data'', body_apiPath = ''data'', body_required = rq, nullable = False\<rparr>
       [Primitive (name_field nl), Primitive age_field]"

definition createPerson :: IOperationMeta where
  "createPerson =
     \<lparr>operationValue = ''createPerson'', operationId = ''createPerson'', http_method = ''POST'',
      path = ''/person'', pathUi = [], queryUi = empty_query,
      bodyUi = Some \<lparr>contentType = ''application/json'', binaryProperty = None,
                     requiredFields = [data_field True False], optionalFields = []\<rparr>\<rparr>"

definition person_host :: "jsval \<Rightarrow> host" where
  "person_host raw =
     path_host\<lparr>nodeParameter := (\<lambda>n i. map_of [(''body__createperson__data'', raw)] n)\<rparr>"

definition post_person :: IHttpRequestOptions where
  "post_person =
     \<lparr>url = buildKeycrmUrl ''/person'', request_method = ''POST'', qs = [], body = None,
      headers = None\<rparr>"

lemma name_age_distinct:
  "bodyFieldParamName operation (Primitive age_field)
     \<noteq> bodyFieldParamName operation (Primitive (name_field nl))"
proof -
  have "body_key (Primitive age_field) = ''data__age''"
    by code_simp
  moreover have "body_key (Primitive (name_field nl)) = ''data__name''"
    unfolding body_key_def name_field_def by (simp add: or_else_def) code_simp
  ultimately show ?thesis
    by (simp add: same_operation)
qed

lemma trim_Ada: "trim ''Ada'' = ''Ada''"
  by code_simp

lemma normalize_Ada: "normalizePrimitiveValue rt (name_field nl) (JStr ''Ada'') = JStr ''Ada''"
  by (simp add: normalizePrimitiveValue_def name_field_def numeric_def trim_Ada)

lemma parse_data_Ada:
  "parseBodyFieldValue rt operation (data_field rq nl)
     (JObj [(bodyFieldParamName operation (Primitive (name_field nl)), JStr ''Ada'')])
   = Inr (JObj [(''name'', JStr ''Ada'')])"
proof -
  have a: "apiKey (name_field nl) = ''name''" "\<not> body_required age_field"
    by (simp_all add: name_field_def age_field_def)
  show ?thesis
    using name_age_distinct [of operation nl]
    by (simp add: data_field_def props_of_def has_key_def get_prop_def normalize_Ada Let_def a)
qed

lemma parseChildren_name_missing:
  assumes "\<not> has_key source (bodyFieldParamName operation (Primitive (name_field nl)))
     \<or> normalizePrimitiveValue rt (name_field nl)
          (get_prop source (bodyFieldParamName operation (Primitive (name_field nl))))
        = JUndefined"
  shows "parseChildren rt operation (Primitive (name_field nl) # rest) source output
     = Inl (NodeOperationError (''Missing required field '' @ quoted ''data.name''))"
proof -
  have r: "body_required (name_field nl)" "body_apiPath (name_field nl) = ''data.name''"
    by (simp_all add: name_field_def)
  show ?thesis
  proof (cases "has_key source (bodyFieldParamName operation (Primitive (name_field nl)))")
    case True
    with assms show ?thesis by (simp add: Let_def r)
  next
    case False
    then show ?thesis by (simp add: Let_def r)
  qed
qed

lemma parse_data_missing:
  assumes "\<not> has_key (props_of raw) (bodyFieldParamName operation (Primitive (name_field nl)))
     \<or> normalizePrimitiveValue rt (name_field nl)
          (get_prop (props_of raw) (bodyFieldParamName operation (Primitive (name_field nl))))
        = JUndefined"
  shows "parseBodyFieldValue rt operation (data_field rq nl) raw
     = Inl (NodeOperationError (''Missing required field '' @ quoted ''data.name''))"
  unfolding data_field_def parseBodyFieldValue.simps parseChildren_name_missing [OF assms]
  by simp

text \<open>
  C1: for an operation whose JSON body spec consists of the object field \<open>data\<close> with
  the required string field \<open>name\<close> (API path \<open>data.name\<close>) and the optional integer
  field \<open>age\<close> (API path \<open>data.age\<close>): when the value supplied for \<open>data\<close> holds only
  \<open>Ada\<close> under the generated identifier of \<open>data.name\<close>, the request body is exactly
  \<open>{"data":{"name":"Ada"}}\<close>, keyed by the API keys, with no entry for the absent
  \<open>age\<close>; when it holds no value for \<open>data.name\<close>, or one that normalizes to
  undefined, assembly fails with the validation error
  \<open>Missing required field "data.name"\<close>.
\<close>

theorem body_scenario:
  assumes "bodyUi operationMeta = Some ui"
    and "\<not> multipart ui"
    and "requiredFields ui = [data_field rq nl]"
    and "optionalFields ui = []"
    and "nodeParameter h (bodyFieldParamName operationMeta (data_field rq nl)) itemIndex = Some raw"
  shows
    "(raw = JObj [(bodyFieldParamName operationMeta (Primitive (name_field nl)), JStr ''Ada'')]
        \<longrightarrow>
        assembleBody rt h itemIndex operationMeta requestOptions =
          Inr (requestOptions
                 \<lparr>body := Some (JsonBody [(''data'', JObj [(''name'', JStr ''Ada'')])])\<rparr>)) \<and>
     (\<not> has_key (props_of raw) (bodyFieldParamName operationMeta (Primitive (name_field nl)))
        \<or> normalizePrimitiveValue rt (name_field nl)
             (get_prop (props_of raw)
                (bodyFieldParamName operationMeta (Primitive (name_field nl)))) = JUndefined
        \<longrightarrow>
        assembleBody rt h itemIndex operationMeta requestOptions =
          Inl (NodeOperationError (''Missing required field '' @ quoted ''data.name'')))"
proof (intro conjI impI)
  have k: "apiKey (common (data_field rq nl)) = ''data''"
    by (simp add: data_field_def)
  {
    assume "raw = JObj [(bodyFieldParamName operationMeta (Primitive (name_field nl)),
      JStr ''Ada'')]"
    then have "requiredFieldStep rt h itemIndex operationMeta [] (data_field rq nl)
        = Inr [(''data'', JObj [(''name'', JStr ''Ada'')])]"
      using assms(5) by (simp add: requiredFieldStep_def getNodeParameter_def parse_data_Ada k)
    then show "assembleBody rt h itemIndex operationMeta requestOptions =
          Inr (requestOptions
                 \<lparr>body := Some (JsonBody [(''data'', JObj [(''name'', JStr ''Ada'')])])\<rparr>)"
      using assms(1-4) by (simp add: assembleBody_def)
  }
  {
    assume "\<not> has_key (props_of raw) (bodyFieldParamName operationMeta (Primitive (name_field nl)))
        \<or> normalizePrimitiveValue rt (name_field nl)
             (get_prop (props_of raw)
                (bodyFieldParamName operationMeta (Primitive (name_field nl)))) = JUndefined"
    then have "requiredFieldStep rt h itemIndex operationMeta [] (data_field rq nl)
        = Inl (NodeOperationError (''Missing required field '' @ quoted ''data.name''))"
      using assms(5) parse_data_missing [of raw operationMeta nl rt rq]
      by (simp add: requiredFieldStep_def getNodeParameter_def)
    then show "assembleBody rt h itemIndex operationMeta requestOptions =
          Inl (NodeOperationError (''Missing required field '' @ quoted ''data.name''))"
      using assms(1-4) by (simp add: assembleBody_def)
  }
qed

theorem body_scenario_witness:
  "bodyUi createPerson = Some \<lparr>contentType = ''application/json'', binaryProperty = None,
       requiredFields = [data_field True False], optionalFields = []\<rparr> \<and>
   nodeParameter (person_host (JObj [(''body__createperson__data__name'', JStr ''Ada'')]))
       (bodyFieldParamName createPerson (data_field True False)) 0
     = Some (JObj [(''body__createperson__data__name'', JStr ''Ada'')]) \<and>
   bodyFieldParamName createPerson (Primitive (name_field False))
     = ''body__createperson__data__name'' \<and>
   assembleBody example_runtime
       (person_host (JObj [(''body__createperson__data__name'', JStr ''Ada'')])) 0
       createPerson post_person
     = Inr (post_person\<lparr>body := Some (JsonBody [(''data'', JObj [(''name'', JStr ''Ada'')])])\<rparr>) \<and>
   assembleBody example_runtime (person_host (JObj [])) 0 createPerson post_person
     = Inl (NodeOperationError (''Missing required field '' @ quoted ''data.name'')) \<and>
   assembleBody example_runtime
       (person_host (JObj [(''body__createperson__data__name'', JStr [])])) 0
       createPerson post_person
     = Inl (NodeOperationError (''Missing required field '' @ quoted ''data.name''))"
proof -
  let ?ui = "\<lparr>contentType = ''application/json'', binaryProperty = None,
       requiredFields = [data_field True False], optionalFields = []\<rparr>"
  have b: "bodyUi createPerson = Some ?ui" by (simp add: createPerson_def)
  have m: "\<not> multipart ?ui" by (simp add: multipart_def)
  have r: "requiredFields ?ui = [data_field True False]" "optionalFields ?ui = []" by simp_all
  have d: "bodyFieldParamName createPerson (data_field True False) = ''body__createperson__data''"
    by code_simp
  have n: "bodyFieldParamName createPerson (Primitive (name_field False))
      = ''body__createperson__data__name''"
    by code_simp
  have p: "nodeParameter (person_host raw)
      (bodyFieldParamName createPerson (data_field True False)) 0 = Some raw" for raw
    unfolding d by (simp add: person_host_def)
  have e1: "\<not> has_key (props_of (JObj [])) (bodyFieldParamName createPerson
      (Primitive (name_field False)))"
    by (simp add: props_of_def has_key_def)
  have e2: "normalizePrimitiveValue example_runtime (name_field False)
      (get_prop (props_of (JObj [(''body__createperson__data__name'', JStr [])]))
         (bodyFieldParamName createPerson (Primitive (name_field False)))) = JUndefined"
    unfolding n by code_simp
  note t = body_scenario [OF b m r p, where rt = example_runtime and requestOptions = post_person]
  have s1: "assembleBody example_runtime
       (person_host (JObj [(''body__createperson__data__name'', JStr ''Ada'')])) 0
       createPerson post_person
     = Inr (post_person\<lparr>body := Some (JsonBody [(''data'', JObj [(''name'', JStr ''Ada'')])])\<rparr>)"
    using t [of "JObj [(''body__createperson__data__name'', JStr ''Ada'')]"] unfolding n by simp
  have s2: "assembleBody example_runtime (person_host (JObj [])) 0 createPerson post_person
     = Inl (NodeOperationError (''Missing required field '' @ quoted ''data.name''))"
    using t [of "JObj []"] e1 by blast
  have s3: "assembleBody example_runtime
       (person_host (JObj [(''body__createperson__data__name'', JStr [])])) 0
       createPerson post_person
     = Inl (NodeOperationError (''Missing required field '' @ quoted ''data.name''))"
    using t [of "JObj [(''body__createperson__data__name'', JStr [])]"] e2 by blast
  from b p [of "JObj [(''body__createperson__data__name'', JStr ''Ada'')]"] n s1 s2 s3
  show ?thesis by blast
qed

section \<open>Pagination engine\<close>

definition toDataObjectArray :: "jsval list \<Rightarrow> jsval list" where
  "toDataObjectArray values = map (\<lambda>v. if isObject v then v else JObj [(''value'', v)]) values"

definition extractPaginatedItems :: "jsval \<Rightarrow> jsval list" where
  "extractPaginatedItems response =
     (case response of
        JArr xs \<Rightarrow> toDataObjectArray xs
      | JObj r \<Rightarrow>
          (case get_prop r ''data'' of
             JArr d \<Rightarrow> toDataObjectArray d
           | _ \<Rightarrow>
               (case get_prop r ''items'' of
                  JArr i \<Rightarrow> toDataObjectArray i
                | _ \<Rightarrow> []))
      | _ \<Rightarrow> [])"

text \<open>The last line of \<open>hasMorePaginatedItems\<close>: a full page, below the ceiling of 1000
  pages.\<close>

definition fullPageBelowCeiling :: "nat \<Rightarrow> jsnum \<Rightarrow> nat \<Rightarrow> bool" where
  "fullPageBelowCeiling page pageSize itemsCount =
     (num_ge (Fin (of_nat itemsCount)) pageSize \<and> page < 1000)"

definition hasMorePaginatedItems :: "runtime \<Rightarrow> jsval \<Rightarrow> nat \<Rightarrow> jsnum \<Rightarrow> nat \<Rightarrow> bool" where
  "hasMorePaginatedItems rt response page pageSize itemsCount =
     (case response of
        JObj r \<Rightarrow>
          (let currentPage = js_Number rt (get_prop r ''current_page'');
               lastPage = js_Number rt (get_prop r ''last_page'')
           in if currentPage \<noteq> NaN \<and> lastPage \<noteq> NaN \<and> num_gt lastPage (Fin 0)
              then num_lt currentPage lastPage
              else
                (let metaPage = js_Number rt (get_prop r ''page'');
                     metaLastPage = js_Number rt (get_prop r ''last_page'')
                 in if metaPage \<noteq> NaN \<and> metaLastPage \<noteq> NaN \<and> num_gt metaLastPage (Fin 0)
                    then num_lt metaPage metaLastPage
                    else if get_prop r ''next_page_url'' \<noteq> JUndefined
                      then js_Boolean (get_prop r ''next_page_url'')
                    else
                      (let links = get_prop r ''links'' in
                         if isObject links \<and> get_prop (props_of links) ''next'' \<noteq> JUndefined
                         then js_Boolean (get_prop (props_of links) ''next'')
                         else fullPageBelowCeiling page pageSize itemsCount)))
      | _ \<Rightarrow> fullPageBelowCeiling page pageSize itemsCount)"

text \<open>
  The \<open>while (true)\<close> loop of the fetch-all branch. \<open>respond page\<close> is what the request
  for that page returns or throws. The loop may run forever: its result is \<open>None\<close> then.
  It returns the aggregated items, the last response and the page it stopped on.
\<close>

partial_function (option) fetchPages ::
  "runtime \<Rightarrow> (nat \<Rightarrow> error + jsval) \<Rightarrow> jsnum \<Rightarrow> nat \<Rightarrow> jsval list
   \<Rightarrow> (error + jsval list \<times> jsval \<times> nat) option" where
  "fetchPages rt respond pageSize page aggregatedItems =
     (case respond page of
        Inl e \<Rightarrow> Some (Inl e)
      | Inr response \<Rightarrow>
          (let pageItems = extractPaginatedItems response;
               aggregated = aggregatedItems @ pageItems
           in if \<not> hasMorePaginatedItems rt response page pageSize (length pageItems)
              then Some (Inr (aggregated, response, page))
              else fetchPages rt respond pageSize (page + 1) aggregated))"

text \<open>The response to the request for a page (undefined when the request fails), its
  items, and whether the loop goes on after that page.\<close>

definition response_at :: "(nat \<Rightarrow> error + jsval) \<Rightarrow> nat \<Rightarrow> jsval" where
  "response_at respond p = (case respond p of Inr r \<Rightarrow> r | Inl e \<Rightarrow> JUndefined)"

definition items_at :: "(nat \<Rightarrow> error + jsval) \<Rightarrow> nat \<Rightarrow> jsval list" where
  "items_at respond p = extractPaginatedItems (response_at respond p)"

definition continues :: "runtime \<Rightarrow> (nat \<Rightarrow> error + jsval) \<Rightarrow> jsnum \<Rightarrow> nat \<Rightarrow> bool" where
  "continues rt respond pageSize p =
     (case respond p of
        Inr r \<Rightarrow> hasMorePaginatedItems rt r p pageSize (length (extractPaginatedItems r))
      | Inl e \<Rightarrow> False)"

text \<open>The numeric \<open>current_page\<close> and \<open>last_page\<close> of a response, when it exposes both
  and \<open>last_page\<close> is positive.\<close>

definition finite_number :: "jsval \<Rightarrow> rat option" where
  "finite_number v = (case v of JNum n \<Rightarrow> (case n of Fin x \<Rightarrow> Some x | _ \<Rightarrow> None) | _ \<Rightarrow> None)"

definition page_numbers :: "jsval \<Rightarrow> (rat \<times> rat) option" where
  "page_numbers response =
     (case response of
        JObj r \<Rightarrow>
          (case finite_number (get_prop r ''current_page'') of
             Some c \<Rightarrow>
               (case finite_number (get_prop r ''last_page'') of
                  Some l \<Rightarrow> if 0 < l then Some (c, l) else None
                | None \<Rightarrow> None)
           | None \<Rightarrow> None)
      | _ \<Rightarrow> None)"

text \<open>A response without pagination metadata: a value that is not an object, or an
  object with none of the properties the continuation policy reads.\<close>

definition no_metadata :: "jsval \<Rightarrow> bool" where
  "no_metadata response =
     (case response of
        JObj r \<Rightarrow>
          list_all (\<lambda>k. get_prop r k = JUndefined)
            [''current_page'', ''last_page'', ''page'', ''next_page_url'', ''links'']
      | _ \<Rightarrow> True)"

definition full_page :: "jsnum \<Rightarrow> jsval \<Rightarrow> bool" where
  "full_page pageSize response =
     num_ge (Fin (of_nat (length (extractPaginatedItems response)))) pageSize"

text \<open>Pages 1 to \<open>n\<close> all answer with page numbers, and \<open>n\<close> is the first page whose
  \<open>current_page\<close> is not below its \<open>last_page\<close>.\<close>

definition paged_until :: "(nat \<Rightarrow> error + jsval) \<Rightarrow> nat \<Rightarrow> bool" where
  "paged_until respond n =
     (\<forall>p \<in> {1..n}.
        case respond p of
          Inr r \<Rightarrow> (case page_numbers r of Some (c, l) \<Rightarrow> (c < l) = (p < n) | None \<Rightarrow> False)
        | Inl e \<Rightarrow> False)"

text \<open>Pages 1 to \<open>n\<close> all answer without metadata, and \<open>n\<close> is the first page that is
  not full.\<close>

definition plain_until :: "(nat \<Rightarrow> error + jsval) \<Rightarrow> jsnum \<Rightarrow> nat \<Rightarrow> bool" where
  "plain_until respond pageSize n =
     (\<forall>p \<in> {1..n}.
        case respond p of
          Inr r \<Rightarrow> no_metadata r \<and> full_page pageSize r = (p < n)
        | Inl e \<Rightarrow> False)"

text \<open>Pages 1 to 1000 all answer without metadata, with a full page.\<close>

definition plain_full :: "(nat \<Rightarrow> error + jsval) \<Rightarrow> jsnum \<Rightarrow> bool" where
  "plain_full respond pageSize =
     (\<forall>p \<in> {1..1000}.
        case respond p of
          Inr r \<Rightarrow> no_metadata r \<and> full_page pageSize r
        | Inl e \<Rightarrow> False)"

text \<open>What the loop returns when it stops on page \<open>n\<close>: the items of pages 1 to \<open>n\<close>,
  the response of page \<open>n\<close>, and \<open>n\<close>.\<close>

definition stopped_at ::
  "(nat \<Rightarrow> error + jsval) \<Rightarrow> nat \<Rightarrow> (error + jsval list \<times> jsval \<times> nat) option" where
  "stopped_at respond n =
     Some (Inr (concat (map (items_at respond) [1..<Suc n]), response_at respond n, n))"

definition stuck_respond :: "nat \<Rightarrow> error + jsval" where
  "stuck_respond p =
     Inr (JObj [(''current_page'', JNum (Fin 1)), (''last_page'', JNum (Fin 2)),
                (''data'', JArr [JObj [(''id'', JNum (Fin 7))]])])"

lemma js_Number_simps:
  "js_Number rt JUndefined = NaN"
  "js_Number rt (JNum n) = n"
  by (simp_all add: js_Number_def)

lemma finite_numberD: "finite_number v = Some x \<Longrightarrow> v = JNum (Fin x)"
  by (cases v; simp add: finite_number_def split: jsnum.splits)

lemma page_numbersD:
  assumes "page_numbers response = Some (c, l)"
  obtains r where "response = JObj r" "get_prop r ''current_page'' = JNum (Fin c)"
    "get_prop r ''last_page'' = JNum (Fin l)" "0 < l"
proof (cases response)
  case (JObj r)
  with assms have "finite_number (get_prop r ''current_page'') = Some c"
    "finite_number (get_prop r ''last_page'') = Some l" "0 < l"
    by (simp_all add: page_numbers_def split: option.splits if_splits)
  with JObj that show ?thesis
    by (simp add: finite_numberD)
qed (use assms in \<open>simp_all add: page_numbers_def\<close>)

lemma hasMore_page_numbers:
  assumes "page_numbers response = Some (c, l)"
  shows "hasMorePaginatedItems rt response page pageSize k = (c < l)"
proof -
  from assms obtain r where r: "response = JObj r"
    "get_prop r ''current_page'' = JNum (Fin c)" "get_prop r ''last_page'' = JNum (Fin l)"
    "0 < l"
    by (rule page_numbersD)
  show ?thesis
    unfolding hasMorePaginatedItems_def r(1)
    by (simp add: r js_Number_simps num_gt_def num_lt_def)
qed

lemma hasMore_no_metadata:
  assumes "no_metadata response"
  shows "hasMorePaginatedItems rt response page pageSize k
     = fullPageBelowCeiling page pageSize k"
proof (cases response)
  case (JObj r)
  with assms have u: "get_prop r ''current_page'' = JUndefined"
    "get_prop r ''last_page'' = JUndefined" "get_prop r ''page'' = JUndefined"
    "get_prop r ''next_page_url'' = JUndefined" "get_prop r ''links'' = JUndefined"
    by (simp_all add: no_metadata_def)
  show ?thesis
    unfolding hasMorePaginatedItems_def JObj
    by (simp add: u js_Number_simps isObject_def)
qed (simp_all add: hasMorePaginatedItems_def)

lemma fetchPages_run:
  assumes "page \<le> n"
    and "\<forall>p. page \<le> p \<and> p < n \<longrightarrow> continues rt respond pageSize p"
    and "\<not> continues rt respond pageSize n"
  shows "fetchPages rt respond pageSize page acc =
     (case respond n of
        Inl e \<Rightarrow> Some (Inl e)
      | Inr final \<Rightarrow>
          Some (Inr (acc @ concat (map (items_at respond) [page..<Suc n]), final, n)))"
  using assms
proof (induction "n - page" arbitrary: page acc)
  case 0
  then have "page = n" by simp
  then show ?case
    using "0.prems"(3)
    by (subst fetchPages.simps)
      (simp add: continues_def items_at_def response_at_def Let_def split: sum.splits)
next
  case (Suc d)
  then have lt: "page < n" by simp
  then have c: "continues rt respond pageSize page"
    using Suc.prems(2) by simp
  then obtain r where r: "respond page = Inr r"
    by (auto simp: continues_def split: sum.splits)
  have more: "hasMorePaginatedItems rt r page pageSize (length (extractPaginatedItems r))"
    using c r by (simp add: continues_def)
  have step: "fetchPages rt respond pageSize page acc
      = fetchPages rt respond pageSize (Suc page) (acc @ extractPaginatedItems r)"
    by (subst fetchPages.simps) (simp add: r more Let_def)
  have ih: "fetchPages rt respond pageSize (Suc page) (acc @ extractPaginatedItems r) =
     (case respond n of
        Inl e \<Rightarrow> Some (Inl e)
      | Inr final \<Rightarrow>
          Some (Inr ((acc @ extractPaginatedItems r)
                  @ concat (map (items_at respond) [Suc page..<Suc n]), final, n)))"
    using Suc.hyps(1) [of "Suc page"] Suc.hyps(2) Suc.prems lt by auto
  have items: "items_at respond page = extractPaginatedItems r"
    by (simp add: items_at_def response_at_def r)
  have "[page..<Suc n] = page # [Suc page..<Suc n]"
    using lt by (simp add: upt_conv_Cons)
  then show ?case
    unfolding step ih by (simp add: items split: sum.splits)
qed

lemma fetchPages_forever:
  assumes "\<forall>p \<ge> 1. continues rt respond pageSize p" and "1 \<le> page"
  shows "fetchPages rt respond pageSize page acc = None"
proof (cases "fetchPages rt respond pageSize page acc")
  case None
  then show ?thesis .
next
  case (Some y)
  have "rt = rt \<and> respond = respond \<and> pageSize = pageSize \<and> 1 \<le> page \<longrightarrow> False"
  proof (rule fetchPages.raw_induct [where P = "\<lambda>rt' respond' pageSize' page' acc' y'.
      rt' = rt \<and> respond' = respond \<and> pageSize' = pageSize \<and> 1 \<le> page' \<longrightarrow> False", OF _ Some])
    fix f :: "runtime \<Rightarrow> (nat \<Rightarrow> error + jsval) \<Rightarrow> jsnum \<Rightarrow> nat \<Rightarrow> jsval list
        \<Rightarrow> (error + jsval list \<times> jsval \<times> nat) option"
      and rt' respond' pageSize' page' acc' y'
    assume IH: "\<And>rt'' respond'' pageSize'' page'' acc'' y''.
        f rt'' respond'' pageSize'' page'' acc'' = Some y'' \<Longrightarrow>
        rt'' = rt \<and> respond'' = respond \<and> pageSize'' = pageSize \<and> 1 \<le> page'' \<longrightarrow> False"
    assume step: "(case respond' page' of
        Inl e \<Rightarrow> Some (Inl e)
      | Inr response \<Rightarrow>
          let pageItems = extractPaginatedItems response; aggregated = acc' @ pageItems
          in if \<not> hasMorePaginatedItems rt' response page' pageSize' (length pageItems)
             then Some (Inr (aggregated, response, page'))
             else f rt' respond' pageSize' (page' + 1) aggregated) = Some y'"
    show "rt' = rt \<and> respond' = respond \<and> pageSize' = pageSize \<and> 1 \<le> page' \<longrightarrow> False"
    proof
      assume eq: "rt' = rt \<and> respond' = respond \<and> pageSize' = pageSize \<and> 1 \<le> page'"
      then have "continues rt respond pageSize page'"
        using assms(1) by simp
      then obtain r where r: "respond page' = Inr r"
        and more: "hasMorePaginatedItems rt r page' pageSize (length (extractPaginatedItems r))"
        by (cases "respond page'") (auto simp: continues_def)
      from step eq r more
      have "f rt respond pageSize (page' + 1) (acc' @ extractPaginatedItems r) = Some y'"
        by (simp add: Let_def)
      from IH [OF this] eq show False by simp
    qed
  qed
  with assms(2) show ?thesis by simp
qed

lemma fetchPages_returns:
  assumes "1 \<le> n" "\<not> continues rt respond pageSize n"
  shows "fetchPages rt respond pageSize 1 [] \<noteq> None"
proof -
  define m where "m = (LEAST k. 1 \<le> k \<and> \<not> continues rt respond pageSize k)"
  have "1 \<le> n \<and> \<not> continues rt respond pageSize n"
    using assms by simp
  then have m: "1 \<le> m \<and> \<not> continues rt respond pageSize m"
    unfolding m_def by (rule LeastI)
  have before: "continues rt respond pageSize p" if "1 \<le> p" "p < m" for p
  proof (rule ccontr)
    assume "\<not> continues rt respond pageSize p"
    with that(1) have "m \<le> p"
      unfolding m_def by (intro Least_le) simp
    with that(2) show False by simp
  qed
  have run: "fetchPages rt respond pageSize 1 [] =
     (case respond m of
        Inl e \<Rightarrow> Some (Inl e)
      | Inr final \<Rightarrow>
          Some (Inr ([] @ concat (map (items_at respond) [1..<Suc m]), final, m)))"
  proof (rule fetchPages_run)
    show "1 \<le> m" using m by simp
    show "\<forall>p. 1 \<le> p \<and> p < m \<longrightarrow> continues rt respond pageSize p"
      using before by simp
    show "\<not> continues rt respond pageSize m" using m by simp
  qed
  show ?thesis
    unfolding run by (cases "respond m") simp_all
qed

lemma paged_until_run:
  assumes "1 \<le> n" "paged_until respond n"
  shows "fetchPages rt respond pageSize 1 [] = stopped_at respond n"
proof -
  have at: "case respond p of
      Inr r \<Rightarrow> (case page_numbers r of Some (c, l) \<Rightarrow> (c < l) = (p < n) | None \<Rightarrow> False)
    | Inl e \<Rightarrow> False" if "1 \<le> p" "p \<le> n" for p
    using assms(2) that by (simp add: paged_until_def)
  have a: "continues rt respond pageSize p = (p < n)" if "1 \<le> p" "p \<le> n" for p
    using at [OF that]
    by (cases "respond p") (auto simp: continues_def hasMore_page_numbers split: option.splits)
  obtain final where "respond n = Inr final"
    using at [of n] assms(1) by (cases "respond n") auto
  then show ?thesis
    using fetchPages_run [of 1 n rt respond pageSize "[]"] a assms(1)
    by (simp add: stopped_at_def response_at_def)
qed

lemma plain_until_run:
  assumes "1 \<le> n" "n \<le> 1000" "plain_until respond pageSize n"
  shows "fetchPages rt respond pageSize 1 [] = stopped_at respond n"
proof -
  have at: "case respond p of
      Inr r \<Rightarrow> no_metadata r \<and> full_page pageSize r = (p < n)
    | Inl e \<Rightarrow> False" if "1 \<le> p" "p \<le> n" for p
    using assms(3) that by (simp add: plain_until_def)
  have a: "continues rt respond pageSize p = (p < n)" if "1 \<le> p" "p \<le> n" for p
    using at [OF that] that assms(2)
    by (cases "respond p")
      (auto simp: continues_def hasMore_no_metadata fullPageBelowCeiling_def full_page_def)
  obtain final where "respond n = Inr final"
    using at [of n] assms(1) by (cases "respond n") auto
  then show ?thesis
    using fetchPages_run [of 1 n rt respond pageSize "[]"] a assms(1)
    by (simp add: stopped_at_def response_at_def)
qed

lemma plain_full_run:
  assumes "plain_full respond pageSize"
  shows "fetchPages rt respond pageSize 1 [] = stopped_at respond 1000"
proof -
  have at: "case respond p of
      Inr r \<Rightarrow> no_metadata r \<and> full_page pageSize r
    | Inl e \<Rightarrow> False" if "1 \<le> p" "p \<le> 1000" for p
    using assms that by (simp add: plain_full_def)
  have a: "continues rt respond pageSize p = (p < 1000)" if "1 \<le> p" "p \<le> 1000" for p
    using at [OF that] that
    by (cases "respond p")
      (auto simp: continues_def hasMore_no_metadata fullPageBelowCeiling_def full_page_def)
  obtain final where fin: "respond 1000 = Inr final"
    using at [of 1000] by (cases "respond 1000") auto
  have run: "fetchPages rt respond pageSize 1 [] =
     (case respond 1000 of
        Inl e \<Rightarrow> Some (Inl e)
      | Inr final \<Rightarrow>
          Some (Inr ([] @ concat (map (items_at respond) [1..<Suc 1000]), final, 1000)))"
    by (rule fetchPages_run) (use a in auto)
  show ?thesis
    unfolding run stopped_at_def response_at_def fin
    by (simp only: sum.case append_Nil)
qed

lemma stuck_page_numbers:
  "page_numbers (JObj [(''current_page'', JNum (Fin 1)), (''last_page'', JNum (Fin 2)),
       (''data'', JArr [JObj [(''id'', JNum (Fin 7))]])]) = Some (1, 2)"
  by (simp add: page_numbers_def get_prop_def finite_number_def)

lemma stuck_continues: "continues rt stuck_respond pageSize p"
  unfolding continues_def stuck_respond_def sum.case
  by (subst hasMore_page_numbers [OF stuck_page_numbers]) simp

text \<open>
  C3, as stated, fails: the loop does not terminate for every response sequence. The
  ceiling of 1000 pages is only part of the fallback for responses without metadata;
  when every response reports \<open>current_page\<close> 1 of \<open>last_page\<close> 2, the loop never
  returns.
\<close>

theorem pagination_counterexample:
  "fetchPages example_runtime stuck_respond (Fin 50) 1 [] = None"
  by (rule fetchPages_forever) (simp_all add: stuck_continues)

definition three_pages :: "nat \<Rightarrow> error + jsval" where
  "three_pages p =
     Inr (JObj [(''current_page'', JNum (Fin (of_nat p))), (''last_page'', JNum (Fin 3)),
                (''data'', JArr [JNum (Fin (of_nat p))])])"

definition short_second_page :: "nat \<Rightarrow> error + jsval" where
  "short_second_page p =
     Inr (JArr (if p < 2 then [JStr ''a'', JStr ''b''] else [JStr ''c'']))"

definition always_full :: "nat \<Rightarrow> error + jsval" where
  "always_full p = Inr (JArr [JStr ''a'', JStr ''b''])"

text \<open>
  C3 (amended): the fetch-all loop returns exactly when the response to some page does
  not signal more (or fails); it runs forever when every response signals more. When the
  responses expose numeric \<open>current_page\<close> and \<open>last_page\<close> with \<open>last_page > 0\<close>, it
  stops on the first page \<open>n\<close> whose \<open>current_page\<close> is not below \<open>last_page\<close>; when
  the responses carry no pagination metadata, it stops on the first page \<open>n \<le> 1000\<close>
  that returns fewer items than the page size, and on page 1000 when all of the first
  1000 pages are full. In each case it has accumulated the items of pages 1 to \<open>n\<close>,
  whose number is the sum of the page item counts.
\<close>

theorem pagination_stopping_points:
  "((\<forall>p \<ge> 1. continues rt respond pageSize p) \<longrightarrow>
      fetchPages rt respond pageSize 1 [] = None) \<and>
   ((\<exists>p \<ge> 1. \<not> continues rt respond pageSize p) \<longrightarrow>
      fetchPages rt respond pageSize 1 [] \<noteq> None) \<and>
   (1 \<le> n \<and> paged_until respond n \<longrightarrow>
      fetchPages rt respond pageSize 1 [] = stopped_at respond n) \<and>
   (1 \<le> n \<and> n \<le> 1000 \<and> plain_until respond pageSize n \<longrightarrow>
      fetchPages rt respond pageSize 1 [] = stopped_at respond n) \<and>
   (plain_full respond pageSize \<longrightarrow>
      fetchPages rt respond pageSize 1 [] = stopped_at respond 1000) \<and>
   length (concat (map (items_at respond) [1..<Suc n]))
     = sum_list (map (\<lambda>p. length (items_at respond p)) [1..<Suc n])"
proof (intro conjI impI)
  assume "\<forall>p \<ge> 1. continues rt respond pageSize p"
  then show "fetchPages rt respond pageSize 1 [] = None"
    by (rule fetchPages_forever) simp
next
  assume "\<exists>p \<ge> 1. \<not> continues rt respond pageSize p"
  then obtain p where "1 \<le> p" "\<not> continues rt respond pageSize p" by blast
  then show "fetchPages rt respond pageSize 1 [] \<noteq> None"
    by (rule fetchPages_returns)
next
  assume "1 \<le> n \<and> paged_until respond n"
  then show "fetchPages rt respond pageSize 1 [] = stopped_at respond n"
    using paged_until_run by blast
next
  assume "1 \<le> n \<and> n \<le> 1000 \<and> plain_until respond pageSize n"
  then show "fetchPages rt respond pageSize 1 [] = stopped_at respond n"
    using plain_until_run by blast
next
  assume "plain_full respond pageSize"
  then show "fetchPages rt respond pageSize 1 [] = stopped_at respond 1000"
    by (rule plain_full_run)
next
  show "length (concat (map (items_at respond) [1..<Suc n]))
     = sum_list (map (\<lambda>p. length (items_at respond p)) [1..<Suc n])"
    by (simp add: length_concat comp_def)
qed

theorem pagination_stopping_points_witness:
  "paged_until three_pages 3 \<and>
   fetchPages example_runtime three_pages (Fin 50) 1 [] =
     Some (Inr ([JObj [(''value'', JNum (Fin 1))], JObj [(''value'', JNum (Fin 2))],
                 JObj [(''value'', JNum (Fin 3))]],
                JObj [(''current_page'', JNum (Fin 3)), (''last_page'', JNum (Fin 3)),
                      (''data'', JArr [JNum (Fin 3)])], 3)) \<and>
   plain_until short_second_page (Fin 2) 2 \<and>
   fetchPages example_runtime short_second_page (Fin 2) 1 [] =
     Some (Inr ([JObj [(''value'', JStr ''a'')], JObj [(''value'', JStr ''b'')],
                 JObj [(''value'', JStr ''c'')]], JArr [JStr ''c''], 2)) \<and>
   plain_full always_full (Fin 2) \<and>
   fetchPages example_runtime always_full (Fin 2) 1 [] = stopped_at always_full 1000 \<and>
   fetchPages example_runtime stuck_respond (Fin 2) 1 [] = None \<and>
   fetchPages example_runtime always_full (Fin 2) 1 [] \<noteq> None"
proof -
  note t = pagination_stopping_points [where rt = example_runtime]
  have h1: "paged_until three_pages 3"
    by (simp add: paged_until_def three_pages_def page_numbers_def get_prop_def
        finite_number_def)
  have v1: "stopped_at three_pages 3 =
     Some (Inr ([JObj [(''value'', JNum (Fin 1))], JObj [(''value'', JNum (Fin 2))],
                 JObj [(''value'', JNum (Fin 3))]],
                JObj [(''current_page'', JNum (Fin 3)), (''last_page'', JNum (Fin 3)),
                      (''data'', JArr [JNum (Fin 3)])], 3))"
    by code_simp
  have c1: "fetchPages example_runtime three_pages (Fin 50) 1 [] = stopped_at three_pages 3"
    using t [where respond = three_pages and pageSize = "Fin 50" and n = 3] h1 by simp
  have h2: "plain_until short_second_page (Fin 2) 2"
    by (auto simp: plain_until_def short_second_page_def no_metadata_def full_page_def
        extractPaginatedItems_def toDataObjectArray_def num_ge_def num_lt_def)
  have v2: "stopped_at short_second_page 2 =
     Some (Inr ([JObj [(''value'', JStr ''a'')], JObj [(''value'', JStr ''b'')],
                 JObj [(''value'', JStr ''c'')]], JArr [JStr ''c''], 2))"
    by code_simp
  have c2: "fetchPages example_runtime short_second_page (Fin 2) 1 []
      = stopped_at short_second_page 2"
    using t [where respond = short_second_page and pageSize = "Fin 2" and n = 2] h2 by simp
  have h3: "plain_full always_full (Fin 2)"
    by (simp add: plain_full_def always_full_def no_metadata_def full_page_def
        extractPaginatedItems_def toDataObjectArray_def num_ge_def num_lt_def)
  have c3: "fetchPages example_runtime always_full (Fin 2) 1 [] = stopped_at always_full 1000"
    using t [where respond = always_full and pageSize = "Fin 2" and n = 1] h3 by blast
  have c4: "fetchPages example_runtime stuck_respond (Fin 2) 1 [] = None"
    using t [where respond = stuck_respond and pageSize = "Fin 2" and n = 1] stuck_continues
    by blast
  have "\<not> continues example_runtime always_full (Fin 2) 1000"
    by (simp add: continues_def always_full_def hasMorePaginatedItems_def
        fullPageBelowCeiling_def)
  then have "\<exists>p \<ge> 1. \<not> continues example_runtime always_full (Fin 2) p"
    by (intro exI [of _ 1000]) simp
  then have c5: "fetchPages example_runtime always_full (Fin 2) 1 [] \<noteq> None"
    using t [where respond = always_full and pageSize = "Fin 2" and n = 1] by blast
  from h1 c1 v1 h2 c2 v2 h3 c3 c4 c5 show ?thesis
    by simp
qed

section \<open>Request orchestrator\<close>

record INodeExecutionData =
  json :: jsval
  pairedItem :: "nat option"

text \<open>Modelled from the spec: the host helper \<open>returnJsonArray\<close>, which is not part
  of the sources; a bare array becomes one output record per element.\<close>

definition returnJsonArray :: "jsval list \<Rightarrow> INodeExecutionData list" where
  "returnJsonArray xs = map (\<lambda>x. \<lparr>json = x, pairedItem = None\<rparr>) xs"

text \<open>The last branch is reached by \<open>undefined\<close> only, and
  \<open>JSON.stringify(undefined)\<close> is \<open>undefined\<close>.\<close>

definition normalizeResponseData :: "jsval \<Rightarrow> INodeExecutionData list" where
  "normalizeResponseData d =
     (case d of
        JArr xs \<Rightarrow> returnJsonArray xs
      | JObj kvs \<Rightarrow> [\<lparr>json = d, pairedItem = None\<rparr>]
      | JUndefined \<Rightarrow> [\<lparr>json = JObj [(''value'', JUndefined)], pairedItem = None\<rparr>]
      | _ \<Rightarrow> [\<lparr>json = JObj [(''value'', d)], pairedItem = None\<rparr>])"

fun getOperationMetadata ::
  "runtime \<Rightarrow> IResourceMeta list \<Rightarrow> jsval \<Rightarrow> jsval \<Rightarrow> error + IOperationMeta" where
  "getOperationMetadata rt [] resourceKey operation =
     Inl (ApplicationError (''Unknown operation '' @ quoted (js_String rt operation)
            @ '' for resource '' @ quoted (js_String rt resourceKey)))"
| "getOperationMetadata rt (resourceEntry # resources) resourceKey operation =
     (if JStr (resourceValue resourceEntry) \<noteq> resourceKey
      then getOperationMetadata rt resources resourceKey operation
      else
        (case find (\<lambda>operationEntry. JStr (operationValue operationEntry) = operation)
                (operations resourceEntry) of
           Some operationEntry \<Rightarrow> Inr operationEntry
         | None \<Rightarrow> getOperationMetadata rt resources resourceKey operation))"

text \<open>RESOLVE, PATH, QUERY and BODY: the request of an item, with its operation and
  \<open>useGetAllWithPagination\<close>.\<close>

definition buildRequest ::
  "runtime \<Rightarrow> host \<Rightarrow> IResourceMeta list \<Rightarrow> nat
   \<Rightarrow> error + (IOperationMeta \<times> IHttpRequestOptions \<times> jsval)" where
  "buildRequest rt h resources itemIndex =
     (case getNodeParameter h ''resource'' itemIndex of
        Inl e \<Rightarrow> Inl e
      | Inr resourceKey \<Rightarrow>
     (case getNodeParameter h ''operation'' itemIndex of
        Inl e \<Rightarrow> Inl e
      | Inr operationKey \<Rightarrow>
     (case getOperationMetadata rt resources resourceKey operationKey of
        Inl e \<Rightarrow> Inl e
      | Inr operationMeta \<Rightarrow>
     (case substitutePath rt h itemIndex operationMeta (pathUi operationMeta)
             (path operationMeta) of
        Inl e \<Rightarrow> Inl e
      | Inr endpointPath \<Rightarrow>
     (case assembleQuery rt h itemIndex operationMeta of
        Inl e \<Rightarrow> Inl e
      | Inr (query, useGetAllWithPagination) \<Rightarrow>
     (case assembleBody rt h itemIndex operationMeta
             \<lparr>url = buildKeycrmUrl endpointPath, request_method = http_method operationMeta,
              qs = query, body = None, headers = None\<rparr> of
        Inl e \<Rightarrow> Inl e
      | Inr requestOptions \<Rightarrow>
          Inr (operationMeta, requestOptions, useGetAllWithPagination)))))))"

text \<open>What the fetch-all branch pushes after its loop.\<close>

definition paginatedOutput :: "jsval list \<Rightarrow> jsval \<Rightarrow> INodeExecutionData list" where
  "paginatedOutput aggregatedItems lastResponse =
     (if aggregatedItems \<noteq> [] then returnJsonArray aggregatedItems
      else if lastResponse \<noteq> JUndefined then normalizeResponseData lastResponse
      else [])"

definition paginatedRequestOptions ::
  "IHttpRequestOptions \<Rightarrow> IQuerySimpleField \<Rightarrow> IQuerySimpleField \<Rightarrow> jsnum \<Rightarrow> nat
   \<Rightarrow> IHttpRequestOptions" where
  "paginatedRequestOptions requestOptions pageField limitField pageSize page =
     requestOptions
       \<lparr>qs := set_prop (set_prop (qs requestOptions) (name pageField) (JNum (Fin (of_nat page))))
                (name limitField) (JNum pageSize)\<rparr>"

text \<open>DISPATCH and NORMALIZE: the records of an item, an error, or no result when the
  fetch-all loop does not end.\<close>

definition dispatch ::
  "runtime \<Rightarrow> host \<Rightarrow> nat \<Rightarrow> IOperationMeta \<Rightarrow> IHttpRequestOptions \<Rightarrow> jsval
   \<Rightarrow> (error + INodeExecutionData list) option" where
  "dispatch rt h itemIndex operationMeta requestOptions useGetAllWithPagination =
     (case (js_Boolean useGetAllWithPagination,
            findField ''page'' (simple (queryUi operationMeta)),
            findField ''limit'' (simple (queryUi operationMeta))) of
        (True, Some pageField, Some limitField) \<Rightarrow>
          (let pageSize = resolvePageSize rt limitField in
             case fetchPages rt
                    (\<lambda>page. httpRequestWithAuthentication h itemIndex
                       (paginatedRequestOptions requestOptions pageField limitField pageSize page))
                    pageSize 1 [] of
               None \<Rightarrow> None
             | Some (Inl e) \<Rightarrow> Some (Inl e)
             | Some (Inr (aggregatedItems, lastResponse, page)) \<Rightarrow>
                 Some (Inr (paginatedOutput aggregatedItems lastResponse)))
      | _ \<Rightarrow>
          (case httpRequestWithAuthentication h itemIndex requestOptions of
             Inl e \<Rightarrow> Some (Inl e)
           | Inr response \<Rightarrow> Some (Inr (normalizeResponseData response))))"

text \<open>The body of the \<open>try\<close>.\<close>

definition processItem ::
  "runtime \<Rightarrow> host \<Rightarrow> IResourceMeta list \<Rightarrow> nat \<Rightarrow> (error + INodeExecutionData list) option"
  where
  "processItem rt h resources itemIndex =
     (case buildRequest rt h resources itemIndex of
        Inl e \<Rightarrow> Some (Inl e)
      | Inr (operationMeta, requestOptions, useGetAllWithPagination) \<Rightarrow>
          dispatch rt h itemIndex operationMeta requestOptions useGetAllWithPagination)"

text \<open>The \<open>catch\<close>: an error record when the host continues on failure; otherwise the
  error is thrown on, wrapped unless it is a \<open>NodeOperationError\<close> already.\<close>

definition errorRecord :: "error \<Rightarrow> nat \<Rightarrow> INodeExecutionData" where
  "errorRecord e itemIndex =
     \<lparr>json = JObj [(''error'', JStr (message e))], pairedItem = Some itemIndex\<rparr>"

definition rethrow :: "error \<Rightarrow> error" where
  "rethrow e = (case e of NodeOperationError m \<Rightarrow> e | _ \<Rightarrow> NodeOperationError (message e))"

definition executeItem ::
  "runtime \<Rightarrow> host \<Rightarrow> IResourceMeta list \<Rightarrow> nat \<Rightarrow> (error + INodeExecutionData list) option"
  where
  "executeItem rt h resources itemIndex =
     (case processItem rt h resources itemIndex of
        None \<Rightarrow> None
      | Some (Inr records) \<Rightarrow> Some (Inr records)
      | Some (Inl e) \<Rightarrow>
          if continueOnFail h then Some (Inr [errorRecord e itemIndex])
          else Some (Inl (rethrow e)))"

fun executeItems ::
  "runtime \<Rightarrow> host \<Rightarrow> IResourceMeta list \<Rightarrow> nat list \<Rightarrow> INodeExecutionData list
   \<Rightarrow> (error + INodeExecutionData list) option" where
  "executeItems rt h resources [] returnData = Some (Inr returnData)"
| "executeItems rt h resources (itemIndex # rest) returnData =
     (case executeItem rt h resources itemIndex of
        None \<Rightarrow> None
      | Some (Inl e) \<Rightarrow> Some (Inl e)
      | Some (Inr records) \<Rightarrow> executeItems rt h resources rest (returnData @ records))"

definition execute ::
  "runtime \<Rightarrow> host \<Rightarrow> IResourceMeta list \<Rightarrow> nat \<Rightarrow> (error + INodeExecutionData list) option"
  where
  "execute rt h resources itemCount = executeItems rt h resources [0..<itemCount] []"

section \<open>Path substitution in the dispatched request\<close>

text \<open>What the value the host supplies for a path field makes of the field: it fills
  the placeholder, is skipped, or fails the item.\<close>

definition fills :: "host \<Rightarrow> nat \<Rightarrow> IOperationMeta \<Rightarrow> IPathUiField \<Rightarrow> bool" where
  "fills h itemIndex operationMeta pathField =
     (case nodeParameter h (pathParamName operationMeta pathField) itemIndex of
        Some v \<Rightarrow> \<not> isEmptyValue v
      | None \<Rightarrow> False)"

definition skips :: "host \<Rightarrow> nat \<Rightarrow> IOperationMeta \<Rightarrow> IPathUiField \<Rightarrow> bool" where
  "skips h itemIndex operationMeta pathField =
     (case nodeParameter h (pathParamName operationMeta pathField) itemIndex of
        Some v \<Rightarrow> isEmptyValue v \<and> \<not> required pathField
      | None \<Rightarrow> False)"

definition fails :: "host \<Rightarrow> nat \<Rightarrow> IOperationMeta \<Rightarrow> IPathUiField \<Rightarrow> bool" where
  "fails h itemIndex operationMeta pathField =
     (case nodeParameter h (pathParamName operationMeta pathField) itemIndex of
        Some v \<Rightarrow> isEmptyValue v \<and> required pathField
      | None \<Rightarrow> False)"

text \<open>The path after the loop, in the words of the claim: in the order of the fields,
  each value that is not empty replaces the first occurrence of the placeholder of its
  field by its URL-encoded form, and every other field leaves the path as it is.\<close>

fun substituted ::
  "runtime \<Rightarrow> host \<Rightarrow> nat \<Rightarrow> IOperationMeta \<Rightarrow> IPathUiField list \<Rightarrow> string \<Rightarrow> string" where
  "substituted rt h itemIndex operationMeta [] endpointPath = endpointPath"
| "substituted rt h itemIndex operationMeta (pathField # rest) endpointPath =
     substituted rt h itemIndex operationMeta rest
       (case nodeParameter h (pathParamName operationMeta pathField) itemIndex of
          Some v \<Rightarrow>
            if isEmptyValue v then endpointPath
            else replace_first endpointPath (placeholder pathField)
                   (encodeURIComponent (js_String rt v))
        | None \<Rightarrow> endpointPath)"

lemma substitutePathField_supplied:
  "nodeParameter h (pathParamName operationMeta pathField) itemIndex = Some v \<Longrightarrow>
   substitutePathField rt h itemIndex operationMeta endpointPath pathField =
     (if isEmptyValue v then
        (if required pathField
         then Inl (NodeOperationError (''Missing path parameter '' @ quoted (name pathField)))
         else Inr endpointPath)
      else Inr (replace_first endpointPath (placeholder pathField)
                  (encodeURIComponent (js_String rt v))))"
  by (simp add: substitutePathField_def getNodeParameter_def)

lemma substitutePath_substituted:
  "list_all (\<lambda>f. fills h itemIndex operationMeta f \<or> skips h itemIndex operationMeta f) fs \<Longrightarrow>
   substitutePath rt h itemIndex operationMeta fs endpointPath
     = Inr (substituted rt h itemIndex operationMeta fs endpointPath)"
proof (induction fs arbitrary: endpointPath)
  case Nil
  show ?case by simp
next
  case (Cons f fs)
  then obtain v where v: "nodeParameter h (pathParamName operationMeta f) itemIndex = Some v"
    and ok: "\<not> isEmptyValue v \<or> \<not> required f"
    by (cases "nodeParameter h (pathParamName operationMeta f) itemIndex")
      (auto simp: fills_def skips_def)
  have rest: "list_all (\<lambda>f. fills h itemIndex operationMeta f \<or> skips h itemIndex operationMeta f) fs"
    using Cons.prems by simp
  show ?case
    using ok by (auto simp: substitutePathField_supplied [OF v] v Cons.IH [OF rest])
qed

lemma substitutePath_fails:
  assumes "list_all (\<lambda>f. fills h itemIndex operationMeta f \<or> skips h itemIndex operationMeta f) pre"
    and "fails h itemIndex operationMeta f"
  shows "substitutePath rt h itemIndex operationMeta (pre @ f # post) endpointPath
     = Inl (NodeOperationError (''Missing path parameter '' @ quoted (name f)))"
  using assms(1)
proof (induction pre arbitrary: endpointPath)
  case Nil
  from assms(2) obtain v where v: "nodeParameter h (pathParamName operationMeta f) itemIndex = Some v"
    and e: "isEmptyValue v" "required f"
    by (cases "nodeParameter h (pathParamName operationMeta f) itemIndex")
      (auto simp: fails_def)
  show ?case
    by (simp add: substitutePathField_supplied [OF v] e)
next
  case (Cons g pre)
  then obtain v where v: "nodeParameter h (pathParamName operationMeta g) itemIndex = Some v"
    and ok: "\<not> isEmptyValue v \<or> \<not> required g"
    by (cases "nodeParameter h (pathParamName operationMeta g) itemIndex")
      (auto simp: fills_def skips_def)
  have rest: "list_all (\<lambda>f. fills h itemIndex operationMeta f \<or> skips h itemIndex operationMeta f) pre"
    using Cons.prems by simp
  show ?case
    using ok by (auto simp: substitutePathField_supplied [OF v] Cons.IH [OF rest])
qed

lemma substituted_skips:
  "list_all (skips h itemIndex operationMeta) fs \<Longrightarrow>
   substituted rt h itemIndex operationMeta fs endpointPath = endpointPath"
proof (induction fs)
  case Nil
  show ?case by simp
next
  case (Cons f fs)
  then show ?case
    by (cases "nodeParameter h (pathParamName operationMeta f) itemIndex")
      (auto simp: skips_def)
qed

lemma assembleBody_url:
  assumes "assembleBody rt h itemIndex operationMeta requestOptions = Inr requestOptions'"
  shows "url requestOptions' = url requestOptions"
proof (cases "bodyUi operationMeta")
  case None
  with assms show ?thesis by (simp add: assembleBody_def)
next
  case (Some ui)
  show ?thesis
  proof (cases "multipart ui")
    case True
    with assms Some show ?thesis
      by (auto simp: assembleBody_def split: sum.splits)
  next
    case False
    with assms Some show ?thesis
      by (auto simp: assembleBody_def split: sum.splits if_splits)
  qed
qed

lemma buildRequest_url:
  assumes "buildRequest rt h resources itemIndex
      = Inr (operationMeta, requestOptions, useGetAllWithPagination)"
  shows "\<exists>endpointPath.
      substitutePath rt h itemIndex operationMeta (pathUi operationMeta) (path operationMeta)
        = Inr endpointPath
      \<and> url requestOptions = buildKeycrmUrl endpointPath"
proof -
  from assms obtain resourceKey where
    "getNodeParameter h ''resource'' itemIndex = Inr resourceKey"
    by (cases "getNodeParameter h ''resource'' itemIndex") (simp_all add: buildRequest_def)
  note a = this
  from assms a obtain operationKey where
    "getNodeParameter h ''operation'' itemIndex = Inr operationKey"
    by (cases "getNodeParameter h ''operation'' itemIndex") (simp_all add: buildRequest_def)
  note b = this
  from assms a b obtain om where
    "getOperationMetadata rt resources resourceKey operationKey = Inr om"
    by (cases "getOperationMetadata rt resources resourceKey operationKey")
      (simp_all add: buildRequest_def)
  note c = this
  from assms a b c obtain ep where
    "substitutePath rt h itemIndex om (pathUi om) (path om) = Inr ep"
    by (cases "substitutePath rt h itemIndex om (pathUi om) (path om)")
      (simp_all add: buildRequest_def)
  note d = this
  from assms a b c d obtain q g where
    "assembleQuery rt h itemIndex om = Inr (q, g)"
    by (cases "assembleQuery rt h itemIndex om") (auto simp: buildRequest_def)
  note e = this
  from assms a b c d e obtain req where
    f: "assembleBody rt h itemIndex om
      \<lparr>url = buildKeycrmUrl ep, request_method = http_method om, qs = q, body = None,
       headers = None\<rparr> = Inr req"
    by (cases "assembleBody rt h itemIndex om
      \<lparr>url = buildKeycrmUrl ep, request_method = http_method om, qs = q, body = None,
       headers = None\<rparr>") (simp_all add: buildRequest_def)
  from assms a b c d e f have "om = operationMeta" "req = requestOptions"
    by (simp_all add: buildRequest_def)
  with d assembleBody_url [OF f] show ?thesis
    by auto
qed

lemma processItem_single:
  assumes "buildRequest rt h resources itemIndex = Inr (operationMeta, requestOptions, g)"
    and "\<not> js_Boolean g"
  shows "processItem rt h resources itemIndex =
     (case httpRequestWithAuthentication h itemIndex requestOptions of
        Inl e \<Rightarrow> Some (Inl e)
      | Inr response \<Rightarrow> Some (Inr (normalizeResponseData response)))"
  using assms by (simp add: processItem_def dispatch_def)

lemma substitutePath_skips:
  assumes "skips h itemIndex operationMeta f"
  shows "substitutePath rt h itemIndex operationMeta (earlier @ f # later) endpointPath
     = substitutePath rt h itemIndex operationMeta (earlier @ later) endpointPath"
proof (induction earlier arbitrary: endpointPath)
  case Nil
  from assms obtain v where v: "nodeParameter h (pathParamName operationMeta f) itemIndex = Some v"
    and e: "isEmptyValue v" "\<not> required f"
    by (cases "nodeParameter h (pathParamName operationMeta f) itemIndex")
      (auto simp: skips_def)
  show ?case
    by (simp add: substitutePathField_supplied [OF v] e)
next
  case (Cons g earlier)
  show ?case
    by (cases "substitutePathField rt h itemIndex operationMeta endpointPath g")
      (simp_all add: Cons.IH)
qed

lemma processItem_path_error:
  assumes "getNodeParameter h ''resource'' itemIndex = Inr resourceKey"
    and "getNodeParameter h ''operation'' itemIndex = Inr operationKey"
    and "getOperationMetadata rt resources resourceKey operationKey = Inr operationMeta"
    and "substitutePath rt h itemIndex operationMeta (pathUi operationMeta) (path operationMeta)
      = Inl e"
  shows "processItem rt h resources itemIndex = Some (Inl e)"
  using assms by (simp add: processItem_def buildRequest_def)

lemma substitutePath_keeps_placeholder:
  assumes "brace_free (name f)"
    and "list_all (\<lambda>g. fills h itemIndex operationMeta g
          \<longrightarrow> brace_free (name g) \<and> name g \<noteq> name f) fs"
    and "js_includes endpointPath (placeholder f)"
    and "substitutePath rt h itemIndex operationMeta fs endpointPath = Inr finalPath"
  shows "js_includes finalPath (placeholder f)"
  using assms(2-4)
proof (induction fs arbitrary: endpointPath)
  case Nil
  then show ?case by simp
next
  case (Cons g fs)
  from Cons.prems(3) obtain nextPath where
    step: "substitutePathField rt h itemIndex operationMeta endpointPath g = Inr nextPath"
    and rest: "substitutePath rt h itemIndex operationMeta fs nextPath = Inr finalPath"
    by (cases "substitutePathField rt h itemIndex operationMeta endpointPath g") simp_all
  from step obtain v where
    v: "nodeParameter h (pathParamName operationMeta g) itemIndex = Some v"
    by (cases "nodeParameter h (pathParamName operationMeta g) itemIndex")
      (simp_all add: substitutePathField_def getNodeParameter_def)
  have inc: "js_includes nextPath (placeholder f)"
  proof (cases "isEmptyValue v")
    case True
    with step have "nextPath = endpointPath"
      by (simp add: substitutePathField_supplied [OF v] split: if_splits)
    with Cons.prems(2) show ?thesis by simp
  next
    case False
    then have "fills h itemIndex operationMeta g"
      by (simp add: fills_def v)
    with Cons.prems(1) have g: "brace_free (name g)" "name f \<noteq> name g"
      by auto
    from False step have "nextPath = replace_first endpointPath (placeholder g)
        (encodeURIComponent (js_String rt v))"
      by (simp add: substitutePathField_supplied [OF v])
    then show ?thesis
      using replace_first_keeps_placeholder [OF Cons.prems(2) assms(1) g] by simp
  qed
  have others: "list_all (\<lambda>g. fills h itemIndex operationMeta g
      \<longrightarrow> brace_free (name g) \<and> name g \<noteq> name f) fs"
    using Cons.prems(1) by simp
  show ?case
    using others inc rest by (rule Cons.IH)
qed

lemma buildRequest_keeps_placeholder:
  assumes "buildRequest rt h resources itemIndex
      = Inr (operationMeta, requestOptions, useGetAllWithPagination)"
    and "brace_free (name f)"
    and "list_all (\<lambda>g. fills h itemIndex operationMeta g
          \<longrightarrow> brace_free (name g) \<and> name g \<noteq> name f) (pathUi operationMeta)"
    and "js_includes (path operationMeta) (placeholder f)"
  shows "js_includes (url requestOptions) (placeholder f)"
proof -
  from buildRequest_url [OF assms(1)] obtain finalPath where
    p: "substitutePath rt h itemIndex operationMeta (pathUi operationMeta) (path operationMeta)
      = Inr finalPath"
    and u: "url requestOptions = buildKeycrmUrl finalPath"
    by blast
  have "js_includes finalPath (placeholder f)"
    using assms(2,3,4) p by (rule substitutePath_keeps_placeholder)
  then have "js_includes (''/'' @ finalPath) (placeholder f)"
    "js_includes (KEYCRM_BASE_URL @ finalPath) (placeholder f)"
    by (rule js_includes_append)+
  then have "js_includes (KEYCRM_BASE_URL @ ''/'' @ finalPath) (placeholder f)"
    using js_includes_append by blast
  with \<open>js_includes (KEYCRM_BASE_URL @ finalPath) (placeholder f)\<close> show ?thesis
    unfolding u buildKeycrmUrl_def by simp
qed

definition order_resource :: "IPathUiField \<Rightarrow> IResourceMeta" where
  "order_resource pathField =
     \<lparr>resourceValue = ''order'',
      operations = [getOrderItem\<lparr>pathUi := [id_field, pathField]\<rparr>]\<rparr>"

definition order_item_url :: string where
  "order_item_url = ''https://openapi.keycrm.app/v1/order/a%20b/items/{id}/{opt}''"

text \<open>A host that holds \<open>a b\<close> for \<open>id\<close> and a blank for \<open>opt\<close>, and answers only at
  \<open>order_item_url\<close>.\<close>

definition order_host :: host where
  "order_host =
     \<lparr>nodeParameter = (\<lambda>n i. map_of
        [(''resource'', JStr ''order''), (''operation'', JStr ''getOrderItem''),
         (''path__getorderitem__id'', JStr ''a b''), (''path__getorderitem__opt'', JStr '' '')] n),
      assertBinaryData = (\<lambda>i n. Inl (HostError ''no binary data'')),
      httpRequestWithAuthentication =
        (\<lambda>i r. if url r = order_item_url then Inr (JObj [(''id'', JNum (Fin 7))])
               else Inl (HostError ''Not found'')),
      continueOnFail = False\<rparr>"

definition get_order_item :: IHttpRequestOptions where
  "get_order_item =
     \<lparr>url = order_item_url, request_method = ''GET'', qs = [], body = None, headers = None\<rparr>"

lemma buildRequest_order:
  "buildRequest example_runtime order_host [order_resource optional_field] 0
     = Inr (getOrderItem, get_order_item, JBool False)"
  by code_simp

text \<open>
  C10: in the path-substitution step of the orchestrator, for each path field with a
  supplied value: a value that is not empty replaces the first occurrence of the
  placeholder \<open>{name}\<close> in the path, and only that one, by the URL-encoded value; an
  empty value (undefined, null, a blank string) of a field that is not required leaves
  the path as it is, placeholder included; an empty value of a required field is the
  error \<open>Missing path parameter "name"\<close>. The loop over the path fields makes these
  replacements in the order of the fields when no required field is empty, stops with
  the error of the first required field that is empty, runs as if a skipped field were
  not in the list, and returns the template when every field is skipped. The URL of
  the request of an item is the base URL followed by the path the loop returns, a
  single request is sent to the transport with that URL, the requests of the fetch-all
  loop keep it, and an error of the loop is the error of the item. The placeholder of
  a field stays in the path the loop returns, and so in the URL of the request, when
  the template has it and no field that is filled has its name, the names being free of
  braces.
\<close>

theorem path_substitution:
  "(nodeParameter h (pathParamName operationMeta pathField) itemIndex = Some v
      \<and> \<not> isEmptyValue v \<longrightarrow>
      substitutePathField rt h itemIndex operationMeta endpointPath pathField =
        Inr (replace_first endpointPath (placeholder pathField)
               (encodeURIComponent (js_String rt v)))) \<and>
   (nodeParameter h (pathParamName operationMeta pathField) itemIndex = Some v
      \<and> \<not> isEmptyValue v \<and> first_occurrence (placeholder pathField) pre post \<longrightarrow>
      substitutePathField rt h itemIndex operationMeta
          (pre @ placeholder pathField @ post) pathField =
        Inr (pre @ encodeURIComponent (js_String rt v) @ post)) \<and>
   (nodeParameter h (pathParamName operationMeta pathField) itemIndex = Some v
      \<and> isEmptyValue v \<and> \<not> required pathField \<longrightarrow>
      substitutePathField rt h itemIndex operationMeta endpointPath pathField =
        Inr endpointPath) \<and>
   (nodeParameter h (pathParamName operationMeta pathField) itemIndex = Some v
      \<and> isEmptyValue v \<and> required pathField \<longrightarrow>
      substitutePathField rt h itemIndex operationMeta endpointPath pathField =
        Inl (NodeOperationError (''Missing path parameter '' @ quoted (name pathField)))) \<and>
   (list_all (\<lambda>f. fills h itemIndex operationMeta f \<or> skips h itemIndex operationMeta f)
        pathFields \<longrightarrow>
      substitutePath rt h itemIndex operationMeta pathFields endpointPath
        = Inr (substituted rt h itemIndex operationMeta pathFields endpointPath)) \<and>
   (list_all (\<lambda>f. fills h itemIndex operationMeta f \<or> skips h itemIndex operationMeta f)
        earlier \<and> fails h itemIndex operationMeta pathField \<longrightarrow>
      substitutePath rt h itemIndex operationMeta (earlier @ pathField # later) endpointPath
        = Inl (NodeOperationError (''Missing path parameter '' @ quoted (name pathField)))) \<and>
   (skips h itemIndex operationMeta pathField \<longrightarrow>
      substitutePath rt h itemIndex operationMeta (earlier @ pathField # later) endpointPath
        = substitutePath rt h itemIndex operationMeta (earlier @ later) endpointPath) \<and>
   (list_all (skips h itemIndex operationMeta) pathFields \<longrightarrow>
      substitutePath rt h itemIndex operationMeta pathFields endpointPath = Inr endpointPath) \<and>
   (buildRequest rt h resources itemIndex
        = Inr (operationMeta, requestOptions, useGetAllWithPagination) \<longrightarrow>
      (\<exists>substitutedPath.
         substitutePath rt h itemIndex operationMeta (pathUi operationMeta) (path operationMeta)
           = Inr substitutedPath
         \<and> url requestOptions = buildKeycrmUrl substitutedPath)) \<and>
   (buildRequest rt h resources itemIndex
        = Inr (operationMeta, requestOptions, useGetAllWithPagination)
      \<and> \<not> js_Boolean useGetAllWithPagination \<longrightarrow>
      processItem rt h resources itemIndex =
        (case httpRequestWithAuthentication h itemIndex requestOptions of
           Inl e \<Rightarrow> Some (Inl e)
         | Inr response \<Rightarrow> Some (Inr (normalizeResponseData response)))) \<and>
   url (paginatedRequestOptions requestOptions pageField limitField pageSize page)
     = url requestOptions \<and>
   (getNodeParameter h ''resource'' itemIndex = Inr resourceKey
      \<and> getNodeParameter h ''operation'' itemIndex = Inr operationKey
      \<and> getOperationMetadata rt resources resourceKey operationKey = Inr operationMeta
      \<and> substitutePath rt h itemIndex operationMeta (pathUi operationMeta) (path operationMeta)
          = Inl e \<longrightarrow>
      processItem rt h resources itemIndex = Some (Inl e)) \<and>
   (brace_free (name pathField)
      \<and> list_all (\<lambda>f. fills h itemIndex operationMeta f
            \<longrightarrow> brace_free (name f) \<and> name f \<noteq> name pathField) pathFields
      \<and> js_includes endpointPath (placeholder pathField)
      \<and> substitutePath rt h itemIndex operationMeta pathFields endpointPath = Inr finalPath
      \<longrightarrow> js_includes finalPath (placeholder pathField)) \<and>
   (buildRequest rt h resources itemIndex
        = Inr (operationMeta, requestOptions, useGetAllWithPagination)
      \<and> brace_free (name pathField)
      \<and> list_all (\<lambda>f. fills h itemIndex operationMeta f
            \<longrightarrow> brace_free (name f) \<and> name f \<noteq> name pathField) (pathUi operationMeta)
      \<and> js_includes (path operationMeta) (placeholder pathField)
      \<longrightarrow> js_includes (url requestOptions) (placeholder pathField))"
proof (intro conjI impI)
  show "substitutePathField rt h itemIndex operationMeta endpointPath pathField =
      Inr (replace_first endpointPath (placeholder pathField)
             (encodeURIComponent (js_String rt v)))"
    if "nodeParameter h (pathParamName operationMeta pathField) itemIndex = Some v
      \<and> \<not> isEmptyValue v"
    using that by (simp add: substitutePathField_supplied)
  show "substitutePathField rt h itemIndex operationMeta
        (pre @ placeholder pathField @ post) pathField =
      Inr (pre @ encodeURIComponent (js_String rt v) @ post)"
    if "nodeParameter h (pathParamName operationMeta pathField) itemIndex = Some v
      \<and> \<not> isEmptyValue v \<and> first_occurrence (placeholder pathField) pre post"
    using that by (simp add: substitutePathField_supplied replace_first_at_first_occurrence)
  show "substitutePathField rt h itemIndex operationMeta endpointPath pathField =
      Inr endpointPath"
    if "nodeParameter h (pathParamName operationMeta pathField) itemIndex = Some v
      \<and> isEmptyValue v \<and> \<not> required pathField"
    using that by (simp add: substitutePathField_supplied)
  show "substitutePathField rt h itemIndex operationMeta endpointPath pathField =
      Inl (NodeOperationError (''Missing path parameter '' @ quoted (name pathField)))"
    if "nodeParameter h (pathParamName operationMeta pathField) itemIndex = Some v
      \<and> isEmptyValue v \<and> required pathField"
    using that by (simp add: substitutePathField_supplied)
  show "substitutePath rt h itemIndex operationMeta pathFields endpointPath
      = Inr (substituted rt h itemIndex operationMeta pathFields endpointPath)"
    if "list_all (\<lambda>f. fills h itemIndex operationMeta f \<or> skips h itemIndex operationMeta f)
        pathFields"
    using that by (rule substitutePath_substituted)
  show "substitutePath rt h itemIndex operationMeta (earlier @ pathField # later) endpointPath
      = Inl (NodeOperationError (''Missing path parameter '' @ quoted (name pathField)))"
    if "list_all (\<lambda>f. fills h itemIndex operationMeta f \<or> skips h itemIndex operationMeta f)
        earlier \<and> fails h itemIndex operationMeta pathField"
    using that substitutePath_fails by blast
  show "substitutePath rt h itemIndex operationMeta (earlier @ pathField # later) endpointPath
      = substitutePath rt h itemIndex operationMeta (earlier @ later) endpointPath"
    if "skips h itemIndex operationMeta pathField"
    using that by (rule substitutePath_skips)
  show "substitutePath rt h itemIndex operationMeta pathFields endpointPath = Inr endpointPath"
    if s: "list_all (skips h itemIndex operationMeta) pathFields"
  proof -
    from s have "list_all (\<lambda>f. fills h itemIndex operationMeta f
        \<or> skips h itemIndex operationMeta f) pathFields"
      by (simp add: list_all_iff)
    then show ?thesis
      by (simp add: substitutePath_substituted substituted_skips [OF s])
  qed
  show "\<exists>substitutedPath.
      substitutePath rt h itemIndex operationMeta (pathUi operationMeta) (path operationMeta)
        = Inr substitutedPath
      \<and> url requestOptions = buildKeycrmUrl substitutedPath"
    if "buildRequest rt h resources itemIndex
        = Inr (operationMeta, requestOptions, useGetAllWithPagination)"
    using that by (rule buildRequest_url)
  show "processItem rt h resources itemIndex =
      (case httpRequestWithAuthentication h itemIndex requestOptions of
         Inl e \<Rightarrow> Some (Inl e)
       | Inr response \<Rightarrow> Some (Inr (normalizeResponseData response)))"
    if "buildRequest rt h resources itemIndex
        = Inr (operationMeta, requestOptions, useGetAllWithPagination)
      \<and> \<not> js_Boolean useGetAllWithPagination"
    using that processItem_single by blast
  show "url (paginatedRequestOptions requestOptions pageField limitField pageSize page)
      = url requestOptions"
    by (simp add: paginatedRequestOptions_def)
  show "processItem rt h resources itemIndex = Some (Inl e)"
    if "getNodeParameter h ''resource'' itemIndex = Inr resourceKey
      \<and> getNodeParameter h ''operation'' itemIndex = Inr operationKey
      \<and> getOperationMetadata rt resources resourceKey operationKey = Inr operationMeta
      \<and> substitutePath rt h itemIndex operationMeta (pathUi operationMeta) (path operationMeta)
          = Inl e"
    using that processItem_path_error by blast
  show "js_includes finalPath (placeholder pathField)"
    if "brace_free (name pathField)
      \<and> list_all (\<lambda>f. fills h itemIndex operationMeta f
            \<longrightarrow> brace_free (name f) \<and> name f \<noteq> name pathField) pathFields
      \<and> js_includes endpointPath (placeholder pathField)
      \<and> substitutePath rt h itemIndex operationMeta pathFields endpointPath = Inr finalPath"
    using that substitutePath_keeps_placeholder by blast
  show "js_includes (url requestOptions) (placeholder pathField)"
    if "buildRequest rt h resources itemIndex
        = Inr (operationMeta, requestOptions, useGetAllWithPagination)
      \<and> brace_free (name pathField)
      \<and> list_all (\<lambda>f. fills h itemIndex operationMeta f
            \<longrightarrow> brace_free (name f) \<and> name f \<noteq> name pathField) (pathUi operationMeta)
      \<and> js_includes (path operationMeta) (placeholder pathField)"
    using that buildRequest_keeps_placeholder by blast
qed

theorem path_substitution_witness:
  "nodeParameter order_host (pathParamName getOrderItem id_field) 0 = Some (JStr ''a b'') \<and>
   \<not> isEmptyValue (JStr ''a b'') \<and>
   first_occurrence (placeholder id_field) ''/order/'' ''/items/{id}/{opt}'' \<and>
   substitutePathField example_runtime order_host 0 getOrderItem
       ''/order/{id}/items/{id}/{opt}'' id_field = Inr ''/order/a%20b/items/{id}/{opt}'' \<and>
   nodeParameter order_host (pathParamName getOrderItem optional_field) 0 = Some (JStr '' '') \<and>
   isEmptyValue (JStr '' '') \<and> \<not> required optional_field \<and>
   substitutePathField example_runtime order_host 0 getOrderItem
       ''/order/a%20b/items/{id}/{opt}'' optional_field = Inr ''/order/a%20b/items/{id}/{opt}'' \<and>
   substitutePathField example_runtime order_host 0 getOrderItem
       ''/order/a%20b/items/{id}/{opt}'' (optional_field\<lparr>required := True\<rparr>)
     = Inl (NodeOperationError (''Missing path parameter '' @ quoted ''opt'')) \<and>
   list_all (\<lambda>f. fills order_host 0 getOrderItem f \<or> skips order_host 0 getOrderItem f)
     [id_field, optional_field] \<and>
   substitutePath example_runtime order_host 0 getOrderItem [id_field, optional_field]
       ''/order/{id}/items/{id}/{opt}'' = Inr ''/order/a%20b/items/{id}/{opt}'' \<and>
   fails order_host 0 getOrderItem (optional_field\<lparr>required := True\<rparr>) \<and>
   substitutePath example_runtime order_host 0 getOrderItem
       ([id_field] @ optional_field\<lparr>required := True\<rparr> # [id_field])
       ''/order/{id}/items/{id}/{opt}''
     = Inl (NodeOperationError (''Missing path parameter '' @ quoted ''opt'')) \<and>
   skips order_host 0 getOrderItem optional_field \<and>
   substitutePath example_runtime order_host 0 getOrderItem
       ([] @ optional_field # [id_field]) ''/order/{id}/items/{id}/{opt}''
     = Inr ''/order/a%20b/items/{id}/{opt}'' \<and>
   substitutePath example_runtime order_host 0 getOrderItem [optional_field]
       ''/order/{id}/items/{id}/{opt}'' = Inr ''/order/{id}/items/{id}/{opt}'' \<and>
   buildRequest example_runtime order_host [order_resource optional_field] 0
     = Inr (getOrderItem, get_order_item, JBool False) \<and>
   url get_order_item = buildKeycrmUrl ''/order/a%20b/items/{id}/{opt}'' \<and>
   processItem example_runtime order_host [order_resource optional_field] 0
     = Some (Inr [\<lparr>json = JObj [(''id'', JNum (Fin 7))], pairedItem = None\<rparr>]) \<and>
   processItem example_runtime order_host
       [order_resource (optional_field\<lparr>required := True\<rparr>)] 0
     = Some (Inl (NodeOperationError (''Missing path parameter '' @ quoted ''opt''))) \<and>
   brace_free (name optional_field) \<and>
   list_all (\<lambda>f. fills order_host 0 getOrderItem f
       \<longrightarrow> brace_free (name f) \<and> name f \<noteq> name optional_field) [id_field, optional_field] \<and>
   js_includes ''/order/{id}/items/{id}/{opt}'' (placeholder optional_field) \<and>
   js_includes ''/order/a%20b/items/{id}/{opt}'' (placeholder optional_field) \<and>
   js_includes (url get_order_item) (placeholder optional_field)"
proof -
  let ?tmpl = "''/order/{id}/items/{id}/{opt}''"
  let ?req = "optional_field\<lparr>required := True\<rparr>"
  let ?err = "NodeOperationError (''Missing path parameter '' @ quoted ''opt'')"
  note t = path_substitution [where rt = example_runtime and h = order_host and itemIndex = 0]
  have p1: "nodeParameter order_host (pathParamName getOrderItem id_field) 0 = Some (JStr ''a b'')"
    by code_simp
  have p2: "nodeParameter order_host (pathParamName getOrderItem optional_field) 0
      = Some (JStr '' '')"
    by code_simp
  have p3: "nodeParameter order_host (pathParamName getOrderItem ?req) 0 = Some (JStr '' '')"
    by code_simp
  have e1: "\<not> isEmptyValue (JStr ''a b'')" by code_simp
  have e2: "isEmptyValue (JStr '' '')" by code_simp
  have f: "first_occurrence (placeholder id_field) ''/order/'' ''/items/{id}/{opt}''"
    by (simp add: first_occurrence_def occurs_at_def placeholder_def id_field_def less_Suc_eq
        all_conj_distrib)
  have enc: "encodeURIComponent ''a b'' = ''a%20b''"
    by code_simp
  have pl: "placeholder id_field = ''{id}''"
    by (simp add: placeholder_def id_field_def)
  have r: "\<not> required optional_field" "required ?req"
    by (simp_all add: optional_field_def)
  have n: "name ?req = ''opt''"
    by (simp add: optional_field_def)
  have "substitutePathField example_runtime order_host 0 getOrderItem
       (''/order/'' @ placeholder id_field @ ''/items/{id}/{opt}'') id_field
     = Inr (''/order/'' @ encodeURIComponent (js_String example_runtime (JStr ''a b''))
         @ ''/items/{id}/{opt}'')"
    using t [where operationMeta = getOrderItem and pathField = id_field
        and v = "JStr ''a b''" and pre = "''/order/''" and post = "''/items/{id}/{opt}''",
        THEN conjunct2, THEN conjunct1]
      p1 e1 f
    by blast
  then have s1: "substitutePathField example_runtime order_host 0 getOrderItem
       ?tmpl id_field = Inr ''/order/a%20b/items/{id}/{opt}''"
    by (simp add: enc pl)
  have s2: "substitutePathField example_runtime order_host 0 getOrderItem
       ''/order/a%20b/items/{id}/{opt}'' optional_field = Inr ''/order/a%20b/items/{id}/{opt}''"
    using t [where operationMeta = getOrderItem and pathField = optional_field
        and v = "JStr '' ''" and endpointPath = "''/order/a%20b/items/{id}/{opt}''",
        THEN conjunct2, THEN conjunct2, THEN conjunct1]
      p2 e2 r(1)
    by blast
  have s3: "substitutePathField example_runtime order_host 0 getOrderItem
       ''/order/a%20b/items/{id}/{opt}'' ?req = Inl ?err"
    using t [where operationMeta = getOrderItem and pathField = ?req
        and v = "JStr '' ''" and endpointPath = "''/order/a%20b/items/{id}/{opt}''",
        THEN conjunct2, THEN conjunct2, THEN conjunct2, THEN conjunct1]
      p3 e2 r(2)
    unfolding n by blast
  have fi: "fills order_host 0 getOrderItem id_field"
    using e1 by (simp add: fills_def p1)
  have sk: "skips order_host 0 getOrderItem optional_field"
    using e2 r(1) by (simp add: skips_def p2)
  have fa: "fails order_host 0 getOrderItem ?req"
    using e2 r(2) by (simp add: fails_def p3)
  have la: "list_all (\<lambda>f. fills order_host 0 getOrderItem f \<or> skips order_host 0 getOrderItem f)
      [id_field, optional_field]"
    by (simp add: fi sk)
  have l1: "list_all (\<lambda>f. fills order_host 0 getOrderItem f \<or> skips order_host 0 getOrderItem f)
      [id_field]"
    by (simp add: fi)
  have su: "substituted example_runtime order_host 0 getOrderItem [id_field, optional_field]
      ?tmpl = ''/order/a%20b/items/{id}/{opt}''"
    by code_simp
  have s4: "substitutePath example_runtime order_host 0 getOrderItem
      [id_field, optional_field] ?tmpl = Inr ''/order/a%20b/items/{id}/{opt}''"
    using t [where operationMeta = getOrderItem
        and pathFields = "[id_field, optional_field]" and endpointPath = ?tmpl,
        THEN conjunct2, THEN conjunct2, THEN conjunct2, THEN conjunct2, THEN conjunct1] la
    by (simp only: su)
  have s5: "substitutePath example_runtime order_host 0 getOrderItem
      ([id_field] @ ?req # [id_field]) ?tmpl = Inl ?err"
    using t [where operationMeta = getOrderItem and earlier = "[id_field]"
        and pathField = ?req and later = "[id_field]" and endpointPath = ?tmpl,
        THEN conjunct2, THEN conjunct2, THEN conjunct2, THEN conjunct2, THEN conjunct2, THEN conjunct1] l1 fa
    unfolding n by blast
  have one: "substitutePath example_runtime order_host 0 getOrderItem [id_field] ?tmpl
      = Inr ''/order/a%20b/items/{id}/{opt}''"
    by (simp add: s1)
  have s6: "substitutePath example_runtime order_host 0 getOrderItem
      ([] @ optional_field # [id_field]) ?tmpl = Inr ''/order/a%20b/items/{id}/{opt}''"
    using t [where operationMeta = getOrderItem and earlier = "[]"
        and pathField = optional_field and later = "[id_field]" and endpointPath = ?tmpl,
        THEN conjunct2, THEN conjunct2, THEN conjunct2, THEN conjunct2, THEN conjunct2, THEN conjunct2, THEN conjunct1] sk one
    by simp
  have s7: "substitutePath example_runtime order_host 0 getOrderItem [optional_field] ?tmpl
      = Inr ?tmpl"
    using t [where operationMeta = getOrderItem and pathFields = "[optional_field]"
        and endpointPath = ?tmpl,
        THEN conjunct2, THEN conjunct2, THEN conjunct2, THEN conjunct2, THEN conjunct2, THEN conjunct2, THEN conjunct2, THEN conjunct1] sk
    by simp
  have b: "buildRequest example_runtime order_host [order_resource optional_field] 0
      = Inr (getOrderItem, get_order_item, JBool False)"
    by (rule buildRequest_order)
  have pu: "pathUi getOrderItem = [id_field, optional_field]" "path getOrderItem = ?tmpl"
    by (simp_all add: getOrderItem_def)
  have s4': "substitutePath example_runtime order_host 0 getOrderItem (pathUi getOrderItem)
      (path getOrderItem) = Inr ''/order/a%20b/items/{id}/{opt}''"
    using s4 by (simp only: pu)
  from t [where resources = "[order_resource optional_field]"
        and operationMeta = getOrderItem and requestOptions = get_order_item
        and useGetAllWithPagination = "JBool False",
        THEN conjunct2, THEN conjunct2, THEN conjunct2, THEN conjunct2, THEN conjunct2,
        THEN conjunct2, THEN conjunct2, THEN conjunct2, THEN conjunct1] b
  obtain substitutedPath where
    sp: "substitutePath example_runtime order_host 0 getOrderItem (pathUi getOrderItem)
      (path getOrderItem) = Inr substitutedPath"
    and u: "url get_order_item = buildKeycrmUrl substitutedPath"
    by blast
  from sp s4' have "substitutedPath = ''/order/a%20b/items/{id}/{opt}''"
    by simp
  with u have s8: "url get_order_item = buildKeycrmUrl ''/order/a%20b/items/{id}/{opt}''"
    by simp
  have g: "\<not> js_Boolean (JBool False)"
    by (simp add: js_Boolean_def)
  have hr: "httpRequestWithAuthentication order_host 0 get_order_item
      = Inr (JObj [(''id'', JNum (Fin 7))])"
    by (simp add: order_host_def get_order_item_def)
  have s9: "processItem example_runtime order_host [order_resource optional_field] 0
      = Some (Inr [\<lparr>json = JObj [(''id'', JNum (Fin 7))], pairedItem = None\<rparr>])"
    using t [where resources = "[order_resource optional_field]"
        and operationMeta = getOrderItem and requestOptions = get_order_item
        and useGetAllWithPagination = "JBool False",
        THEN conjunct2, THEN conjunct2, THEN conjunct2, THEN conjunct2, THEN conjunct2, THEN conjunct2, THEN conjunct2, THEN conjunct2, THEN conjunct2, THEN conjunct1] b g
    by (simp add: hr normalizeResponseData_def)
  let ?strict = "getOrderItem\<lparr>pathUi := [id_field, ?req]\<rparr>"
  have k: "getNodeParameter order_host ''resource'' 0 = Inr (JStr ''order'')"
    "getNodeParameter order_host ''operation'' 0 = Inr (JStr ''getOrderItem'')"
    "getOperationMetadata example_runtime [order_resource ?req] (JStr ''order'')
       (JStr ''getOrderItem'') = Inr ?strict"
    "substitutePath example_runtime order_host 0 ?strict (pathUi ?strict) (path ?strict)
       = Inl ?err"
    by code_simp+
  have s10: "processItem example_runtime order_host [order_resource ?req] 0 = Some (Inl ?err)"
    using t [where resources = "[order_resource ?req]" and operationMeta = ?strict
        and resourceKey = "JStr ''order''" and operationKey = "JStr ''getOrderItem''"
        and e = ?err, THEN conjunct2, THEN conjunct2, THEN conjunct2, THEN conjunct2,
        THEN conjunct2, THEN conjunct2, THEN conjunct2, THEN conjunct2, THEN conjunct2,
        THEN conjunct2, THEN conjunct2, THEN conjunct1] k
    by blast
  have bo: "brace_free (name optional_field)"
    by code_simp
  have nf: "\<not> fills order_host 0 getOrderItem optional_field"
    using e2 by (simp add: fills_def p2)
  have bi: "brace_free (name id_field) \<and> name id_field \<noteq> name optional_field"
    by code_simp
  have ka: "list_all (\<lambda>f. fills order_host 0 getOrderItem f
      \<longrightarrow> brace_free (name f) \<and> name f \<noteq> name optional_field) [id_field, optional_field]"
    using nf bi by simp
  have i1: "js_includes ?tmpl (placeholder optional_field)"
    by code_simp
  have s11: "js_includes ''/order/a%20b/items/{id}/{opt}'' (placeholder optional_field)"
    using t [where operationMeta = getOrderItem and pathField = optional_field
        and pathFields = "[id_field, optional_field]" and endpointPath = ?tmpl
        and finalPath = "''/order/a%20b/items/{id}/{opt}''",
        THEN conjunct2, THEN conjunct2, THEN conjunct2, THEN conjunct2, THEN conjunct2,
        THEN conjunct2, THEN conjunct2, THEN conjunct2, THEN conjunct2, THEN conjunct2,
        THEN conjunct2, THEN conjunct2, THEN conjunct1] bo ka i1 s4
    by blast
  have s12: "js_includes (url get_order_item) (placeholder optional_field)"
    using t [where resources = "[order_resource optional_field]"
        and operationMeta = getOrderItem and requestOptions = get_order_item
        and useGetAllWithPagination = "JBool False" and pathField = optional_field,
        THEN conjunct2, THEN conjunct2, THEN conjunct2, THEN conjunct2, THEN conjunct2,
        THEN conjunct2, THEN conjunct2, THEN conjunct2, THEN conjunct2, THEN conjunct2,
        THEN conjunct2, THEN conjunct2, THEN conjunct2] b bo ka i1
    unfolding pu by blast
  from p1 e1 f s1 p2 e2 r(1) s2 s3 la s4 fa s5 sk s6 s7 b s8 s9 s10 bo ka i1 s11 s12
  show ?thesis
    by blast
qed

section \<open>Output records of an item\<close>

definition listBuyers :: IOperationMeta where
  "listBuyers =
     \<lparr>operationValue = ''listBuyers'', operationId = ''listBuyers'', http_method = ''GET'',
      path = ''/buyer'', pathUi = [], queryUi = empty_query, bodyUi = None\<rparr>"

definition buyer_resource :: IResourceMeta where
  "buyer_resource = \<lparr>resourceValue = ''buyer'', operations = [listBuyers]\<rparr>"

definition buyer_host :: "(error + jsval) \<Rightarrow> bool \<Rightarrow> host" where
  "buyer_host response continue =
     \<lparr>nodeParameter = (\<lambda>n i. map_of
        [(''resource'', JStr ''buyer''), (''operation'', JStr ''listBuyers'')] n),
      assertBinaryData = (\<lambda>i n. Inl (HostError ''no binary data'')),
      httpRequestWithAuthentication = (\<lambda>i r. response),
      continueOnFail = continue\<rparr>"

definition get_buyers :: IHttpRequestOptions where
  "get_buyers =
     \<lparr>url = ''https://openapi.keycrm.app/v1/buyer'', request_method = ''GET'', qs = [],
      body = None, headers = None\<rparr>"

lemma buildRequest_buyers:
  "buildRequest example_runtime (buyer_host response continue) [buyer_resource] 0
     = Inr (listBuyers, get_buyers, JBool False)"
  by code_simp

text \<open>
  C5, as stated, fails: an empty array response is normalized to no record at all, so
  the item yields neither a data record nor an error record.
\<close>

theorem normalize_counterexample:
  "normalizeResponseData (JArr []) = [] \<and>
   executeItem example_runtime (buyer_host (Inr (JArr [])) True) [buyer_resource] 0
     = Some (Inr [])"
  by code_simp

text \<open>A response that is neither an array nor an object: null, a string, a number, a
  boolean, or undefined.\<close>

definition scalar :: "jsval \<Rightarrow> bool" where
  "scalar d = (case d of JArr xs \<Rightarrow> False | JObj kvs \<Rightarrow> False | _ \<Rightarrow> True)"

lemma length_normalizeResponseData:
  "length (normalizeResponseData d) = (case d of JArr xs \<Rightarrow> length xs | _ \<Rightarrow> 1)"
  by (cases d) (simp_all add: normalizeResponseData_def returnJsonArray_def)

lemma normalizeResponseData_empty: "normalizeResponseData d = [] \<longleftrightarrow> d = JArr []"
  by (cases d) (simp_all add: normalizeResponseData_def returnJsonArray_def)

lemma normalizeResponseData_scalar:
  "scalar d \<Longrightarrow> normalizeResponseData d = [\<lparr>json = JObj [(''value'', d)], pairedItem = None\<rparr>]"
  by (cases d) (simp_all add: normalizeResponseData_def scalar_def)

lemma paginatedOutput_empty:
  "paginatedOutput aggregatedItems lastResponse = [] \<longleftrightarrow>
   aggregatedItems = [] \<and> (lastResponse = JUndefined \<or> lastResponse = JArr [])"
  by (simp add: paginatedOutput_def returnJsonArray_def normalizeResponseData_empty)

lemma executeItem_single:
  assumes "buildRequest rt h resources i = Inr (operationMeta, requestOptions, g)"
    and "\<not> js_Boolean g"
    and "httpRequestWithAuthentication h i requestOptions = Inr response"
  shows "executeItem rt h resources i = Some (Inr (normalizeResponseData response))"
proof -
  have "dispatch rt h i operationMeta requestOptions g
      = Some (Inr (normalizeResponseData response))"
    using assms(2,3) by (simp add: dispatch_def)
  then show ?thesis
    using assms(1) by (simp add: executeItem_def processItem_def)
qed

text \<open>The loop of the fetch-all branch of an item: the request for a page is the request
  of the item with the page and the page size in its query.\<close>

definition fetchAll ::
  "runtime \<Rightarrow> host \<Rightarrow> nat \<Rightarrow> IHttpRequestOptions \<Rightarrow> IQuerySimpleField \<Rightarrow> IQuerySimpleField
   \<Rightarrow> (error + jsval list \<times> jsval \<times> nat) option" where
  "fetchAll rt h itemIndex requestOptions pageField limitField =
     fetchPages rt
       (\<lambda>page. httpRequestWithAuthentication h itemIndex
          (paginatedRequestOptions requestOptions pageField limitField
             (resolvePageSize rt limitField) page))
       (resolvePageSize rt limitField) 1 []"

lemma processItem_fetchAll:
  assumes "buildRequest rt h resources i = Inr (operationMeta, requestOptions, g)"
    and "js_Boolean g"
    and "findField ''page'' (simple (queryUi operationMeta)) = Some pageField"
    and "findField ''limit'' (simple (queryUi operationMeta)) = Some limitField"
  shows "processItem rt h resources i =
     (case fetchAll rt h i requestOptions pageField limitField of
        None \<Rightarrow> None
      | Some (Inl e) \<Rightarrow> Some (Inl e)
      | Some (Inr (aggregatedItems, lastResponse, page)) \<Rightarrow>
          Some (Inr (paginatedOutput aggregatedItems lastResponse)))"
  using assms by (simp add: processItem_def dispatch_def fetchAll_def Let_def)

lemma executeItem_fetchAll:
  assumes "buildRequest rt h resources i = Inr (operationMeta, requestOptions, g)"
    and "js_Boolean g"
    and "findField ''page'' (simple (queryUi operationMeta)) = Some pageField"
    and "findField ''limit'' (simple (queryUi operationMeta)) = Some limitField"
    and "fetchAll rt h i requestOptions pageField limitField
      = Some (Inr (aggregatedItems, lastResponse, page))"
  shows "executeItem rt h resources i = Some (Inr (paginatedOutput aggregatedItems lastResponse))"
  by (simp add: executeItem_def processItem_fetchAll [OF assms(1-4)] assms(5))

lemma processItem_one_request:
  assumes "buildRequest rt h resources i = Inr (operationMeta, requestOptions, g)"
    and "\<not> js_Boolean g \<or> findField ''page'' (simple (queryUi operationMeta)) = None
      \<or> findField ''limit'' (simple (queryUi operationMeta)) = None"
  shows "processItem rt h resources i =
     (case httpRequestWithAuthentication h i requestOptions of
        Inl e \<Rightarrow> Some (Inl e)
      | Inr response \<Rightarrow> Some (Inr (normalizeResponseData response)))"
proof -
  have "dispatch rt h i operationMeta requestOptions g =
     (case httpRequestWithAuthentication h i requestOptions of
        Inl e \<Rightarrow> Some (Inl e)
      | Inr response \<Rightarrow> Some (Inr (normalizeResponseData response)))"
    using assms(2) by (auto simp: dispatch_def split: option.splits bool.splits)
  then show ?thesis
    using assms(1) by (simp add: processItem_def)
qed

definition page_field :: IQuerySimpleField where
  "page_field =
     \<lparr>name = ''page'', apiPath = ''page'', required = False, schemaType = TInteger,
      maximum = None, default_value = JUndefined, example = JUndefined\<rparr>"

definition limit_field :: IQuerySimpleField where
  "limit_field =
     \<lparr>name = ''limit'', apiPath = ''limit'', required = False, schemaType = TInteger,
      maximum = Some (Fin 2), default_value = JUndefined, example = JUndefined\<rparr>"

definition listBuyersPaged :: IOperationMeta where
  "listBuyersPaged = listBuyers\<lparr>queryUi := empty_query\<lparr>simple := [page_field, limit_field]\<rparr>\<rparr>"

definition paged_resource :: IResourceMeta where
  "paged_resource = \<lparr>resourceValue = ''buyer'', operations = [listBuyersPaged]\<rparr>"

definition buyer :: "int \<Rightarrow> jsval" where
  "buyer n = JObj [(''id'', JNum (Fin (of_int n)))]"

text \<open>A host in fetch-all mode whose transport answers the request for each page with
  the given pages, by the page number in the query of the request.\<close>

definition paged_host :: "(jsval \<Rightarrow> error + jsval) \<Rightarrow> host" where
  "paged_host pages =
     \<lparr>nodeParameter = (\<lambda>n i. map_of
        [(''resource'', JStr ''buyer''), (''operation'', JStr ''listBuyers'')] n),
      assertBinaryData = (\<lambda>i n. Inl (HostError ''no binary data'')),
      httpRequestWithAuthentication = (\<lambda>i r. pages (get_prop (qs r) ''page'')),
      continueOnFail = False\<rparr>"

definition three_buyers :: "jsval \<Rightarrow> error + jsval" where
  "three_buyers page =
     (if page = JNum (Fin 1) then Inr (JArr [buyer 1, buyer 2])
      else if page = JNum (Fin 2) then Inr (JArr [buyer 3])
      else Inl (HostError ''Not found''))"

definition no_buyers :: "jsval \<Rightarrow> error + jsval" where
  "no_buyers page = Inr (JArr [])"

lemma buildRequest_paged:
  "buildRequest example_runtime (paged_host pages) [paged_resource] 0
     = Inr (listBuyersPaged, get_buyers, JBool True)"
  by code_simp

lemma paged_fields:
  "findField ''page'' (simple (queryUi listBuyersPaged)) = Some page_field"
  "findField ''limit'' (simple (queryUi listBuyersPaged)) = Some limit_field"
  by code_simp+

lemma fetchAll_three_buyers:
  "fetchAll example_runtime (paged_host three_buyers) 0 get_buyers page_field limit_field
     = Some (Inr ([buyer 1, buyer 2, buyer 3], JArr [buyer 3], 2))"
proof -
  define pageSize where "pageSize = resolvePageSize example_runtime limit_field"
  define respond where "respond =
    (\<lambda>page. httpRequestWithAuthentication (paged_host three_buyers) 0
      (paginatedRequestOptions get_buyers page_field limit_field pageSize page))"
  have c: "continues example_runtime respond pageSize 1"
    "\<not> continues example_runtime respond pageSize 2"
    unfolding respond_def pageSize_def by code_simp+
  have r: "respond 2 = Inr (JArr [buyer 3])"
    unfolding respond_def pageSize_def by code_simp
  have i: "items_at respond 1 = [buyer 1, buyer 2]" "items_at respond 2 = [buyer 3]"
    unfolding respond_def pageSize_def by code_simp+
  have all: "\<forall>p. 1 \<le> p \<and> p < 2 \<longrightarrow> continues example_runtime respond pageSize p"
  proof (intro allI impI)
    fix p :: nat
    assume "1 \<le> p \<and> p < 2"
    then have "p = 1" by simp
    with c(1) show "continues example_runtime respond pageSize p" by simp
  qed
  have u: "[1..<Suc 2] = [1, 2]"
    by code_simp
  have run: "fetchPages example_runtime respond pageSize 1 [] =
     (case respond 2 of
        Inl e \<Rightarrow> Some (Inl e)
      | Inr final \<Rightarrow>
          Some (Inr ([] @ concat (map (items_at respond) [1..<Suc 2]), final, 2)))"
    by (rule fetchPages_run [OF _ all c(2)]) simp
  have "fetchPages example_runtime respond pageSize 1 []
      = Some (Inr ([buyer 1, buyer 2, buyer 3], JArr [buyer 3], 2))"
    unfolding run r u by (simp add: i del: One_nat_def)
  then show ?thesis
    by (simp add: fetchAll_def respond_def pageSize_def)
qed

lemma fetchAll_no_buyers:
  "fetchAll example_runtime (paged_host no_buyers) 0 get_buyers page_field limit_field
     = Some (Inr ([], JArr [], 1))"
proof -
  define pageSize where "pageSize = resolvePageSize example_runtime limit_field"
  define respond where "respond =
    (\<lambda>page. httpRequestWithAuthentication (paged_host no_buyers) 0
      (paginatedRequestOptions get_buyers page_field limit_field pageSize page))"
  have c: "\<not> continues example_runtime respond pageSize 1"
    unfolding respond_def pageSize_def by code_simp
  have r: "respond 1 = Inr (JArr [])"
    unfolding respond_def pageSize_def by code_simp
  have i: "items_at respond 1 = []"
    unfolding respond_def pageSize_def by code_simp
  have u: "[1..<Suc 1] = [1]"
    by code_simp
  have run: "fetchPages example_runtime respond pageSize 1 [] =
     (case respond 1 of
        Inl e \<Rightarrow> Some (Inl e)
      | Inr final \<Rightarrow>
          Some (Inr ([] @ concat (map (items_at respond) [1..<Suc 1]), final, 1)))"
    by (rule fetchPages_run [OF _ _ c]) simp_all
  have "fetchPages example_runtime respond pageSize 1 [] = Some (Inr ([], JArr [], 1))"
    unfolding run r u by (simp add: i del: One_nat_def)
  then show ?thesis
    by (simp add: fetchAll_def respond_def pageSize_def)
qed

definition failing_pages :: "jsval \<Rightarrow> error + jsval" where
  "failing_pages page = Inl (HostError ''timeout'')"

definition stuck_pages :: "jsval \<Rightarrow> error + jsval" where
  "stuck_pages page = stuck_respond 1"

lemma fetchAll_failing_pages:
  "fetchAll rt (paged_host failing_pages) 0 get_buyers page_field limit_field
     = Some (Inl (HostError ''timeout''))"
  unfolding fetchAll_def
  by (subst fetchPages.simps) (simp add: paged_host_def failing_pages_def)

lemma fetchAll_stuck_pages:
  "fetchAll rt (paged_host stuck_pages) 0 get_buyers page_field limit_field = None"
proof -
  have "(\<lambda>page. httpRequestWithAuthentication (paged_host stuck_pages) 0
      (paginatedRequestOptions get_buyers page_field limit_field
         (resolvePageSize rt limit_field) page)) = stuck_respond"
    by (rule ext) (simp add: paged_host_def stuck_pages_def stuck_respond_def)
  then show ?thesis
    unfolding fetchAll_def
    by (simp only:) (rule fetchPages_forever, simp_all add: stuck_continues)
qed

definition silent_host :: host where
  "silent_host = (paged_host no_buyers)\<lparr>nodeParameter := (\<lambda>n i. None)\<rparr>"

text \<open>
  C5 (amended): response normalization produces one record per element for a bare
  array (none for an empty array) and exactly one record for anything else: a JSON
  object as it is, a scalar or undefined wrapped under \<open>value\<close>; it produces no record
  only for the empty array. An item that reaches dispatch with a single request (not in
  fetch-all mode, or without a page or a limit field) and receives a response yields
  the normalization of that response. An item in fetch-all mode whose loop returns
  yields the accumulated items, one record each, or else the normalization of the last
  response; it yields no record exactly when no items were accumulated and the last
  response is undefined or an empty array. An item whose request or loop fails, or
  whose request cannot be built, fails with that error, and an item whose loop does
  not end yields nothing. An item whose processing fails yields exactly one error
  record with the message and its index when the host continues on failure, and
  aborts the run with the error otherwise.
\<close>

theorem output_records:
  "length (normalizeResponseData d) = (case d of JArr xs \<Rightarrow> length xs | _ \<Rightarrow> 1) \<and>
   map json (normalizeResponseData (JArr xs)) = xs \<and>
   normalizeResponseData (JObj kvs) = [\<lparr>json = JObj kvs, pairedItem = None\<rparr>] \<and>
   (scalar d \<longrightarrow>
      normalizeResponseData d = [\<lparr>json = JObj [(''value'', d)], pairedItem = None\<rparr>]) \<and>
   (normalizeResponseData d = [] \<longleftrightarrow> d = JArr []) \<and>
   (paginatedOutput aggregatedItems lastResponse = [] \<longleftrightarrow>
      aggregatedItems = [] \<and> (lastResponse = JUndefined \<or> lastResponse = JArr [])) \<and>
   (buildRequest rt h resources i = Inr (operationMeta, requestOptions, g) \<and> \<not> js_Boolean g
      \<and> httpRequestWithAuthentication h i requestOptions = Inr response \<longrightarrow>
      executeItem rt h resources i = Some (Inr (normalizeResponseData response))) \<and>
   (processItem rt h resources i = Some (Inl e) \<and> continueOnFail h \<longrightarrow>
      executeItem rt h resources i = Some (Inr [errorRecord e i])) \<and>
   (processItem rt h resources i = Some (Inl e) \<and> \<not> continueOnFail h \<longrightarrow>
      executeItem rt h resources i = Some (Inl (rethrow e))) \<and>
   (buildRequest rt h resources i = Inr (operationMeta, requestOptions, g)
      \<and> (findField ''page'' (simple (queryUi operationMeta)) = None
           \<or> findField ''limit'' (simple (queryUi operationMeta)) = None)
      \<and> httpRequestWithAuthentication h i requestOptions = Inr response \<longrightarrow>
      executeItem rt h resources i = Some (Inr (normalizeResponseData response))) \<and>
   (buildRequest rt h resources i = Inr (operationMeta, requestOptions, g) \<and> js_Boolean g
      \<and> findField ''page'' (simple (queryUi operationMeta)) = Some pageField
      \<and> findField ''limit'' (simple (queryUi operationMeta)) = Some limitField
      \<and> fetchAll rt h i requestOptions pageField limitField
          = Some (Inr (aggregatedItems, lastResponse, page)) \<longrightarrow>
      executeItem rt h resources i = Some (Inr (paginatedOutput aggregatedItems lastResponse))
      \<and> (executeItem rt h resources i = Some (Inr []) \<longleftrightarrow>
           aggregatedItems = [] \<and> (lastResponse = JUndefined \<or> lastResponse = JArr []))) \<and>
   (buildRequest rt h resources i = Inr (operationMeta, requestOptions, g) \<and> js_Boolean g
      \<and> findField ''page'' (simple (queryUi operationMeta)) = Some pageField
      \<and> findField ''limit'' (simple (queryUi operationMeta)) = Some limitField
      \<and> fetchAll rt h i requestOptions pageField limitField = Some (Inl e) \<longrightarrow>
      processItem rt h resources i = Some (Inl e)) \<and>
   (buildRequest rt h resources i = Inr (operationMeta, requestOptions, g) \<and> js_Boolean g
      \<and> findField ''page'' (simple (queryUi operationMeta)) = Some pageField
      \<and> findField ''limit'' (simple (queryUi operationMeta)) = Some limitField
      \<and> fetchAll rt h i requestOptions pageField limitField = None \<longrightarrow>
      executeItem rt h resources i = None) \<and>
   (buildRequest rt h resources i = Inr (operationMeta, requestOptions, g) \<and> \<not> js_Boolean g
      \<and> httpRequestWithAuthentication h i requestOptions = Inl e \<longrightarrow>
      processItem rt h resources i = Some (Inl e)) \<and>
   (buildRequest rt h resources i = Inl e \<longrightarrow> processItem rt h resources i = Some (Inl e))"
proof (intro conjI impI)
  show "length (normalizeResponseData d) = (case d of JArr xs \<Rightarrow> length xs | _ \<Rightarrow> 1)"
    by (rule length_normalizeResponseData)
  show "map json (normalizeResponseData (JArr xs)) = xs"
    by (simp add: normalizeResponseData_def returnJsonArray_def comp_def)
  show "normalizeResponseData (JObj kvs) = [\<lparr>json = JObj kvs, pairedItem = None\<rparr>]"
    by (simp add: normalizeResponseData_def)
  show "normalizeResponseData d = [\<lparr>json = JObj [(''value'', d)], pairedItem = None\<rparr>]"
    if "scalar d"
    using that by (rule normalizeResponseData_scalar)
  show "(normalizeResponseData d = []) = (d = JArr [])"
    by (rule normalizeResponseData_empty)
  show "(paginatedOutput aggregatedItems lastResponse = []) =
      (aggregatedItems = [] \<and> (lastResponse = JUndefined \<or> lastResponse = JArr []))"
    by (rule paginatedOutput_empty)
  show "executeItem rt h resources i = Some (Inr (normalizeResponseData response))"
    if "buildRequest rt h resources i = Inr (operationMeta, requestOptions, g)
      \<and> \<not> js_Boolean g \<and> httpRequestWithAuthentication h i requestOptions = Inr response"
    using that executeItem_single by blast
  show "executeItem rt h resources i = Some (Inr [errorRecord e i])"
    if "processItem rt h resources i = Some (Inl e) \<and> continueOnFail h"
    using that by (simp add: executeItem_def)
  show "executeItem rt h resources i = Some (Inl (rethrow e))"
    if "processItem rt h resources i = Some (Inl e) \<and> \<not> continueOnFail h"
    using that by (simp add: executeItem_def)
  show "executeItem rt h resources i = Some (Inr (normalizeResponseData response))"
    if a: "buildRequest rt h resources i = Inr (operationMeta, requestOptions, g)
      \<and> (findField ''page'' (simple (queryUi operationMeta)) = None
           \<or> findField ''limit'' (simple (queryUi operationMeta)) = None)
      \<and> httpRequestWithAuthentication h i requestOptions = Inr response"
  proof -
    from a have "processItem rt h resources i =
       (case httpRequestWithAuthentication h i requestOptions of
          Inl e \<Rightarrow> Some (Inl e)
        | Inr response \<Rightarrow> Some (Inr (normalizeResponseData response)))"
      by (intro processItem_one_request [where operationMeta = operationMeta and g = g]) simp_all
    with a show ?thesis
      by (simp add: executeItem_def)
  qed
  show "executeItem rt h resources i = Some (Inr (paginatedOutput aggregatedItems lastResponse))"
    if "buildRequest rt h resources i = Inr (operationMeta, requestOptions, g) \<and> js_Boolean g
      \<and> findField ''page'' (simple (queryUi operationMeta)) = Some pageField
      \<and> findField ''limit'' (simple (queryUi operationMeta)) = Some limitField
      \<and> fetchAll rt h i requestOptions pageField limitField
          = Some (Inr (aggregatedItems, lastResponse, page))"
    using that executeItem_fetchAll by blast
  show "(executeItem rt h resources i = Some (Inr [])) =
      (aggregatedItems = [] \<and> (lastResponse = JUndefined \<or> lastResponse = JArr []))"
    if a: "buildRequest rt h resources i = Inr (operationMeta, requestOptions, g) \<and> js_Boolean g
      \<and> findField ''page'' (simple (queryUi operationMeta)) = Some pageField
      \<and> findField ''limit'' (simple (queryUi operationMeta)) = Some limitField
      \<and> fetchAll rt h i requestOptions pageField limitField
          = Some (Inr (aggregatedItems, lastResponse, page))"
  proof -
    from a have "executeItem rt h resources i
        = Some (Inr (paginatedOutput aggregatedItems lastResponse))"
      using executeItem_fetchAll by blast
    then show ?thesis
      by (simp add: paginatedOutput_empty)
  qed
  show "processItem rt h resources i = Some (Inl e)"
    if a: "buildRequest rt h resources i = Inr (operationMeta, requestOptions, g) \<and> js_Boolean g
      \<and> findField ''page'' (simple (queryUi operationMeta)) = Some pageField
      \<and> findField ''limit'' (simple (queryUi operationMeta)) = Some limitField
      \<and> fetchAll rt h i requestOptions pageField limitField = Some (Inl e)"
  proof -
    from a have "processItem rt h resources i =
       (case fetchAll rt h i requestOptions pageField limitField of
          None \<Rightarrow> None
        | Some (Inl e) \<Rightarrow> Some (Inl e)
        | Some (Inr (aggregatedItems, lastResponse, page)) \<Rightarrow>
            Some (Inr (paginatedOutput aggregatedItems lastResponse)))"
      by (intro processItem_fetchAll [where operationMeta = operationMeta and g = g]) simp_all
    with a show ?thesis
      by simp
  qed
  show "executeItem rt h resources i = None"
    if a: "buildRequest rt h resources i = Inr (operationMeta, requestOptions, g) \<and> js_Boolean g
      \<and> findField ''page'' (simple (queryUi operationMeta)) = Some pageField
      \<and> findField ''limit'' (simple (queryUi operationMeta)) = Some limitField
      \<and> fetchAll rt h i requestOptions pageField limitField = None"
  proof -
    from a have "processItem rt h resources i =
       (case fetchAll rt h i requestOptions pageField limitField of
          None \<Rightarrow> None
        | Some (Inl e) \<Rightarrow> Some (Inl e)
        | Some (Inr (aggregatedItems, lastResponse, page)) \<Rightarrow>
            Some (Inr (paginatedOutput aggregatedItems lastResponse)))"
      by (intro processItem_fetchAll [where operationMeta = operationMeta and g = g]) simp_all
    with a show ?thesis
      by (simp add: executeItem_def)
  qed
  show "processItem rt h resources i = Some (Inl e)"
    if a: "buildRequest rt h resources i = Inr (operationMeta, requestOptions, g)
      \<and> \<not> js_Boolean g \<and> httpRequestWithAuthentication h i requestOptions = Inl e"
  proof -
    from a have "processItem rt h resources i =
       (case httpRequestWithAuthentication h i requestOptions of
          Inl e \<Rightarrow> Some (Inl e)
        | Inr response \<Rightarrow> Some (Inr (normalizeResponseData response)))"
      by (intro processItem_one_request [where operationMeta = operationMeta and g = g]) simp_all
    with a show ?thesis
      by simp
  qed
  show "processItem rt h resources i = Some (Inl e)"
    if "buildRequest rt h resources i = Inl e"
    using that by (simp add: processItem_def)
qed

theorem output_records_witness:
  "buildRequest example_runtime (buyer_host (Inr (JObj [(''id'', JNum (Fin 1))])) False)
       [buyer_resource] 0 = Inr (listBuyers, get_buyers, JBool False) \<and>
   \<not> js_Boolean (JBool False) \<and>
   executeItem example_runtime (buyer_host (Inr (JObj [(''id'', JNum (Fin 1))])) False)
       [buyer_resource] 0
     = Some (Inr [\<lparr>json = JObj [(''id'', JNum (Fin 1))], pairedItem = None\<rparr>]) \<and>
   scalar (JStr ''ok'') \<and>
   normalizeResponseData (JStr ''ok'')
     = [\<lparr>json = JObj [(''value'', JStr ''ok'')], pairedItem = None\<rparr>] \<and>
   processItem example_runtime (buyer_host (Inl (HostError ''timeout'')) True)
       [buyer_resource] 0 = Some (Inl (HostError ''timeout'')) \<and>
   executeItem example_runtime (buyer_host (Inl (HostError ''timeout'')) True)
       [buyer_resource] 0
     = Some (Inr [\<lparr>json = JObj [(''error'', JStr ''timeout'')], pairedItem = Some 0\<rparr>]) \<and>
   executeItem example_runtime (buyer_host (Inl (HostError ''timeout'')) False)
       [buyer_resource] 0
     = Some (Inl (NodeOperationError ''timeout'')) \<and>
   findField ''page'' (simple (queryUi listBuyers)) = None \<and>
   executeItem example_runtime (buyer_host (Inr (JStr ''ok'')) False) [buyer_resource] 0
     = Some (Inr [\<lparr>json = JObj [(''value'', JStr ''ok'')], pairedItem = None\<rparr>]) \<and>
   buildRequest example_runtime (paged_host three_buyers) [paged_resource] 0
     = Inr (listBuyersPaged, get_buyers, JBool True) \<and>
   js_Boolean (JBool True) \<and>
   findField ''page'' (simple (queryUi listBuyersPaged)) = Some page_field \<and>
   findField ''limit'' (simple (queryUi listBuyersPaged)) = Some limit_field \<and>
   fetchAll example_runtime (paged_host three_buyers) 0 get_buyers page_field limit_field
     = Some (Inr ([buyer 1, buyer 2, buyer 3], JArr [buyer 3], 2)) \<and>
   executeItem example_runtime (paged_host three_buyers) [paged_resource] 0
     = Some (Inr [\<lparr>json = buyer 1, pairedItem = None\<rparr>, \<lparr>json = buyer 2, pairedItem = None\<rparr>,
                  \<lparr>json = buyer 3, pairedItem = None\<rparr>]) \<and>
   fetchAll example_runtime (paged_host no_buyers) 0 get_buyers page_field limit_field
     = Some (Inr ([], JArr [], 1)) \<and>
   executeItem example_runtime (paged_host no_buyers) [paged_resource] 0 = Some (Inr []) \<and>
   fetchAll example_runtime (paged_host failing_pages) 0 get_buyers page_field limit_field
     = Some (Inl (HostError ''timeout'')) \<and>
   processItem example_runtime (paged_host failing_pages) [paged_resource] 0
     = Some (Inl (HostError ''timeout'')) \<and>
   fetchAll example_runtime (paged_host stuck_pages) 0 get_buyers page_field limit_field = None \<and>
   executeItem example_runtime (paged_host stuck_pages) [paged_resource] 0 = None \<and>
   buildRequest example_runtime silent_host [buyer_resource] 0
     = Inl (HostError ''Could not get parameter resource'') \<and>
   processItem example_runtime silent_host [buyer_resource] 0
     = Some (Inl (HostError ''Could not get parameter resource''))"
proof -
  let ?ok = "buyer_host (Inr (JObj [(''id'', JNum (Fin 1))])) False"
  let ?timeout = "HostError ''timeout''"
  have b: "buildRequest example_runtime (buyer_host response continue) [buyer_resource] 0
      = Inr (listBuyers, get_buyers, JBool False)" for response continue
    by (rule buildRequest_buyers)
  have g: "\<not> js_Boolean (JBool False)" "js_Boolean (JBool True)"
    by (simp_all add: js_Boolean_def)
  have r: "httpRequestWithAuthentication (buyer_host response continue) 0 get_buyers = response"
    for response continue
    by (simp add: buyer_host_def)
  note t = output_records [where rt = example_runtime and i = 0]
  note single = t [where resources = "[buyer_resource]" and operationMeta = listBuyers
      and requestOptions = get_buyers and g = "JBool False"]
  note paged = t [where resources = "[paged_resource]" and operationMeta = listBuyersPaged
      and requestOptions = get_buyers and g = "JBool True" and pageField = page_field
      and limitField = limit_field]
  have s1: "executeItem example_runtime ?ok [buyer_resource] 0
      = Some (Inr [\<lparr>json = JObj [(''id'', JNum (Fin 1))], pairedItem = None\<rparr>])"
    using single [where h = "?ok" and response = "JObj [(''id'', JNum (Fin 1))]",
        THEN conjunct2, THEN conjunct2, THEN conjunct2, THEN conjunct2, THEN conjunct2,
        THEN conjunct2, THEN conjunct1] b g(1) r
    by (simp add: normalizeResponseData_def)
  have sc: "scalar (JStr ''ok'')"
    by (simp add: scalar_def)
  have s2: "normalizeResponseData (JStr ''ok'')
      = [\<lparr>json = JObj [(''value'', JStr ''ok'')], pairedItem = None\<rparr>]"
    using t [where d = "JStr ''ok''",
        THEN conjunct2, THEN conjunct2, THEN conjunct2, THEN conjunct1] sc
    by blast
  have p: "processItem example_runtime (buyer_host (Inl ?timeout) c) [buyer_resource] 0
      = Some (Inl ?timeout)" for c
    using single [where h = "buyer_host (Inl ?timeout) c" and e = ?timeout,
        THEN conjunct2, THEN conjunct2, THEN conjunct2, THEN conjunct2, THEN conjunct2,
        THEN conjunct2, THEN conjunct2, THEN conjunct2, THEN conjunct2, THEN conjunct2,
        THEN conjunct2, THEN conjunct2, THEN conjunct2, THEN conjunct1] b g(1) r
    by blast
  have c1: "continueOnFail (buyer_host (Inl ?timeout) True)"
    "\<not> continueOnFail (buyer_host (Inl ?timeout) False)"
    by (simp_all add: buyer_host_def)
  have s3: "executeItem example_runtime (buyer_host (Inl ?timeout) True) [buyer_resource] 0
      = Some (Inr [errorRecord ?timeout 0])"
    using t [where h = "buyer_host (Inl ?timeout) True" and resources = "[buyer_resource]"
        and e = ?timeout,
        THEN conjunct2, THEN conjunct2, THEN conjunct2, THEN conjunct2, THEN conjunct2,
        THEN conjunct2, THEN conjunct2, THEN conjunct1] p c1(1)
    by blast
  have s4: "executeItem example_runtime (buyer_host (Inl ?timeout) False) [buyer_resource] 0
      = Some (Inl (rethrow ?timeout))"
    using t [where h = "buyer_host (Inl ?timeout) False" and resources = "[buyer_resource]"
        and e = ?timeout,
        THEN conjunct2, THEN conjunct2, THEN conjunct2, THEN conjunct2, THEN conjunct2,
        THEN conjunct2, THEN conjunct2, THEN conjunct2, THEN conjunct1] p c1(2)
    by blast
  have np: "findField ''page'' (simple (queryUi listBuyers)) = None"
    by code_simp
  have s5: "executeItem example_runtime (buyer_host (Inr (JStr ''ok'')) False)
      [buyer_resource] 0 = Some (Inr (normalizeResponseData (JStr ''ok'')))"
    using single [where h = "buyer_host (Inr (JStr ''ok'')) False" and response = "JStr ''ok''",
        THEN conjunct2, THEN conjunct2, THEN conjunct2, THEN conjunct2, THEN conjunct2,
        THEN conjunct2, THEN conjunct2, THEN conjunct2, THEN conjunct2, THEN conjunct1] b np r
    by blast
  have bp: "buildRequest example_runtime (paged_host pages) [paged_resource] 0
      = Inr (listBuyersPaged, get_buyers, JBool True)" for pages
    by (rule buildRequest_paged)
  note three = paged [where h = "paged_host three_buyers"
      and aggregatedItems = "[buyer 1, buyer 2, buyer 3]" and lastResponse = "JArr [buyer 3]"
      and page = 2,
        THEN conjunct2, THEN conjunct2, THEN conjunct2, THEN conjunct2, THEN conjunct2,
        THEN conjunct2, THEN conjunct2, THEN conjunct2, THEN conjunct2, THEN conjunct2,
        THEN conjunct1]
  have s6: "executeItem example_runtime (paged_host three_buyers) [paged_resource] 0
      = Some (Inr (paginatedOutput [buyer 1, buyer 2, buyer 3] (JArr [buyer 3])))"
    using three bp g(2) paged_fields fetchAll_three_buyers
    by blast
  note none = paged [where h = "paged_host no_buyers" and aggregatedItems = "[]"
      and lastResponse = "JArr []" and page = 1,
        THEN conjunct2, THEN conjunct2, THEN conjunct2, THEN conjunct2, THEN conjunct2,
        THEN conjunct2, THEN conjunct2, THEN conjunct2, THEN conjunct2, THEN conjunct2,
        THEN conjunct1]
  have s7: "executeItem example_runtime (paged_host no_buyers) [paged_resource] 0
      = Some (Inr [])"
    using none bp g(2) paged_fields fetchAll_no_buyers
    by blast
  have s8: "processItem example_runtime (paged_host failing_pages) [paged_resource] 0
      = Some (Inl ?timeout)"
    using paged [where h = "paged_host failing_pages" and e = ?timeout,
        THEN conjunct2, THEN conjunct2, THEN conjunct2, THEN conjunct2, THEN conjunct2,
        THEN conjunct2, THEN conjunct2, THEN conjunct2, THEN conjunct2, THEN conjunct2,
        THEN conjunct2, THEN conjunct1] bp g(2) paged_fields fetchAll_failing_pages
    by blast
  have s9: "executeItem example_runtime (paged_host stuck_pages) [paged_resource] 0 = None"
    using paged [where h = "paged_host stuck_pages",
        THEN conjunct2, THEN conjunct2, THEN conjunct2, THEN conjunct2, THEN conjunct2,
        THEN conjunct2, THEN conjunct2, THEN conjunct2, THEN conjunct2, THEN conjunct2,
        THEN conjunct2, THEN conjunct2, THEN conjunct1] bp g(2) paged_fields fetchAll_stuck_pages
    by blast
  have bs: "buildRequest example_runtime silent_host [buyer_resource] 0
      = Inl (HostError ''Could not get parameter resource'')"
    by code_simp
  have s10: "processItem example_runtime silent_host [buyer_resource] 0
      = Some (Inl (HostError ''Could not get parameter resource''))"
    using t [where h = silent_host and resources = "[buyer_resource]"
        and e = "HostError ''Could not get parameter resource''",
        THEN conjunct2, THEN conjunct2, THEN conjunct2, THEN conjunct2, THEN conjunct2,
        THEN conjunct2, THEN conjunct2, THEN conjunct2, THEN conjunct2, THEN conjunct2,
        THEN conjunct2, THEN conjunct2, THEN conjunct2, THEN conjunct2] bs
    by blast
  have out: "paginatedOutput [buyer 1, buyer 2, buyer 3] (JArr [buyer 3])
      = [\<lparr>json = buyer 1, pairedItem = None\<rparr>, \<lparr>json = buyer 2, pairedItem = None\<rparr>,
         \<lparr>json = buyer 3, pairedItem = None\<rparr>]"
    by (simp add: paginatedOutput_def returnJsonArray_def)
  from b g s1 sc s2 p [of True] s3 s4 np s5 bp [of three_buyers] paged_fields
    fetchAll_three_buyers s6 fetchAll_no_buyers s7 fetchAll_failing_pages s8
    fetchAll_stuck_pages s9 bs s10
  show ?thesis
    by (simp add: errorRecord_def rethrow_def out)
qed

end
